(* ===== verification/Prelude.thy ===== *)
theory Prelude
  imports Main "HOL-Library.Word"
begin

text \<open>
  Shared vocabulary of the development: names for the C integer types used by
  \<^verbatim>\<open>tools/adsp2181emu\<close>, the theorem collections the component theories fill, and generic
  facts about masks, bits and casts of machine words.
\<close>

unbundle bit_operations_syntax

section \<open>Integer types of the C sources\<close>

text \<open>
  \<^verbatim>\<open>UINT8/16/32/64\<close> are words of that width.  \<^verbatim>\<open>INT16/INT32/INT64\<close> are the same words read
  through \<^const>\<open>sint\<close> (two's complement, as the unions \<^verbatim>\<open>ADSPREG16\<close> and \<^verbatim>\<open>MACRESULT\<close> do).
\<close>

type_synonym u8 = "8 word"
type_synonym u16 = "16 word"
type_synonym u32 = "32 word"
type_synonym u64 = "64 word"

named_theorems frame_simps \<open>fields an operation leaves alone\<close>
named_theorems inv_intros \<open>an operation keeps a state invariant\<close>
named_theorems op_defs \<open>definitions of primitive operations\<close>

section \<open>Bits and masks\<close>

text \<open>A C test \<open>w & 2^n\<close> reads one bit.\<close>

lemma and_power_test: "(w AND 2 ^ n \<noteq> 0) \<longleftrightarrow> bit w n" if "n < LENGTH('a)" for w :: "'a::len word"
proof -
  have "w AND 2 ^ n = push_bit n (of_bool (bit w n))"
    by (rule bit_word_eqI) (auto simp: bit_simps that)
  then show ?thesis
    using that by (simp add: push_bit_eq_mult bit_iff_odd) 
qed

lemma bit_numeral_masks:
  fixes w :: "'a::len word"
  shows "4 < LENGTH('a) \<Longrightarrow> (w AND 16 \<noteq> 0) \<longleftrightarrow> bit w 4"
    and "3 < LENGTH('a) \<Longrightarrow> (w AND 8 \<noteq> 0) \<longleftrightarrow> bit w 3"
    and "2 < LENGTH('a) \<Longrightarrow> (w AND 4 \<noteq> 0) \<longleftrightarrow> bit w 2"
    and "1 < LENGTH('a) \<Longrightarrow> (w AND 2 \<noteq> 0) \<longleftrightarrow> bit w 1"
  using and_power_test [of 4 w] and_power_test [of 3 w] and_power_test [of 2 w]
    and_power_test [of 1 w]
  by simp_all

lemma word_and_mask_idem [simp]: "(w AND m) AND m = w AND (m :: 'a::len word)"
  by (simp add: and.assoc)

text \<open>A value cut by a mask is at most the mask, so it indexes an array of that size.\<close>

lemma unat_and_le: "unat (w AND m) \<le> unat (m :: 'a::len word)"
  using word_and_le1 [of w m] by (simp add: word_le_nat_alt)

lemma unat_and_less: "unat m < n \<Longrightarrow> unat (w AND m) < n" for w :: "'a::len word"
  using unat_and_le [of w m] by simp

lemma word_and_less: "m < n \<Longrightarrow> w AND m < n" for w :: "'a::len word"
  using word_and_le1 [of w m] by (rule order.strict_trans1)

lemma or_less_power:
  fixes a b :: "'a::len word"
  assumes "a < 2 ^ n" "b < 2 ^ n" "n < LENGTH('a)"
  shows "a OR b < 2 ^ n"
proof -
  have "a AND mask n = a" "b AND mask n = b"
    using assms by (simp_all add: less_mask_eq)
  then have "(a OR b) AND mask n = a OR b" by (simp add: word_ao_dist)
  then show ?thesis using assms(3) and_mask_less' [of n "a OR b"] by simp
qed

lemma and_less_power: "a < 2 ^ n \<Longrightarrow> a AND b < 2 ^ n" for a b :: "'a::len word"
  using word_and_le2 [of a b] by (rule order.strict_trans1)

section \<open>Signed readings\<close>

lemma u32_bit_tests:
  fixes z :: u32
  shows "(z AND 0x40000000 = 0) = (\<not> bit z 30)" "(z AND 0x10000 = 0) = (\<not> bit z 16)"
    "(z AND 0x8000 = 0) = (\<not> bit z 15)"
  using and_power_test [of 30 z] and_power_test [of 16 z] and_power_test [of 15 z] by auto

lemma sless_0_bit: "(x <s 0) = bit (x :: u32) 31"
  using bit_last_iff [of x] by (simp add: word_sless_alt)

lemma bit_0x8000: "bit (0x8000 :: u32) n = (n = 15)"
proof -
  have "(0x8000 :: u32) = push_bit 15 1" by simp
  then show ?thesis by (simp only: bit_push_bit_iff bit_1_iff) auto
qed

lemma sint_ucast_neg:
  fixes n :: nat
  assumes "n < 2 ^ (LENGTH('a) - 1)" "LENGTH('a::len) \<le> LENGTH('b::len)"
  shows "sint (ucast (- of_nat n :: 'b word) :: 'a word) = - int n"
proof -
  have "(- of_nat n :: 'b word) = word_of_int (- int n)" by simp
  then have "(ucast (- of_nat n :: 'b word) :: 'a word) = word_of_int (- int n)"
    using assms(2) by (simp only: ucast_down_wi is_down)
  moreover have "int n < 2 ^ (LENGTH('a) - 1)"
    using assms(1) by (metis of_nat_less_iff of_nat_numeral of_nat_power)
  moreover from this have "signed_take_bit (LENGTH('a) - 1) (- int n) = - int n"
    by (intro signed_take_bit_int_eq_self) linarith+
  ultimately show ?thesis using sint_sbintrunc' [of "- int n", where 'a = 'a] by simp
qed

lemma sint_push_bit_small:
  fixes x :: u32
  assumes "n \<le> 31" "\<forall>j<n. bit x (30 - j) = bit x 31"
  shows "sint (push_bit n x) = sint x * 2 ^ n"
proof -
  have "signed_take_bit (31 - n) (sint x) = sint x"
  proof (rule bit_eqI)
    fix k
    have low: "bit x i = bit x 31" if "31 - n \<le> i" "i < 32" for i
      using that assms(1) spec [OF assms(2), of "30 - i"] by (cases "i = 31") auto
    have "bit x (31 - n) = bit x 31" using low [of "31 - n"] by simp
    then show "bit (signed_take_bit (31 - n) (sint x)) k = bit (sint x) k"
      using low [of k] by (cases "k < 32") 
        (auto simp: bit_signed_take_bit_iff bit_sint_iff min_def dest: bit_imp_le_length)
  qed
  then have "- (2 ^ (31 - n)) \<le> sint x \<and> sint x < 2 ^ (31 - n)"
    by (simp add: signed_take_bit_int_eq_self_iff)
  then have "- (2 ^ (31 - n)) * 2 ^ n \<le> sint x * 2 ^ n \<and> sint x * 2 ^ n < 2 ^ (31 - n) * (2 ^ n :: int)"
    by (intro conjI mult_right_mono mult_strict_right_mono) simp_all
  then have r: "- (2 ^ 31) \<le> sint x * 2 ^ n \<and> sint x * 2 ^ n < 2 ^ 31"
    using assms(1) by (simp flip: power_add)
  have "sint (push_bit n x) = signed_take_bit 31 (sint x * 2 ^ n)"
    using signed_push_bit_eq [of n x, where 'a = int] by (simp add: push_bit_eq_mult [of n "sint x"])
  with r show ?thesis by (simp add: signed_take_bit_int_eq_self)
qed

section \<open>Casts\<close>

lemma u16_u32_u16 [simp]: "ucast (ucast (a :: u16) :: u32) = a"
  by (rule bit_word_eqI) (auto simp: bit_simps)

lemma u32_u16_u32: "x < 0x10000 \<Longrightarrow> ucast (ucast (x :: u32) :: u16) = x"
proof -
  assume "x < 0x10000"
  then have "x AND mask 16 = x" using less_mask_eq [of x 16] by simp
  then have "bit x n \<Longrightarrow> n < 16" for n by (metis bit_and_iff bit_mask_iff)
  then show ?thesis by (intro bit_word_eqI) (auto simp: bit_simps)
qed

lemma unat_ucast_le: "unat (ucast x :: 'b::len word) \<le> unat (x :: 'a::len word)"
  by (simp only: unsigned_ucast_eq take_bit_nat_less_eq_self)

lemma fun_upd_apply_ne: "x \<noteq> y \<Longrightarrow> (f(x := v)) y = f y"
  by simp

end
