(* ===== verification/Machine.thy ===== *)
theory Machine
  imports Prelude
begin

text \<open>
  The processor state of \<^verbatim>\<open>tools/adsp2181emu/adsp2181_core.c\<close>: \<^verbatim>\<open>ADSPCORE\<close> (one register
  bank), the instrumentation half of \<^verbatim>\<open>struct adsp2181\<close> as its own record, and the struct
  itself.  Names follow the source; the one-letter arrays \<^verbatim>\<open>i m l lmask base\<close> carry the prefix
  \<open>dag_\<close>, \<^verbatim>\<open>loop\<close> is \<open>loop_end\<close> and \<^verbatim>\<open>zero\<close> is \<open>czero\<close>.
  Arrays are functions from their index; that every index the code computes is inside the C
  array is proved separately, as part of the machine invariant.
  C integers that only ever hold 0 or 1 are \<open>bool\<close>.
\<close>

section \<open>One register bank (\<open>ADSPCORE\<close>)\<close>

record adspcore =
  ax0 :: u16
  ax1 :: u16
  ay0 :: u16
  ay1 :: u16
  ar :: u16
  af :: u16
  mx0 :: u16
  mx1 :: u16
  my0 :: u16
  my1 :: u16
  mr :: u64
  mf :: u16
  si :: u16
  se :: u16
  sb :: u16
  sr :: u32
  czero :: u16

text \<open>
  The unions \<^verbatim>\<open>MACRESULT\<close> and \<^verbatim>\<open>SHIFTRESULT\<close> (little-endian branch, \<^verbatim>\<open>LSB_FIRST\<close> is
  defined): 16-bit views of the 64-bit MR and the 32-bit SR.
\<close>

definition mr0 :: "adspcore \<Rightarrow> u16" where "mr0 c = ucast (mr c)"
definition mr1 :: "adspcore \<Rightarrow> u16" where "mr1 c = ucast (drop_bit 16 (mr c))"
definition mr2 :: "adspcore \<Rightarrow> u16" where "mr2 c = ucast (drop_bit 32 (mr c))"
definition sr0 :: "adspcore \<Rightarrow> u16" where "sr0 c = ucast (sr c)"
definition sr1 :: "adspcore \<Rightarrow> u16" where "sr1 c = ucast (drop_bit 16 (sr c))"

definition put16 :: "nat \<Rightarrow> u16 \<Rightarrow> 'a::len word \<Rightarrow> 'a word" where
  "put16 k v w = (w AND NOT (push_bit k 0xffff)) OR push_bit k (ucast v)"

definition set_mr0 :: "u16 \<Rightarrow> adspcore \<Rightarrow> adspcore" where "set_mr0 v c = c\<lparr>mr := put16 0 v (mr c)\<rparr>"
definition set_mr1 :: "u16 \<Rightarrow> adspcore \<Rightarrow> adspcore" where "set_mr1 v c = c\<lparr>mr := put16 16 v (mr c)\<rparr>"
definition set_mr2 :: "u16 \<Rightarrow> adspcore \<Rightarrow> adspcore" where "set_mr2 v c = c\<lparr>mr := put16 32 v (mr c)\<rparr>"
definition set_sr0 :: "u16 \<Rightarrow> adspcore \<Rightarrow> adspcore" where "set_sr0 v c = c\<lparr>sr := put16 0 v (sr c)\<rparr>"
definition set_sr1 :: "u16 \<Rightarrow> adspcore \<Rightarrow> adspcore" where "set_sr1 v c = c\<lparr>sr := put16 16 v (sr c)\<rparr>"

section \<open>Observable effects\<close>

text \<open>
  What leaves the core: callback invocations and the lines \<^verbatim>\<open>logerror\<close> prints (the fields that
  identify a line, not its formatting).  The newest event comes first.
\<close>

datatype event =
    Ev_rx nat                    \<comment> \<open>\<open>sport_rx_callback(a, port)\<close>\<close>
  | Ev_tx nat u32                \<comment> \<open>\<open>sport_tx_callback(a, port, value)\<close>\<close>
  | Ev_timer bool                \<comment> \<open>\<open>timer_fired(a, enabled)\<close>\<close>
  | Log_dm_r u32 u16             \<comment> \<open>\<open>[WATCH] dm r\<close>\<close>
  | Log_dm_w u32 u16             \<comment> \<open>\<open>[WATCH] dm w\<close>\<close>
  | Log_pm_w u32 u32 u32         \<comment> \<open>\<open>[WATCH] pm w\<close> in \<open>WWORD_PGM\<close>: address, new, old\<close>
  | Log_pm_dag_w u32 u32         \<comment> \<open>\<open>[WATCH] pm w\<close> in \<open>pgm_write_dag2\<close>\<close>
  | Log_pm_dag_r u32 u32         \<comment> \<open>\<open>[WATCH] pm r\<close> in \<open>pgm_read_dag2\<close>\<close>
  | Log_pin_dm u32 u16           \<comment> \<open>\<open>[PIN] dm\<close>\<close>
  | Log_pin_pm u32 u32           \<comment> \<open>\<open>[PIN] pm\<close>\<close>
  | Log_stack_over u8 nat        \<comment> \<open>\<open>[STACK] ... overflow\<close>: SSTAT bit, depth\<close>
  | Log_irq nat nat              \<comment> \<open>\<open>[IRQ] take\<close>\<close>
  | Log_exec u32                 \<comment> \<open>\<open>[EXEC] pc\<close>\<close>
  | Log_exec_spent u32           \<comment> \<open>\<open>[EXEC] limit spent\<close>\<close>
  | Log_trace u32 u32            \<comment> \<open>\<open>[TRACE] pc op\<close>\<close>
  | Log_inval u32                \<comment> \<open>\<open>ADSP ...: Writing to an invalid register!\<close>\<close>
  | Log_ym1 u32 u32              \<comment> \<open>\<open>[YM1] ppc y\<close>\<close>

section \<open>Instrumentation (last part of \<open>struct adsp2181\<close>)\<close>

record instr_state =
  watch_dm :: "u32 \<Rightarrow> bool"
  watch_dm_left :: "u32 \<Rightarrow> u32"
  watch_dm_wonly :: "u32 \<Rightarrow> bool"
  watch_pm :: "u32 \<Rightarrow> bool"
  pin_pm :: "u32 \<Rightarrow> bool"
  pin_pm_value :: "u32 \<Rightarrow> u32"
  pin_pm_hits :: "u32 \<Rightarrow> u32"
  force_pm_fetch :: "u32 \<Rightarrow> bool"
  force_pm_fetch_value :: "u32 \<Rightarrow> u32"
  pin_dm :: "u32 \<Rightarrow> bool"
  pin_dm_value :: "u32 \<Rightarrow> u16"
  pin_dm_hits :: "u32 \<Rightarrow> u32"
  pcsp_window_min :: u8
  pcsp_window_max :: u8
  sport_entry_snapshot :: "u32 list"
  sport_return_snapshot :: "u32 list"
  watch_gate :: bool
  stop_dm_addr :: u16
  stop_dm_armed :: bool
  stop_dm_hit :: bool
  stop_dm_left :: u16
  stop_dm_group :: u16
  latch_dm_addr :: u16
  latch_dm_armed :: bool
  latch_dm_have :: bool
  latch_dm_value :: u16
  latch_dm_count :: u32
  yield_on_stop :: bool
  continue_non_idle :: bool
  watch_exec :: "u32 \<Rightarrow> bool"
  watch_exec_left :: "u32 \<Rightarrow> u32"
  exec_history :: "nat \<Rightarrow> u16"
  exec_history_pos :: u8
  exec_history_enabled :: bool
  watch_irqs :: bool
  dm_census_on :: bool
  dm_census :: "u32 \<Rightarrow> u64"
  cycles :: u64
  coverage :: "u32 \<Rightarrow> u64"
  coverage_on :: bool
  trace_budget :: int
  ym1_mame_all :: bool           \<comment> \<open>the three \<open>EICON_YM1_*\<close> globals of the core\<close>
  ym1_mame_pc :: "u32 \<Rightarrow> bool"
  ym1_log_budget :: int

section \<open>The processor (\<open>struct adsp2181\<close>)\<close>

record adsp2181 =
  core :: adspcore
  alt :: adspcore
  dag_i :: "nat \<Rightarrow> u32"
  dag_m :: "nat \<Rightarrow> u32"
  dag_l :: "nat \<Rightarrow> u32"
  dag_lmask :: "nat \<Rightarrow> u32"
  dag_base :: "nat \<Rightarrow> u32"
  px :: u8
  pc :: u32
  ppc :: u32
  loop_end :: u32
  loop_condition :: u32
  cntr :: u32
  cntr_valid :: bool
  astat :: u32
  sstat :: u32
  mstat :: u32
  mstat_prev :: u32
  astat_clear :: u32
  idle :: bool
  loop_stack :: "nat \<Rightarrow> u32"
  cntr_stack :: "nat \<Rightarrow> u32"
  pc_stack :: "nat \<Rightarrow> u32"
  stat_stack :: "nat \<Rightarrow> u16 \<times> u16 \<times> u16"
  pc_sp :: nat
  cntr_sp :: nat
  stat_sp :: nat
  loop_sp :: nat
  inject_pc_sp :: nat
  inject_cntr_sp :: nat
  inject_stat_sp :: nat
  inject_loop_sp :: nat
  inject_return :: u16
  inject_valid :: bool
  stack_over_warned :: u8
  flagout :: bool
  flagin :: bool
  fl0 :: bool
  fl1 :: bool
  fl2 :: bool
  idma_addr :: u16
  idma_cache :: u16
  idma_offs :: bool
  idma_pending_write :: bool
  idma_boot_hold :: bool
  idma_boot_mode :: bool
  sport_rx :: "nat \<Rightarrow> u16"
  sport_tx :: "nat \<Rightarrow> u16"
  sport_tx_written :: "nat \<Rightarrow> u32"
  imask :: u16
  icntl :: u8
  ifc :: u16
  pmovlay :: u16
  dmovlay :: u16
  irq_state :: "nat \<Rightarrow> bool"
  irq_latch :: "nat \<Rightarrow> bool"
  interrupts_enabled :: bool
  icount :: int
  chip_type :: int
  mstat_mask :: u32
  imask_mask :: u32
  sport_rx_callback :: "(nat \<Rightarrow> event list \<Rightarrow> u32) option"  \<comment> \<open>port, earlier events\<close>
  sport_tx_callback :: bool                        \<comment> \<open>installed or NULL\<close>
  timer_fired :: bool                              \<comment> \<open>installed or NULL\<close>
  program :: "u32 \<Rightarrow> u32"
  data :: "u32 \<Rightarrow> u16"
  program_overlay :: "nat \<Rightarrow> u32 \<Rightarrow> u32"
  data_overlay :: "nat \<Rightarrow> u32 \<Rightarrow> u16"
  io :: "u32 \<Rightarrow> u16"
  ins :: instr_state
  out :: "event list"

section \<open>The zeroed struct (\<open>calloc\<close> in \<open>adsp2181_create\<close>)\<close>

definition adspcore_zero :: adspcore where
  "adspcore_zero = \<lparr>
     ax0 = 0, ax1 = 0, ay0 = 0, ay1 = 0, ar = 0, af = 0, mx0 = 0, mx1 = 0, my0 = 0, my1 = 0,
     mr = 0, mf = 0, si = 0, se = 0, sb = 0, sr = 0, czero = 0\<rparr>"

definition instr_zero :: instr_state where
  "instr_zero = \<lparr>
     watch_dm = (\<lambda>_. False), watch_dm_left = (\<lambda>_. 0),
     watch_dm_wonly = (\<lambda>_. False), watch_pm = (\<lambda>_. False),
     pin_pm = (\<lambda>_. False), pin_pm_value = (\<lambda>_. 0), pin_pm_hits = (\<lambda>_. 0),
     force_pm_fetch = (\<lambda>_. False), force_pm_fetch_value = (\<lambda>_. 0),
     pin_dm = (\<lambda>_. False), pin_dm_value = (\<lambda>_. 0), pin_dm_hits = (\<lambda>_. 0),
     pcsp_window_min = 0, pcsp_window_max = 0, sport_entry_snapshot = replicate 21 0,
     sport_return_snapshot = replicate 21 0, watch_gate = False, stop_dm_addr = 0,
     stop_dm_armed = False, stop_dm_hit = False, stop_dm_left = 0, stop_dm_group = 0,
     latch_dm_addr = 0, latch_dm_armed = False, latch_dm_have = False, latch_dm_value = 0,
     latch_dm_count = 0, yield_on_stop = False, continue_non_idle = False,
     watch_exec = (\<lambda>_. False), watch_exec_left = (\<lambda>_. 0),
     exec_history = (\<lambda>_. 0), exec_history_pos = 0, exec_history_enabled = False,
     watch_irqs = False, dm_census_on = False, dm_census = (\<lambda>_. 0), cycles = 0,
     coverage = (\<lambda>_. 0), coverage_on = False, trace_budget = 0, ym1_mame_all = False,
     ym1_mame_pc = (\<lambda>_. False), ym1_log_budget = 0\<rparr>"

definition adsp2181_zero :: adsp2181 where
  "adsp2181_zero = \<lparr>
     core = adspcore_zero, alt = adspcore_zero, dag_i = (\<lambda>_. 0), dag_m = (\<lambda>_. 0),
     dag_l = (\<lambda>_. 0), dag_lmask = (\<lambda>_. 0), dag_base = (\<lambda>_. 0), px = 0,
     pc = 0, ppc = 0, loop_end = 0, loop_condition = 0, cntr = 0, cntr_valid = False, astat = 0,
     sstat = 0, mstat = 0, mstat_prev = 0, astat_clear = 0, idle = False,
     loop_stack = (\<lambda>_. 0), cntr_stack = (\<lambda>_. 0), pc_stack = (\<lambda>_. 0),
     stat_stack = (\<lambda>_. (0, 0, 0)), pc_sp = 0, cntr_sp = 0, stat_sp = 0, loop_sp = 0,
     inject_pc_sp = 0, inject_cntr_sp = 0, inject_stat_sp = 0, inject_loop_sp = 0,
     inject_return = 0, inject_valid = False, stack_over_warned = 0, flagout = False,
     flagin = False, fl0 = False, fl1 = False, fl2 = False, idma_addr = 0, idma_cache = 0,
     idma_offs = False, idma_pending_write = False, idma_boot_hold = False,
     idma_boot_mode = False, sport_rx = (\<lambda>_. 0), sport_tx = (\<lambda>_. 0),
     sport_tx_written = (\<lambda>_. 0), imask = 0, icntl = 0, ifc = 0, pmovlay = 0, dmovlay = 0,
     irq_state = (\<lambda>_. False), irq_latch = (\<lambda>_. False),
     interrupts_enabled = False, icount = 0, chip_type = 0, mstat_mask = 0, imask_mask = 0,
     sport_rx_callback = None, sport_tx_callback = False, timer_fired = False,
     program = (\<lambda>_. 0), data = (\<lambda>_. 0), program_overlay = (\<lambda>_ _. 0),
     data_overlay = (\<lambda>_ _. 0), io = (\<lambda>_. 0), ins = instr_zero, out = []\<rparr>"

lemmas zero_defs = adsp2181_zero_def adspcore_zero_def instr_zero_def

text \<open>The build constants of the core.\<close>

abbreviation (input) PC_STACK_DEPTH :: nat where "PC_STACK_DEPTH \<equiv> 16"
abbreviation (input) CNTR_STACK_DEPTH :: nat where "CNTR_STACK_DEPTH \<equiv> 4"
abbreviation (input) STAT_STACK_DEPTH :: nat where "STAT_STACK_DEPTH \<equiv> 4"
abbreviation (input) LOOP_STACK_DEPTH :: nat where "LOOP_STACK_DEPTH \<equiv> 4"

abbreviation (input) ADSP2181_IRQ0 :: nat where "ADSP2181_IRQ0 \<equiv> 0"
abbreviation (input) ADSP2181_SPORT1_RX :: nat where "ADSP2181_SPORT1_RX \<equiv> 0"
abbreviation (input) ADSP2181_IRQ1 :: nat where "ADSP2181_IRQ1 \<equiv> 1"
abbreviation (input) ADSP2181_SPORT1_TX :: nat where "ADSP2181_SPORT1_TX \<equiv> 1"
abbreviation (input) ADSP2181_IRQ2 :: nat where "ADSP2181_IRQ2 \<equiv> 2"
abbreviation (input) ADSP2181_SPORT0_RX :: nat where "ADSP2181_SPORT0_RX \<equiv> 3"
abbreviation (input) ADSP2181_SPORT0_TX :: nat where "ADSP2181_SPORT0_TX \<equiv> 4"
abbreviation (input) ADSP2181_TIMER :: nat where "ADSP2181_TIMER \<equiv> 5"
abbreviation (input) ADSP2181_IRQE :: nat where "ADSP2181_IRQE \<equiv> 6"
abbreviation (input) ADSP2181_IRQL1 :: nat where "ADSP2181_IRQL1 \<equiv> 7"
abbreviation (input) ADSP2181_IRQL2 :: nat where "ADSP2181_IRQL2 \<equiv> 8"
abbreviation (input) ADSP2181_IRQ_COUNT :: nat where "ADSP2181_IRQ_COUNT \<equiv> 9"

definition emit :: "event \<Rightarrow> adsp2181 \<Rightarrow> adsp2181" where
  "emit e s = s\<lparr>out := e # out s\<rparr>"

definition upd_ins :: "(instr_state \<Rightarrow> instr_state) \<Rightarrow> adsp2181 \<Rightarrow> adsp2181" where
  "upd_ins f s = s\<lparr>ins := f (ins s)\<rparr>"

definition upd_core :: "(adspcore \<Rightarrow> adspcore) \<Rightarrow> adsp2181 \<Rightarrow> adsp2181" where
  "upd_core f s = s\<lparr>core := f (core s)\<rparr>"

lemmas machine_upd_defs = emit_def upd_ins_def upd_core_def

section \<open>Frames of the three update combinators\<close>

lemma emit_frame [simp]:
  "core (emit e s) = core s" "alt (emit e s) = alt s" "dag_i (emit e s) = dag_i s"
  "dag_m (emit e s) = dag_m s" "dag_l (emit e s) = dag_l s" "dag_lmask (emit e s) = dag_lmask s"
  "dag_base (emit e s) = dag_base s" "px (emit e s) = px s" "pc (emit e s) = pc s"
  "ppc (emit e s) = ppc s" "loop_end (emit e s) = loop_end s"
  "loop_condition (emit e s) = loop_condition s" "cntr (emit e s) = cntr s"
  "cntr_valid (emit e s) = cntr_valid s" "astat (emit e s) = astat s"
  "sstat (emit e s) = sstat s" "mstat (emit e s) = mstat s"
  "mstat_prev (emit e s) = mstat_prev s" "astat_clear (emit e s) = astat_clear s"
  "idle (emit e s) = idle s" "loop_stack (emit e s) = loop_stack s"
  "cntr_stack (emit e s) = cntr_stack s" "pc_stack (emit e s) = pc_stack s"
  "stat_stack (emit e s) = stat_stack s" "pc_sp (emit e s) = pc_sp s"
  "cntr_sp (emit e s) = cntr_sp s" "stat_sp (emit e s) = stat_sp s"
  "loop_sp (emit e s) = loop_sp s" "inject_pc_sp (emit e s) = inject_pc_sp s"
  "inject_cntr_sp (emit e s) = inject_cntr_sp s" "inject_stat_sp (emit e s) = inject_stat_sp s"
  "inject_loop_sp (emit e s) = inject_loop_sp s" "inject_return (emit e s) = inject_return s"
  "inject_valid (emit e s) = inject_valid s" "stack_over_warned (emit e s) = stack_over_warned s"
  "flagout (emit e s) = flagout s" "flagin (emit e s) = flagin s" "fl0 (emit e s) = fl0 s"
  "fl1 (emit e s) = fl1 s" "fl2 (emit e s) = fl2 s" "idma_addr (emit e s) = idma_addr s"
  "idma_cache (emit e s) = idma_cache s" "idma_offs (emit e s) = idma_offs s"
  "idma_pending_write (emit e s) = idma_pending_write s"
  "idma_boot_hold (emit e s) = idma_boot_hold s" "idma_boot_mode (emit e s) = idma_boot_mode s"
  "sport_rx (emit e s) = sport_rx s" "sport_tx (emit e s) = sport_tx s"
  "sport_tx_written (emit e s) = sport_tx_written s" "imask (emit e s) = imask s"
  "icntl (emit e s) = icntl s" "ifc (emit e s) = ifc s" "pmovlay (emit e s) = pmovlay s"
  "dmovlay (emit e s) = dmovlay s" "irq_state (emit e s) = irq_state s"
  "irq_latch (emit e s) = irq_latch s" "interrupts_enabled (emit e s) = interrupts_enabled s"
  "icount (emit e s) = icount s" "chip_type (emit e s) = chip_type s"
  "mstat_mask (emit e s) = mstat_mask s" "imask_mask (emit e s) = imask_mask s"
  "sport_rx_callback (emit e s) = sport_rx_callback s"
  "sport_tx_callback (emit e s) = sport_tx_callback s" "timer_fired (emit e s) = timer_fired s"
  "program (emit e s) = program s" "data (emit e s) = data s"
  "program_overlay (emit e s) = program_overlay s" "data_overlay (emit e s) = data_overlay s"
  "io (emit e s) = io s" "ins (emit e s) = ins s"
  by (simp_all add: emit_def)

lemma upd_ins_frame [simp]:
  "core (upd_ins g s) = core s" "alt (upd_ins g s) = alt s" "dag_i (upd_ins g s) = dag_i s"
  "dag_m (upd_ins g s) = dag_m s" "dag_l (upd_ins g s) = dag_l s"
  "dag_lmask (upd_ins g s) = dag_lmask s" "dag_base (upd_ins g s) = dag_base s"
  "px (upd_ins g s) = px s" "pc (upd_ins g s) = pc s" "ppc (upd_ins g s) = ppc s"
  "loop_end (upd_ins g s) = loop_end s" "loop_condition (upd_ins g s) = loop_condition s"
  "cntr (upd_ins g s) = cntr s" "cntr_valid (upd_ins g s) = cntr_valid s"
  "astat (upd_ins g s) = astat s" "sstat (upd_ins g s) = sstat s" "mstat (upd_ins g s) = mstat s"
  "mstat_prev (upd_ins g s) = mstat_prev s" "astat_clear (upd_ins g s) = astat_clear s"
  "idle (upd_ins g s) = idle s" "loop_stack (upd_ins g s) = loop_stack s"
  "cntr_stack (upd_ins g s) = cntr_stack s" "pc_stack (upd_ins g s) = pc_stack s"
  "stat_stack (upd_ins g s) = stat_stack s" "pc_sp (upd_ins g s) = pc_sp s"
  "cntr_sp (upd_ins g s) = cntr_sp s" "stat_sp (upd_ins g s) = stat_sp s"
  "loop_sp (upd_ins g s) = loop_sp s" "inject_pc_sp (upd_ins g s) = inject_pc_sp s"
  "inject_cntr_sp (upd_ins g s) = inject_cntr_sp s"
  "inject_stat_sp (upd_ins g s) = inject_stat_sp s"
  "inject_loop_sp (upd_ins g s) = inject_loop_sp s"
  "inject_return (upd_ins g s) = inject_return s" "inject_valid (upd_ins g s) = inject_valid s"
  "stack_over_warned (upd_ins g s) = stack_over_warned s" "flagout (upd_ins g s) = flagout s"
  "flagin (upd_ins g s) = flagin s" "fl0 (upd_ins g s) = fl0 s" "fl1 (upd_ins g s) = fl1 s"
  "fl2 (upd_ins g s) = fl2 s" "idma_addr (upd_ins g s) = idma_addr s"
  "idma_cache (upd_ins g s) = idma_cache s" "idma_offs (upd_ins g s) = idma_offs s"
  "idma_pending_write (upd_ins g s) = idma_pending_write s"
  "idma_boot_hold (upd_ins g s) = idma_boot_hold s"
  "idma_boot_mode (upd_ins g s) = idma_boot_mode s" "sport_rx (upd_ins g s) = sport_rx s"
  "sport_tx (upd_ins g s) = sport_tx s" "sport_tx_written (upd_ins g s) = sport_tx_written s"
  "imask (upd_ins g s) = imask s" "icntl (upd_ins g s) = icntl s" "ifc (upd_ins g s) = ifc s"
  "pmovlay (upd_ins g s) = pmovlay s" "dmovlay (upd_ins g s) = dmovlay s"
  "irq_state (upd_ins g s) = irq_state s" "irq_latch (upd_ins g s) = irq_latch s"
  "interrupts_enabled (upd_ins g s) = interrupts_enabled s" "icount (upd_ins g s) = icount s"
  "chip_type (upd_ins g s) = chip_type s" "mstat_mask (upd_ins g s) = mstat_mask s"
  "imask_mask (upd_ins g s) = imask_mask s"
  "sport_rx_callback (upd_ins g s) = sport_rx_callback s"
  "sport_tx_callback (upd_ins g s) = sport_tx_callback s"
  "timer_fired (upd_ins g s) = timer_fired s" "program (upd_ins g s) = program s"
  "data (upd_ins g s) = data s" "program_overlay (upd_ins g s) = program_overlay s"
  "data_overlay (upd_ins g s) = data_overlay s" "io (upd_ins g s) = io s"
  "out (upd_ins g s) = out s"
  by (simp_all add: upd_ins_def)

lemma upd_core_frame [simp]:
  "alt (upd_core g s) = alt s" "dag_i (upd_core g s) = dag_i s" "dag_m (upd_core g s) = dag_m s"
  "dag_l (upd_core g s) = dag_l s" "dag_lmask (upd_core g s) = dag_lmask s"
  "dag_base (upd_core g s) = dag_base s" "px (upd_core g s) = px s" "pc (upd_core g s) = pc s"
  "ppc (upd_core g s) = ppc s" "loop_end (upd_core g s) = loop_end s"
  "loop_condition (upd_core g s) = loop_condition s" "cntr (upd_core g s) = cntr s"
  "cntr_valid (upd_core g s) = cntr_valid s" "astat (upd_core g s) = astat s"
  "sstat (upd_core g s) = sstat s" "mstat (upd_core g s) = mstat s"
  "mstat_prev (upd_core g s) = mstat_prev s" "astat_clear (upd_core g s) = astat_clear s"
  "idle (upd_core g s) = idle s" "loop_stack (upd_core g s) = loop_stack s"
  "cntr_stack (upd_core g s) = cntr_stack s" "pc_stack (upd_core g s) = pc_stack s"
  "stat_stack (upd_core g s) = stat_stack s" "pc_sp (upd_core g s) = pc_sp s"
  "cntr_sp (upd_core g s) = cntr_sp s" "stat_sp (upd_core g s) = stat_sp s"
  "loop_sp (upd_core g s) = loop_sp s" "inject_pc_sp (upd_core g s) = inject_pc_sp s"
  "inject_cntr_sp (upd_core g s) = inject_cntr_sp s"
  "inject_stat_sp (upd_core g s) = inject_stat_sp s"
  "inject_loop_sp (upd_core g s) = inject_loop_sp s"
  "inject_return (upd_core g s) = inject_return s" "inject_valid (upd_core g s) = inject_valid s"
  "stack_over_warned (upd_core g s) = stack_over_warned s" "flagout (upd_core g s) = flagout s"
  "flagin (upd_core g s) = flagin s" "fl0 (upd_core g s) = fl0 s" "fl1 (upd_core g s) = fl1 s"
  "fl2 (upd_core g s) = fl2 s" "idma_addr (upd_core g s) = idma_addr s"
  "idma_cache (upd_core g s) = idma_cache s" "idma_offs (upd_core g s) = idma_offs s"
  "idma_pending_write (upd_core g s) = idma_pending_write s"
  "idma_boot_hold (upd_core g s) = idma_boot_hold s"
  "idma_boot_mode (upd_core g s) = idma_boot_mode s" "sport_rx (upd_core g s) = sport_rx s"
  "sport_tx (upd_core g s) = sport_tx s" "sport_tx_written (upd_core g s) = sport_tx_written s"
  "imask (upd_core g s) = imask s" "icntl (upd_core g s) = icntl s" "ifc (upd_core g s) = ifc s"
  "pmovlay (upd_core g s) = pmovlay s" "dmovlay (upd_core g s) = dmovlay s"
  "irq_state (upd_core g s) = irq_state s" "irq_latch (upd_core g s) = irq_latch s"
  "interrupts_enabled (upd_core g s) = interrupts_enabled s" "icount (upd_core g s) = icount s"
  "chip_type (upd_core g s) = chip_type s" "mstat_mask (upd_core g s) = mstat_mask s"
  "imask_mask (upd_core g s) = imask_mask s"
  "sport_rx_callback (upd_core g s) = sport_rx_callback s"
  "sport_tx_callback (upd_core g s) = sport_tx_callback s"
  "timer_fired (upd_core g s) = timer_fired s" "program (upd_core g s) = program s"
  "data (upd_core g s) = data s" "program_overlay (upd_core g s) = program_overlay s"
  "data_overlay (upd_core g s) = data_overlay s" "io (upd_core g s) = io s"
  "ins (upd_core g s) = ins s" "out (upd_core g s) = out s"
  by (simp_all add: upd_core_def)

lemma upd_apply [simp]:
  "out (emit e s) = e # out s" "ins (upd_ins g s) = g (ins s)" "core (upd_core h s) = h (core s)"
  by (simp_all add: machine_upd_defs)

section \<open>The 16-bit views of MR and SR\<close>

lemma put16_mask:
  "put16 k v w = (w AND NOT (push_bit k (mask 16))) OR push_bit k (ucast v)"
  by (simp add: put16_def mask_numeral)

lemma set_mr_views [simp]:
  "mr0 (set_mr0 v c) = v" "mr1 (set_mr0 v c) = mr1 c" "mr2 (set_mr0 v c) = mr2 c"
  "mr0 (set_mr1 v c) = mr0 c" "mr1 (set_mr1 v c) = v" "mr2 (set_mr1 v c) = mr2 c"
  "mr0 (set_mr2 v c) = mr0 c" "mr1 (set_mr2 v c) = mr1 c" "mr2 (set_mr2 v c) = v"
  by (rule bit_word_eqI,
      auto simp: mr0_def mr1_def mr2_def set_mr0_def set_mr1_def set_mr2_def put16_mask bit_simps dest: bit_imp_le_length)+

lemma set_sr_views [simp]:
  "sr0 (set_sr0 v c) = v" "sr1 (set_sr0 v c) = sr1 c"
  "sr0 (set_sr1 v c) = sr0 c" "sr1 (set_sr1 v c) = v"
  by (rule bit_word_eqI,
      auto simp: sr0_def sr1_def set_sr0_def set_sr1_def put16_mask bit_simps dest: bit_imp_le_length)+

end
