(* ===== verification/Memory.thy ===== *)
theory Memory
  imports Machine
begin

text \<open>
  Data, program and I/O memory of the core: \<^verbatim>\<open>RWORD_DATA\<close>, \<^verbatim>\<open>WWORD_DATA\<close>, \<^verbatim>\<open>RWORD_PGM\<close>,
  \<^verbatim>\<open>WWORD_PGM\<close>, \<^verbatim>\<open>RWORD_IO\<close>, \<^verbatim>\<open>WWORD_IO\<close> with overlays, pins, forced fetches, the transmit
  latch, stop-on-publish, the write census and the access watches.  The locale \<open>held_store\<close>
  states what a client may rely on (a store is read back unless the word is pinned, other
  words keep their value); it is interpreted for data and for program memory.
\<close>

section \<open>Data memory\<close>

text \<open>Spending one event of a limited data-memory watch.  The C function always returns 1.\<close>

definition watch_dm_charge :: "adsp2181 \<Rightarrow> u32 \<Rightarrow> adsp2181" where
  "watch_dm_charge s x = upd_ins (\<lambda>n.
     if watch_dm_left n x \<noteq> 0 then
       (let left = watch_dm_left n x - 1 in
        n\<lparr>watch_dm_left := (watch_dm_left n)(x := left),
          watch_dm := (if left = 0 then (watch_dm n)(x := False) else watch_dm n)\<rparr>)
     else n) s"

text \<open>The overlay selection both directions share: low 8K words, overlay page 1 or 2.\<close>

definition dm_overlaid :: "adsp2181 \<Rightarrow> u32 \<Rightarrow> bool" where
  "dm_overlaid s x \<longleftrightarrow> x < 0x2000 \<and> dmovlay s \<ge> 1 \<and> dmovlay s \<le> 2"

definition dm_cell :: "adsp2181 \<Rightarrow> u32 \<Rightarrow> u16" where
  "dm_cell s x = (if dm_overlaid s x then data_overlay s (unat (dmovlay s - 1)) x else data s x)"

definition RWORD_DATA :: "adsp2181 \<Rightarrow> u32 \<Rightarrow> u16 \<times> adsp2181" where
  "RWORD_DATA s x0 =
     (let x = x0 AND 0x3fff; v = dm_cell s x in
      if watch_gate (ins s) \<and> watch_dm (ins s) x \<and> \<not> watch_dm_wonly (ins s) x
      then (v, emit (Log_dm_r x v) (watch_dm_charge s x)) else (v, s))"

text \<open>The five stages of \<^verbatim>\<open>WWORD_DATA\<close> before the store, in source order.\<close>

definition dm_apply_pin :: "adsp2181 \<Rightarrow> u32 \<Rightarrow> u16 \<Rightarrow> u16 \<times> adsp2181" where
  "dm_apply_pin s x v =
     (if pin_dm (ins s) x then
        (pin_dm_value (ins s) x,
         if v \<noteq> pin_dm_value (ins s) x \<and> pin_dm_hits (ins s) x < 8
         then emit (Log_pin_dm x v)
                (upd_ins (\<lambda>n. n\<lparr>pin_dm_hits := (pin_dm_hits n)(x := pin_dm_hits n x + 1)\<rparr>) s)
         else s)
      else (v, s))"

definition dm_latch :: "adsp2181 \<Rightarrow> u32 \<Rightarrow> u16 \<Rightarrow> adsp2181" where
  "dm_latch s x v =
     (if latch_dm_armed (ins s) \<and> x = ucast (latch_dm_addr (ins s)) then
        upd_ins (\<lambda>n. (if latch_dm_have n then n
                       else n\<lparr>latch_dm_value := v, latch_dm_have := True\<rparr>)
                      \<lparr>latch_dm_count := latch_dm_count n + 1\<rparr>) s
      else s)"

definition dm_stop :: "adsp2181 \<Rightarrow> u32 \<Rightarrow> adsp2181" where
  "dm_stop s x =
     (if stop_dm_armed (ins s) \<and> x = ucast (stop_dm_addr (ins s)) then
        if stop_dm_left (ins s) > 1
        then upd_ins (\<lambda>n. n\<lparr>stop_dm_left := stop_dm_left n - 1\<rparr>) s
        else (upd_ins (\<lambda>n. n\<lparr>stop_dm_hit := True\<rparr>) s)\<lparr>icount := 0\<rparr>
      else s)"

definition dm_count_write :: "adsp2181 \<Rightarrow> u32 \<Rightarrow> adsp2181" where
  "dm_count_write s x =
     (if dm_census_on (ins s)
      then upd_ins (\<lambda>n. n\<lparr>dm_census := (dm_census n)(x := dm_census n x + 1)\<rparr>) s else s)"

definition dm_watch_write :: "adsp2181 \<Rightarrow> u32 \<Rightarrow> u16 \<Rightarrow> adsp2181" where
  "dm_watch_write s x v =
     (if watch_gate (ins s) \<and> watch_dm (ins s) x
      then emit (Log_dm_w x v) (watch_dm_charge s x) else s)"

definition dm_put :: "adsp2181 \<Rightarrow> u32 \<Rightarrow> u16 \<Rightarrow> adsp2181" where
  "dm_put s x v =
     (if dm_overlaid s x then
        s\<lparr>data_overlay := (data_overlay s)(unat (dmovlay s - 1) :=
             (data_overlay s (unat (dmovlay s - 1)))(x := v))\<rparr>
      else s\<lparr>data := (data s)(x := v)\<rparr>)"

definition WWORD_DATA :: "adsp2181 \<Rightarrow> u32 \<Rightarrow> u16 \<Rightarrow> adsp2181" where
  "WWORD_DATA s x0 v0 =
     (let x = x0 AND 0x3fff;
          (v, s1) = dm_apply_pin s x v0;
          s2 = dm_latch s1 x v;
          s3 = dm_stop s2 x;
          s4 = dm_count_write s3 x;
          s5 = dm_watch_write s4 x v
      in dm_put s5 x v)"

section \<open>I/O space\<close>

definition RWORD_IO :: "adsp2181 \<Rightarrow> u32 \<Rightarrow> u16" where
  "RWORD_IO s x = io s (x AND 0x7ff)"

definition WWORD_IO :: "adsp2181 \<Rightarrow> u32 \<Rightarrow> u16 \<Rightarrow> adsp2181" where
  "WWORD_IO s x v = s\<lparr>io := (io s)(x AND 0x7ff := v)\<rparr>"

section \<open>Program memory\<close>

definition pm_overlaid :: "adsp2181 \<Rightarrow> u32 \<Rightarrow> bool" where
  "pm_overlaid s x \<longleftrightarrow> x \<ge> 0x2000 \<and> pmovlay s \<ge> 1 \<and> pmovlay s \<le> 2"

definition pm_cell :: "adsp2181 \<Rightarrow> u32 \<Rightarrow> u32" where
  "pm_cell s x =
     (if pm_overlaid s x
      then program_overlay s (unat (pmovlay s - 1)) (x - 0x2000) AND 0xffffff
      else program s x AND 0xffffff)"

definition RWORD_PGM :: "adsp2181 \<Rightarrow> u32 \<Rightarrow> u32" where
  "RWORD_PGM s x0 =
     (let x = x0 AND 0x3fff in
      if force_pm_fetch (ins s) x then force_pm_fetch_value (ins s) x AND 0xffffff
      else pm_cell s x)"

definition pm_watch_write :: "adsp2181 \<Rightarrow> u32 \<Rightarrow> u32 \<Rightarrow> adsp2181" where
  "pm_watch_write s x v =
     (if watch_gate (ins s) \<and> watch_pm (ins s) x \<and> pm_cell s x \<noteq> v AND 0xffffff
      then emit (Log_pm_w x (v AND 0xffffff) (pm_cell s x)) s else s)"

definition pm_apply_pin :: "adsp2181 \<Rightarrow> u32 \<Rightarrow> u32 \<Rightarrow> u32 \<times> adsp2181" where
  "pm_apply_pin s x v =
     (if pin_pm (ins s) x then
        (let pinned = pin_pm_value (ins s) x AND 0xffffff in
         (pinned,
          if v AND 0xffffff \<noteq> pinned \<and> pin_pm_hits (ins s) x < 8
          then emit (Log_pin_pm x (v AND 0xffffff))
                 (upd_ins (\<lambda>n. n\<lparr>pin_pm_hits := (pin_pm_hits n)(x := pin_pm_hits n x + 1)\<rparr>) s)
          else s))
      else (v, s))"

definition pm_put :: "adsp2181 \<Rightarrow> u32 \<Rightarrow> u32 \<Rightarrow> adsp2181" where
  "pm_put s x v =
     (if pm_overlaid s x then
        s\<lparr>program_overlay := (program_overlay s)(unat (pmovlay s - 1) :=
             (program_overlay s (unat (pmovlay s - 1)))(x - 0x2000 := v AND 0xffffff))\<rparr>
      else s\<lparr>program := (program s)(x := v AND 0xffffff)\<rparr>)"

definition WWORD_PGM :: "adsp2181 \<Rightarrow> u32 \<Rightarrow> u32 \<Rightarrow> adsp2181" where
  "WWORD_PGM s x0 v0 =
     (let x = x0 AND 0x3fff;
          s1 = pm_watch_write s x v0;
          (v, s2) = pm_apply_pin s1 x v0
      in pm_put s2 x v)"

lemmas dm_defs = RWORD_DATA_def WWORD_DATA_def dm_apply_pin_def dm_latch_def dm_stop_def
  dm_count_write_def dm_watch_write_def dm_put_def watch_dm_charge_def dm_overlaid_def
  machine_upd_defs Let_def
lemmas pm_defs = WWORD_PGM_def pm_watch_write_def pm_apply_pin_def pm_put_def pm_overlaid_def
  machine_upd_defs Let_def

section \<open>The contract of a store whose words can be held\<close>

text \<open>
  \<open>canon\<close> maps an address to the word it selects (both memories ignore the address bits above
  bit 13), \<open>cut\<close> is the width of a word, and \<open>held s x\<close> is the value a pin or a forced fetch
  imposes on the word.
\<close>

locale held_store =
  fixes rd :: "'s \<Rightarrow> 'a \<Rightarrow> 'v"
    and wr :: "'s \<Rightarrow> 'a \<Rightarrow> 'v \<Rightarrow> 's"
    and held :: "'s \<Rightarrow> 'a \<Rightarrow> 'v option"
    and canon :: "'a \<Rightarrow> 'a"
    and cut :: "'v \<Rightarrow> 'v"
  assumes rd_wr_same: "canon x = canon y \<Longrightarrow>
      rd (wr s x v) y = (case held s y of None \<Rightarrow> cut v | Some p \<Rightarrow> p)"
    and rd_wr_other: "canon x \<noteq> canon y \<Longrightarrow> rd (wr s x v) y = rd s y"
    and held_wr: "held (wr s x v) y = held s y"
begin

definition wr_all :: "('a \<times> 'v) list \<Rightarrow> 's \<Rightarrow> 's" where
  "wr_all ws s = fold (\<lambda>(x, v) t. wr t x v) ws s"

lemma wr_all_simps [simp]:
  "wr_all [] s = s" "wr_all ((x, v) # ws) s = wr_all ws (wr s x v)"
  by (simp_all add: wr_all_def)

lemma held_wr_all: "held (wr_all ws s) y = held s y"
  by (induction ws arbitrary: s) (auto simp: held_wr)

lemma rd_wr_all_other: "canon y \<notin> (canon \<circ> fst) ` set ws \<Longrightarrow> rd (wr_all ws s) y = rd s y"
  by (induction ws arbitrary: s) (auto simp: rd_wr_other)

text \<open>A block of stores to different words is read back word for word.\<close>

lemma rd_wr_all:
  assumes "distinct (map (canon \<circ> fst) ws)" "(x, v) \<in> set ws"
  shows "rd (wr_all ws s) x = (case held s x of None \<Rightarrow> cut v | Some p \<Rightarrow> p)"
  using assms
proof (induction ws arbitrary: s)
  case (Cons w ws)
  obtain y u where w: "w = (y, u)" by (cases w)
  show ?case
  proof (cases "(x, v) = (y, u)")
    case True
    with Cons.prems(1) w have "canon x \<notin> (canon \<circ> fst) ` set ws" by auto
    with True w show ?thesis by (auto simp: rd_wr_all_other rd_wr_same)
  next
    case False
    with Cons w show ?thesis by (auto simp: held_wr)
  qed
qed simp

text \<open>A held word keeps its value through any sequence of stores.\<close>

lemma rd_held: "held s x = Some p \<Longrightarrow> rd s x = p \<Longrightarrow> rd (wr_all ws s) x = p"
proof (induction ws arbitrary: s)
  case (Cons w ws)
  obtain y u where w: "w = (y, u)" by (cases w)
  have "rd (wr s y u) x = p"
    using Cons.prems by (cases "canon y = canon x") (auto simp: rd_wr_same rd_wr_other)
  with Cons w show ?case by (simp add: held_wr)
qed simp

text \<open>Stores to different words can be exchanged, as far as reads can tell.\<close>

lemma wr_commute:
  "canon x \<noteq> canon y \<Longrightarrow> rd (wr (wr s x v) y u) z = rd (wr (wr s y u) x v) z"
  by (cases "canon x = canon z"; cases "canon y = canon z")
     (auto simp: rd_wr_same rd_wr_other held_wr)

end

definition dm_held :: "adsp2181 \<Rightarrow> u32 \<Rightarrow> u16 option" where
  "dm_held s x = (if pin_dm (ins s) (x AND 0x3fff) then Some (pin_dm_value (ins s) (x AND 0x3fff))
     else None)"

definition pm_held :: "adsp2181 \<Rightarrow> u32 \<Rightarrow> u32 option" where
  "pm_held s x =
     (if force_pm_fetch (ins s) (x AND 0x3fff)
      then Some (force_pm_fetch_value (ins s) (x AND 0x3fff) AND 0xffffff)
      else if pin_pm (ins s) (x AND 0x3fff) then Some (pin_pm_value (ins s) (x AND 0x3fff) AND 0xffffff)
      else None)"

lemma watch_dm_charge_holds [simp]:
  "pin_dm (ins (watch_dm_charge s x)) = pin_dm (ins s)"
  "pin_dm_value (ins (watch_dm_charge s x)) = pin_dm_value (ins s)"
  by (simp_all add: watch_dm_charge_def Let_def)

text \<open>
  What the accesses may touch.  The stages are summarised as record updates of the state they
  start from; the field equations of the three accesses follow.
\<close>

lemma RWORD_DATA_update:
  "snd (RWORD_DATA s x) = s\<lparr>ins := ins (snd (RWORD_DATA s x)), out := out (snd (RWORD_DATA s x))\<rparr>"
  by (simp add: RWORD_DATA_def Let_def watch_dm_charge_def emit_def upd_ins_def)

lemma dm_stage_updates:
  "snd (dm_apply_pin s x v) =
     s\<lparr>ins := ins (snd (dm_apply_pin s x v)), out := out (snd (dm_apply_pin s x v))\<rparr>"
  "dm_latch s x v = s\<lparr>ins := ins (dm_latch s x v)\<rparr>"
  "dm_stop s x = s\<lparr>ins := ins (dm_stop s x), icount := icount (dm_stop s x)\<rparr>"
  "dm_count_write s x = s\<lparr>ins := ins (dm_count_write s x)\<rparr>"
  "dm_watch_write s x v = s\<lparr>ins := ins (dm_watch_write s x v), out := out (dm_watch_write s x v)\<rparr>"
  "dm_put s x v = s\<lparr>data := data (dm_put s x v), data_overlay := data_overlay (dm_put s x v)\<rparr>"
  "icount (dm_stop s x) \<in> {icount s, 0}"
  by (simp_all add: dm_apply_pin_def dm_latch_def dm_stop_def dm_count_write_def dm_watch_write_def
      watch_dm_charge_def dm_put_def emit_def upd_ins_def)

lemma WWORD_DATA_update:
  "\<exists>n e k d w. WWORD_DATA s x v = s\<lparr>ins := n, out := e, icount := k, data := d, data_overlay := w\<rparr>
     \<and> k \<in> {icount s, 0}"
proof -
  define a where "a = x AND 0x3fff"
  define u where "u = fst (dm_apply_pin s a v)"
  define s1 where "s1 = snd (dm_apply_pin s a v)"
  define s2 where "s2 = dm_latch s1 a u"
  define s3 where "s3 = dm_stop s2 a"
  define s4 where "s4 = dm_count_write s3 a"
  define s5 where "s5 = dm_watch_write s4 a u"
  have "WWORD_DATA s x v = dm_put s5 a u"
    by (simp add: WWORD_DATA_def Let_def case_prod_beta a_def u_def s1_def s2_def s3_def s4_def s5_def)
  also obtain d w where "dm_put s5 a u = s5\<lparr>data := d, data_overlay := w\<rparr>"
    using dm_stage_updates(6) by blast
  also obtain n5 e5 where "s5 = s4\<lparr>ins := n5, out := e5\<rparr>"
    unfolding s5_def using dm_stage_updates(5) by blast
  also obtain n4 where "s4 = s3\<lparr>ins := n4\<rparr>" unfolding s4_def using dm_stage_updates(4) by blast
  also obtain n3 k where 3: "s3 = s2\<lparr>ins := n3, icount := k\<rparr>" and k: "k \<in> {icount s2, 0}"
    unfolding s3_def using dm_stage_updates(3,7) by blast
  note 3
  also obtain n2 where 2: "s2 = s1\<lparr>ins := n2\<rparr>" unfolding s2_def using dm_stage_updates(2) by blast
  note 2
  also obtain n1 e1 where 1: "s1 = s\<lparr>ins := n1, out := e1\<rparr>"
    unfolding s1_def using dm_stage_updates(1) by blast
  note 1
  finally have "WWORD_DATA s x v =
      s\<lparr>ins := n5, out := e5, icount := k, data := d, data_overlay := w\<rparr>" by simp
  moreover have "k \<in> {icount s, 0}" using k 1 2 by simp
  ultimately show ?thesis by blast
qed

lemma pm_stage_updates:
  "pm_watch_write s x v = s\<lparr>out := out (pm_watch_write s x v)\<rparr>"
  "snd (pm_apply_pin s x v) =
     s\<lparr>ins := ins (snd (pm_apply_pin s x v)), out := out (snd (pm_apply_pin s x v))\<rparr>"
  "pm_put s x v = s\<lparr>program := program (pm_put s x v), program_overlay := program_overlay (pm_put s x v)\<rparr>"
  by (simp_all add: pm_watch_write_def pm_apply_pin_def pm_put_def emit_def upd_ins_def Let_def)

lemma WWORD_PGM_update:
  "\<exists>n e p w. WWORD_PGM s x v = s\<lparr>ins := n, out := e, program := p, program_overlay := w\<rparr>"
proof -
  define a where "a = x AND 0x3fff"
  define s1 where "s1 = pm_watch_write s a v"
  define u where "u = fst (pm_apply_pin s1 a v)"
  define s2 where "s2 = snd (pm_apply_pin s1 a v)"
  have "WWORD_PGM s x v = pm_put s2 a u"
    by (simp add: WWORD_PGM_def Let_def case_prod_beta a_def u_def s1_def s2_def)
  also obtain p w where "pm_put s2 a u = s2\<lparr>program := p, program_overlay := w\<rparr>"
    using pm_stage_updates(3) by blast
  also obtain n2 e2 where "s2 = s1\<lparr>ins := n2, out := e2\<rparr>"
    unfolding s2_def using pm_stage_updates(2) by blast
  also obtain e1 where "s1 = s\<lparr>out := e1\<rparr>" unfolding s1_def using pm_stage_updates(1) by blast
  finally have "WWORD_PGM s x v = s\<lparr>ins := n2, out := e2, program := p, program_overlay := w\<rparr>"
    by simp
  then show ?thesis by blast
qed

lemma RWORD_DATA_frame [simp]:
  "core (snd (RWORD_DATA s x)) = core s" "alt (snd (RWORD_DATA s x)) = alt s"
  "dag_i (snd (RWORD_DATA s x)) = dag_i s" "dag_m (snd (RWORD_DATA s x)) = dag_m s"
  "dag_l (snd (RWORD_DATA s x)) = dag_l s" "dag_lmask (snd (RWORD_DATA s x)) = dag_lmask s"
  "dag_base (snd (RWORD_DATA s x)) = dag_base s" "px (snd (RWORD_DATA s x)) = px s"
  "pc (snd (RWORD_DATA s x)) = pc s" "ppc (snd (RWORD_DATA s x)) = ppc s"
  "loop_end (snd (RWORD_DATA s x)) = loop_end s"
  "loop_condition (snd (RWORD_DATA s x)) = loop_condition s"
  "cntr (snd (RWORD_DATA s x)) = cntr s" "cntr_valid (snd (RWORD_DATA s x)) = cntr_valid s"
  "astat (snd (RWORD_DATA s x)) = astat s" "sstat (snd (RWORD_DATA s x)) = sstat s"
  "mstat (snd (RWORD_DATA s x)) = mstat s" "mstat_prev (snd (RWORD_DATA s x)) = mstat_prev s"
  "astat_clear (snd (RWORD_DATA s x)) = astat_clear s" "idle (snd (RWORD_DATA s x)) = idle s"
  "loop_stack (snd (RWORD_DATA s x)) = loop_stack s"
  "cntr_stack (snd (RWORD_DATA s x)) = cntr_stack s"
  "pc_stack (snd (RWORD_DATA s x)) = pc_stack s"
  "stat_stack (snd (RWORD_DATA s x)) = stat_stack s" "pc_sp (snd (RWORD_DATA s x)) = pc_sp s"
  "cntr_sp (snd (RWORD_DATA s x)) = cntr_sp s" "stat_sp (snd (RWORD_DATA s x)) = stat_sp s"
  "loop_sp (snd (RWORD_DATA s x)) = loop_sp s"
  "inject_pc_sp (snd (RWORD_DATA s x)) = inject_pc_sp s"
  "inject_cntr_sp (snd (RWORD_DATA s x)) = inject_cntr_sp s"
  "inject_stat_sp (snd (RWORD_DATA s x)) = inject_stat_sp s"
  "inject_loop_sp (snd (RWORD_DATA s x)) = inject_loop_sp s"
  "inject_return (snd (RWORD_DATA s x)) = inject_return s"
  "inject_valid (snd (RWORD_DATA s x)) = inject_valid s"
  "stack_over_warned (snd (RWORD_DATA s x)) = stack_over_warned s"
  "flagout (snd (RWORD_DATA s x)) = flagout s" "flagin (snd (RWORD_DATA s x)) = flagin s"
  "fl0 (snd (RWORD_DATA s x)) = fl0 s" "fl1 (snd (RWORD_DATA s x)) = fl1 s"
  "fl2 (snd (RWORD_DATA s x)) = fl2 s" "idma_addr (snd (RWORD_DATA s x)) = idma_addr s"
  "idma_cache (snd (RWORD_DATA s x)) = idma_cache s"
  "idma_offs (snd (RWORD_DATA s x)) = idma_offs s"
  "idma_pending_write (snd (RWORD_DATA s x)) = idma_pending_write s"
  "idma_boot_hold (snd (RWORD_DATA s x)) = idma_boot_hold s"
  "idma_boot_mode (snd (RWORD_DATA s x)) = idma_boot_mode s"
  "sport_rx (snd (RWORD_DATA s x)) = sport_rx s" "sport_tx (snd (RWORD_DATA s x)) = sport_tx s"
  "sport_tx_written (snd (RWORD_DATA s x)) = sport_tx_written s"
  "imask (snd (RWORD_DATA s x)) = imask s" "icntl (snd (RWORD_DATA s x)) = icntl s"
  "ifc (snd (RWORD_DATA s x)) = ifc s" "pmovlay (snd (RWORD_DATA s x)) = pmovlay s"
  "dmovlay (snd (RWORD_DATA s x)) = dmovlay s" "irq_state (snd (RWORD_DATA s x)) = irq_state s"
  "irq_latch (snd (RWORD_DATA s x)) = irq_latch s"
  "interrupts_enabled (snd (RWORD_DATA s x)) = interrupts_enabled s"
  "icount (snd (RWORD_DATA s x)) = icount s" "chip_type (snd (RWORD_DATA s x)) = chip_type s"
  "mstat_mask (snd (RWORD_DATA s x)) = mstat_mask s"
  "imask_mask (snd (RWORD_DATA s x)) = imask_mask s"
  "sport_rx_callback (snd (RWORD_DATA s x)) = sport_rx_callback s"
  "sport_tx_callback (snd (RWORD_DATA s x)) = sport_tx_callback s"
  "timer_fired (snd (RWORD_DATA s x)) = timer_fired s"
  "program (snd (RWORD_DATA s x)) = program s" "data (snd (RWORD_DATA s x)) = data s"
  "program_overlay (snd (RWORD_DATA s x)) = program_overlay s"
  "data_overlay (snd (RWORD_DATA s x)) = data_overlay s" "io (snd (RWORD_DATA s x)) = io s"
  by (subst RWORD_DATA_update, simp)+

lemma WWORD_DATA_frame [simp]:
  "core (WWORD_DATA s x v) = core s" "alt (WWORD_DATA s x v) = alt s"
  "dag_i (WWORD_DATA s x v) = dag_i s" "dag_m (WWORD_DATA s x v) = dag_m s"
  "dag_l (WWORD_DATA s x v) = dag_l s" "dag_lmask (WWORD_DATA s x v) = dag_lmask s"
  "dag_base (WWORD_DATA s x v) = dag_base s" "px (WWORD_DATA s x v) = px s"
  "pc (WWORD_DATA s x v) = pc s" "ppc (WWORD_DATA s x v) = ppc s"
  "loop_end (WWORD_DATA s x v) = loop_end s"
  "loop_condition (WWORD_DATA s x v) = loop_condition s" "cntr (WWORD_DATA s x v) = cntr s"
  "cntr_valid (WWORD_DATA s x v) = cntr_valid s" "astat (WWORD_DATA s x v) = astat s"
  "sstat (WWORD_DATA s x v) = sstat s" "mstat (WWORD_DATA s x v) = mstat s"
  "mstat_prev (WWORD_DATA s x v) = mstat_prev s" "astat_clear (WWORD_DATA s x v) = astat_clear s"
  "idle (WWORD_DATA s x v) = idle s" "loop_stack (WWORD_DATA s x v) = loop_stack s"
  "cntr_stack (WWORD_DATA s x v) = cntr_stack s" "pc_stack (WWORD_DATA s x v) = pc_stack s"
  "stat_stack (WWORD_DATA s x v) = stat_stack s" "pc_sp (WWORD_DATA s x v) = pc_sp s"
  "cntr_sp (WWORD_DATA s x v) = cntr_sp s" "stat_sp (WWORD_DATA s x v) = stat_sp s"
  "loop_sp (WWORD_DATA s x v) = loop_sp s" "inject_pc_sp (WWORD_DATA s x v) = inject_pc_sp s"
  "inject_cntr_sp (WWORD_DATA s x v) = inject_cntr_sp s"
  "inject_stat_sp (WWORD_DATA s x v) = inject_stat_sp s"
  "inject_loop_sp (WWORD_DATA s x v) = inject_loop_sp s"
  "inject_return (WWORD_DATA s x v) = inject_return s"
  "inject_valid (WWORD_DATA s x v) = inject_valid s"
  "stack_over_warned (WWORD_DATA s x v) = stack_over_warned s"
  "flagout (WWORD_DATA s x v) = flagout s" "flagin (WWORD_DATA s x v) = flagin s"
  "fl0 (WWORD_DATA s x v) = fl0 s" "fl1 (WWORD_DATA s x v) = fl1 s"
  "fl2 (WWORD_DATA s x v) = fl2 s" "idma_addr (WWORD_DATA s x v) = idma_addr s"
  "idma_cache (WWORD_DATA s x v) = idma_cache s" "idma_offs (WWORD_DATA s x v) = idma_offs s"
  "idma_pending_write (WWORD_DATA s x v) = idma_pending_write s"
  "idma_boot_hold (WWORD_DATA s x v) = idma_boot_hold s"
  "idma_boot_mode (WWORD_DATA s x v) = idma_boot_mode s"
  "sport_rx (WWORD_DATA s x v) = sport_rx s" "sport_tx (WWORD_DATA s x v) = sport_tx s"
  "sport_tx_written (WWORD_DATA s x v) = sport_tx_written s" "imask (WWORD_DATA s x v) = imask s"
  "icntl (WWORD_DATA s x v) = icntl s" "ifc (WWORD_DATA s x v) = ifc s"
  "pmovlay (WWORD_DATA s x v) = pmovlay s" "dmovlay (WWORD_DATA s x v) = dmovlay s"
  "irq_state (WWORD_DATA s x v) = irq_state s" "irq_latch (WWORD_DATA s x v) = irq_latch s"
  "interrupts_enabled (WWORD_DATA s x v) = interrupts_enabled s"
  "chip_type (WWORD_DATA s x v) = chip_type s" "mstat_mask (WWORD_DATA s x v) = mstat_mask s"
  "imask_mask (WWORD_DATA s x v) = imask_mask s"
  "sport_rx_callback (WWORD_DATA s x v) = sport_rx_callback s"
  "sport_tx_callback (WWORD_DATA s x v) = sport_tx_callback s"
  "timer_fired (WWORD_DATA s x v) = timer_fired s" "program (WWORD_DATA s x v) = program s"
  "program_overlay (WWORD_DATA s x v) = program_overlay s" "io (WWORD_DATA s x v) = io s"
  using WWORD_DATA_update [of s x v] by auto

lemma WWORD_PGM_frame [simp]:
  "core (WWORD_PGM s x v) = core s" "alt (WWORD_PGM s x v) = alt s"
  "dag_i (WWORD_PGM s x v) = dag_i s" "dag_m (WWORD_PGM s x v) = dag_m s"
  "dag_l (WWORD_PGM s x v) = dag_l s" "dag_lmask (WWORD_PGM s x v) = dag_lmask s"
  "dag_base (WWORD_PGM s x v) = dag_base s" "px (WWORD_PGM s x v) = px s"
  "pc (WWORD_PGM s x v) = pc s" "ppc (WWORD_PGM s x v) = ppc s"
  "loop_end (WWORD_PGM s x v) = loop_end s" "loop_condition (WWORD_PGM s x v) = loop_condition s"
  "cntr (WWORD_PGM s x v) = cntr s" "cntr_valid (WWORD_PGM s x v) = cntr_valid s"
  "astat (WWORD_PGM s x v) = astat s" "sstat (WWORD_PGM s x v) = sstat s"
  "mstat (WWORD_PGM s x v) = mstat s" "mstat_prev (WWORD_PGM s x v) = mstat_prev s"
  "astat_clear (WWORD_PGM s x v) = astat_clear s" "idle (WWORD_PGM s x v) = idle s"
  "loop_stack (WWORD_PGM s x v) = loop_stack s" "cntr_stack (WWORD_PGM s x v) = cntr_stack s"
  "pc_stack (WWORD_PGM s x v) = pc_stack s" "stat_stack (WWORD_PGM s x v) = stat_stack s"
  "pc_sp (WWORD_PGM s x v) = pc_sp s" "cntr_sp (WWORD_PGM s x v) = cntr_sp s"
  "stat_sp (WWORD_PGM s x v) = stat_sp s" "loop_sp (WWORD_PGM s x v) = loop_sp s"
  "inject_pc_sp (WWORD_PGM s x v) = inject_pc_sp s"
  "inject_cntr_sp (WWORD_PGM s x v) = inject_cntr_sp s"
  "inject_stat_sp (WWORD_PGM s x v) = inject_stat_sp s"
  "inject_loop_sp (WWORD_PGM s x v) = inject_loop_sp s"
  "inject_return (WWORD_PGM s x v) = inject_return s"
  "inject_valid (WWORD_PGM s x v) = inject_valid s"
  "stack_over_warned (WWORD_PGM s x v) = stack_over_warned s"
  "flagout (WWORD_PGM s x v) = flagout s" "flagin (WWORD_PGM s x v) = flagin s"
  "fl0 (WWORD_PGM s x v) = fl0 s" "fl1 (WWORD_PGM s x v) = fl1 s" "fl2 (WWORD_PGM s x v) = fl2 s"
  "idma_addr (WWORD_PGM s x v) = idma_addr s" "idma_cache (WWORD_PGM s x v) = idma_cache s"
  "idma_offs (WWORD_PGM s x v) = idma_offs s"
  "idma_pending_write (WWORD_PGM s x v) = idma_pending_write s"
  "idma_boot_hold (WWORD_PGM s x v) = idma_boot_hold s"
  "idma_boot_mode (WWORD_PGM s x v) = idma_boot_mode s" "sport_rx (WWORD_PGM s x v) = sport_rx s"
  "sport_tx (WWORD_PGM s x v) = sport_tx s"
  "sport_tx_written (WWORD_PGM s x v) = sport_tx_written s" "imask (WWORD_PGM s x v) = imask s"
  "icntl (WWORD_PGM s x v) = icntl s" "ifc (WWORD_PGM s x v) = ifc s"
  "pmovlay (WWORD_PGM s x v) = pmovlay s" "dmovlay (WWORD_PGM s x v) = dmovlay s"
  "irq_state (WWORD_PGM s x v) = irq_state s" "irq_latch (WWORD_PGM s x v) = irq_latch s"
  "interrupts_enabled (WWORD_PGM s x v) = interrupts_enabled s"
  "icount (WWORD_PGM s x v) = icount s" "chip_type (WWORD_PGM s x v) = chip_type s"
  "mstat_mask (WWORD_PGM s x v) = mstat_mask s" "imask_mask (WWORD_PGM s x v) = imask_mask s"
  "sport_rx_callback (WWORD_PGM s x v) = sport_rx_callback s"
  "sport_tx_callback (WWORD_PGM s x v) = sport_tx_callback s"
  "timer_fired (WWORD_PGM s x v) = timer_fired s" "data (WWORD_PGM s x v) = data s"
  "data_overlay (WWORD_PGM s x v) = data_overlay s" "io (WWORD_PGM s x v) = io s"
  using WWORD_PGM_update [of s x v] by auto

lemma WWORD_DATA_icount: "icount (WWORD_DATA s x v) \<in> {icount s, 0}"
  using WWORD_DATA_update [of s x v] by auto

lemma RWORD_DATA_fst [simp]: "fst (RWORD_DATA s x) = dm_cell s (x AND 0x3fff)"
  by (simp add: RWORD_DATA_def Let_def)

lemma dm_cell_irrelevant [simp]:
  "dm_cell (s\<lparr>ins := n\<rparr>) = dm_cell s" "dm_cell (s\<lparr>out := e\<rparr>) = dm_cell s"
  "dm_cell (s\<lparr>icount := k\<rparr>) = dm_cell s"
  by (rule ext, simp add: dm_cell_def dm_overlaid_def)+

lemma dm_cell_stages:
  "dm_cell (snd (dm_apply_pin s x v)) = dm_cell s" "dm_cell (dm_latch s x v) = dm_cell s"
  "dm_cell (dm_stop s x) = dm_cell s" "dm_cell (dm_count_write s x) = dm_cell s"
  "dm_cell (dm_watch_write s x v) = dm_cell s"
  by (subst dm_stage_updates, simp)+

lemma dm_cell_put: "dm_cell (dm_put s x v) y = (if y = x then v else dm_cell s y)"
  by (auto simp: dm_cell_def dm_put_def dm_overlaid_def)

lemma dm_cell_WWORD_DATA:
  "dm_cell (WWORD_DATA s x v) y =
     (if y = x AND 0x3fff then fst (dm_apply_pin s (x AND 0x3fff) v) else dm_cell s y)"
  by (simp add: WWORD_DATA_def Let_def case_prod_beta dm_cell_put dm_cell_stages)

lemma pm_cell_irrelevant [simp]:
  "pm_cell (s\<lparr>ins := n\<rparr>) = pm_cell s" "pm_cell (s\<lparr>out := e\<rparr>) = pm_cell s"
  by (rule ext, simp add: pm_cell_def pm_overlaid_def)+

lemma pm_cell_stages:
  "pm_cell (snd (pm_apply_pin s x v)) = pm_cell s" "pm_cell (pm_watch_write s x v) = pm_cell s"
  by (simp_all add: pm_apply_pin_def pm_watch_write_def machine_upd_defs Let_def)

lemma pm_cell_put: "pm_cell (pm_put s x v) y = (if y = x then v AND 0xffffff else pm_cell s y)"
  by (auto simp: pm_cell_def pm_put_def pm_overlaid_def)

text \<open>No store changes what the instrumentation holds.\<close>

lemma dm_stages_hold [simp]:
  "ins (dm_put s x v) = ins s"
  "pin_dm (ins (snd (dm_apply_pin s x v))) = pin_dm (ins s)"
  "pin_dm_value (ins (snd (dm_apply_pin s x v))) = pin_dm_value (ins s)"
  "pin_dm (ins (dm_latch s x v)) = pin_dm (ins s)"
  "pin_dm_value (ins (dm_latch s x v)) = pin_dm_value (ins s)"
  "pin_dm (ins (dm_stop s x)) = pin_dm (ins s)"
  "pin_dm_value (ins (dm_stop s x)) = pin_dm_value (ins s)"
  "pin_dm (ins (dm_count_write s x)) = pin_dm (ins s)"
  "pin_dm_value (ins (dm_count_write s x)) = pin_dm_value (ins s)"
  "pin_dm (ins (dm_watch_write s x v)) = pin_dm (ins s)"
  "pin_dm_value (ins (dm_watch_write s x v)) = pin_dm_value (ins s)"
  by (simp_all add: dm_apply_pin_def dm_latch_def dm_stop_def dm_count_write_def dm_watch_write_def
      dm_put_def)

lemma WWORD_DATA_holds [simp]:
  "pin_dm (ins (WWORD_DATA s x v)) = pin_dm (ins s)"
  "pin_dm_value (ins (WWORD_DATA s x v)) = pin_dm_value (ins s)"
  by (simp_all add: WWORD_DATA_def Let_def case_prod_beta)

lemma pm_stages_hold [simp]:
  "ins (pm_put s x v) = ins s" "ins (pm_watch_write s x v) = ins s"
  "pin_pm (ins (snd (pm_apply_pin s x v))) = pin_pm (ins s)"
  "pin_pm_value (ins (snd (pm_apply_pin s x v))) = pin_pm_value (ins s)"
  "force_pm_fetch (ins (snd (pm_apply_pin s x v))) = force_pm_fetch (ins s)"
  "force_pm_fetch_value (ins (snd (pm_apply_pin s x v))) = force_pm_fetch_value (ins s)"
  "fst (pm_apply_pin (pm_watch_write s y u) x v) = fst (pm_apply_pin s x v)"
  by (simp_all add: pm_apply_pin_def pm_put_def pm_watch_write_def Let_def)

lemma WWORD_PGM_holds [simp]:
  "pin_pm (ins (WWORD_PGM s x v)) = pin_pm (ins s)"
  "pin_pm_value (ins (WWORD_PGM s x v)) = pin_pm_value (ins s)"
  "force_pm_fetch (ins (WWORD_PGM s x v)) = force_pm_fetch (ins s)"
  "force_pm_fetch_value (ins (WWORD_PGM s x v)) = force_pm_fetch_value (ins s)"
  by (simp_all add: WWORD_PGM_def Let_def case_prod_beta)

lemma pm_cell_WWORD_PGM:
  "pm_cell (WWORD_PGM s x v) y =
     (if y = x AND 0x3fff then fst (pm_apply_pin s (x AND 0x3fff) v) AND 0xffffff
      else pm_cell s y)"
  by (simp add: WWORD_PGM_def Let_def case_prod_beta pm_cell_put pm_cell_stages)

interpretation dm: held_store "\<lambda>s x. fst (RWORD_DATA s x)" WWORD_DATA dm_held
    "\<lambda>x. x AND 0x3fff" "\<lambda>v. v"
  by unfold_locales (auto simp: dm_cell_WWORD_DATA dm_held_def dm_apply_pin_def)

interpretation pm: held_store RWORD_PGM WWORD_PGM pm_held
    "\<lambda>x. x AND 0x3fff" "\<lambda>v. v AND 0xffffff"
  by unfold_locales
     (auto simp: RWORD_PGM_def Let_def pm_cell_WWORD_PGM pm_held_def pm_apply_pin_def)

end
