(* ===== verification/Sequencer.thy ===== *)
theory Sequencer
  imports Memory
begin

text \<open>
  The program sequencer of \<^verbatim>\<open>2100ops.inc\<close> and \<^verbatim>\<open>adsp2181_core.c\<close>: lookup tables, mode
  switching, the four hardware stacks with their SSTAT bits, interrupt arbitration and condition
  codes.  Each stack is shown to implement a bounded list that drops a push when it is full
  (locale \<open>saturating_stack\<close>, interpreted for all four).
\<close>

section \<open>Status bits\<close>

abbreviation (input) SSFLAG :: u32 where "SSFLAG \<equiv> 0x80"
abbreviation (input) MVFLAG :: u32 where "MVFLAG \<equiv> 0x40"
abbreviation (input) QFLAG :: u32 where "QFLAG \<equiv> 0x20"
abbreviation (input) SFLAG :: u32 where "SFLAG \<equiv> 0x10"
abbreviation (input) CFLAG :: u32 where "CFLAG \<equiv> 0x08"
abbreviation (input) VFLAG :: u32 where "VFLAG \<equiv> 0x04"
abbreviation (input) NFLAG :: u32 where "NFLAG \<equiv> 0x02"
abbreviation (input) ZFLAG :: u32 where "ZFLAG \<equiv> 0x01"

abbreviation (input) MSTAT_BANK :: u32 where "MSTAT_BANK \<equiv> 0x01"
abbreviation (input) MSTAT_REVERSE :: u32 where "MSTAT_REVERSE \<equiv> 0x02"
abbreviation (input) MSTAT_STICKYV :: u32 where "MSTAT_STICKYV \<equiv> 0x04"
abbreviation (input) MSTAT_SATURATE :: u32 where "MSTAT_SATURATE \<equiv> 0x08"
abbreviation (input) MSTAT_INTEGER :: u32 where "MSTAT_INTEGER \<equiv> 0x10"
abbreviation (input) MSTAT_TIMER :: u32 where "MSTAT_TIMER \<equiv> 0x20"
abbreviation (input) MSTAT_GOMODE :: u32 where "MSTAT_GOMODE \<equiv> 0x40"

abbreviation (input) PC_EMPTY :: u32 where "PC_EMPTY \<equiv> 0x01"
abbreviation (input) PC_OVER :: u32 where "PC_OVER \<equiv> 0x02"
abbreviation (input) COUNT_EMPTY :: u32 where "COUNT_EMPTY \<equiv> 0x04"
abbreviation (input) COUNT_OVER :: u32 where "COUNT_OVER \<equiv> 0x08"
abbreviation (input) STATUS_EMPTY :: u32 where "STATUS_EMPTY \<equiv> 0x10"
abbreviation (input) STATUS_OVER :: u32 where "STATUS_OVER \<equiv> 0x20"
abbreviation (input) LOOP_EMPTY :: u32 where "LOOP_EMPTY \<equiv> 0x40"
abbreviation (input) LOOP_OVER :: u32 where "LOOP_OVER \<equiv> 0x80"

section \<open>Lookup tables (\<open>create_tables\<close>)\<close>

definition reverse_table :: "u32 \<Rightarrow> u16" where
  "reverse_table i =
     fold (\<lambda>b r. r OR push_bit (13 - b) (ucast (drop_bit b i AND 1))) [0..<14] 0"

definition mask_table :: "u32 \<Rightarrow> u16" where
  "mask_table i =
     (if i > 0x2000 then 0x0000
      else if i > 0x1000 then 0x2000
      else if i > 0x0800 then 0x3000
      else if i > 0x0400 then 0x3800
      else if i > 0x0200 then 0x3c00
      else if i > 0x0100 then 0x3e00
      else if i > 0x0080 then 0x3f00
      else if i > 0x0040 then 0x3f80
      else if i > 0x0020 then 0x3fc0
      else if i > 0x0010 then 0x3fe0
      else if i > 0x0008 then 0x3ff0
      else if i > 0x0004 then 0x3ff8
      else if i > 0x0002 then 0x3ffc
      else if i > 0x0001 then 0x3ffe
      else 0x3fff)"

text \<open>Row \<open>c\<close>, column \<open>i\<close> is entry \<open>(c << 8) | i\<close>; row 14 is never written and stays 0.\<close>

definition condition_table :: "u32 \<Rightarrow> bool" where
  "condition_table x =
     (let i = x AND 0xff;
          az = i AND ZFLAG \<noteq> 0; an = i AND NFLAG \<noteq> 0; av = i AND VFLAG \<noteq> 0;
          ac = i AND CFLAG \<noteq> 0; mv = i AND MVFLAG \<noteq> 0; as = i AND SFLAG \<noteq> 0
      in [az, \<not> az, \<not> ((an \<noteq> av) \<or> az), (an \<noteq> av) \<or> az, an \<noteq> av, \<not> (an \<noteq> av),
          av, \<not> av, ac, \<not> ac, as, \<not> as, mv, \<not> mv, False, True] ! unat (drop_bit 8 x))"

section \<open>Mode register\<close>

definition update_mstat :: "adsp2181 \<Rightarrow> adsp2181" where
  "update_mstat s =
     (let changed = mstat s XOR mstat_prev s;
          s1 = (if changed AND MSTAT_BANK \<noteq> 0 then s\<lparr>core := alt s, alt := core s\<rparr> else s);
          s2 = (if changed AND MSTAT_TIMER \<noteq> 0 \<and> timer_fired s1
                then emit (Ev_timer (mstat s1 AND MSTAT_TIMER \<noteq> 0)) s1 else s1)
      in s2\<lparr>astat_clear := (if mstat s2 AND MSTAT_STICKYV \<noteq> 0 then NOT (CFLAG OR NFLAG OR ZFLAG)
                           else NOT (CFLAG OR VFLAG OR NFLAG OR ZFLAG)),
            mstat_prev := mstat s2\<rparr>)"

section \<open>Stacks\<close>

definition warn_stack_over :: "adsp2181 \<Rightarrow> u8 \<Rightarrow> nat \<Rightarrow> adsp2181" where
  "warn_stack_over s b depth =
     (if stack_over_warned s AND b \<noteq> 0 then s
      else emit (Log_stack_over b depth) (s\<lparr>stack_over_warned := stack_over_warned s OR b\<rparr>))"

definition pc_stack_top :: "adsp2181 \<Rightarrow> u32" where
  "pc_stack_top s = (if pc_sp s > 0 then pc_stack s (pc_sp s - 1) else pc_stack s 0)"

definition set_pc_stack_top :: "adsp2181 \<Rightarrow> u32 \<Rightarrow> adsp2181" where
  "set_pc_stack_top s v =
     (if pc_sp s > 0 then s\<lparr>pc_stack := (pc_stack s)(pc_sp s - 1 := v)\<rparr>
      else s\<lparr>pc_stack := (pc_stack s)(0 := v)\<rparr>)"

definition note_pcsp :: "adsp2181 \<Rightarrow> adsp2181" where
  "note_pcsp s =
     upd_ins (\<lambda>n. n\<lparr>
       pcsp_window_max := (if pc_sp s > unat (pcsp_window_max n) then of_nat (pc_sp s)
                           else pcsp_window_max n),
       pcsp_window_min := (if pc_sp s < unat (pcsp_window_min n) then of_nat (pc_sp s)
                           else pcsp_window_min n)\<rparr>) s"

definition pc_stack_push :: "adsp2181 \<Rightarrow> adsp2181" where
  "pc_stack_push s0 =
     (let s = note_pcsp s0 in
      if pc_sp s < PC_STACK_DEPTH then
        s\<lparr>pc_stack := (pc_stack s)(pc_sp s := pc s), pc_sp := pc_sp s + 1,
          sstat := sstat s AND NOT PC_EMPTY\<rparr>
      else warn_stack_over (s\<lparr>sstat := sstat s OR PC_OVER\<rparr>) 0x02 PC_STACK_DEPTH)"

definition pc_stack_push_val :: "adsp2181 \<Rightarrow> u32 \<Rightarrow> adsp2181" where
  "pc_stack_push_val s0 v =
     (let s = note_pcsp s0 in
      if pc_sp s < PC_STACK_DEPTH then
        s\<lparr>pc_stack := (pc_stack s)(pc_sp s := v), pc_sp := pc_sp s + 1,
          sstat := sstat s AND NOT PC_EMPTY\<rparr>
      else warn_stack_over (s\<lparr>sstat := sstat s OR PC_OVER\<rparr>) 0x02 PC_STACK_DEPTH)"

definition pc_stack_pop :: "adsp2181 \<Rightarrow> adsp2181" where
  "pc_stack_pop s0 =
     (let s = note_pcsp s0 in
      if pc_sp s > 0 then
        s\<lparr>pc_sp := pc_sp s - 1,
          sstat := (if pc_sp s - 1 = 0 then sstat s OR PC_EMPTY else sstat s),
          pc := pc_stack s (pc_sp s - 1)\<rparr>
      else s\<lparr>sstat := sstat s OR PC_EMPTY\<rparr>)"

definition pc_stack_pop_val :: "adsp2181 \<Rightarrow> u32 \<times> adsp2181" where
  "pc_stack_pop_val s0 =
     (let s = note_pcsp s0 in
      if pc_sp s > 0 then
        (pc_stack s (pc_sp s - 1),
         s\<lparr>pc_sp := pc_sp s - 1,
           sstat := (if pc_sp s - 1 = 0 then sstat s OR PC_EMPTY else sstat s)\<rparr>)
      else (0, s\<lparr>sstat := sstat s OR PC_EMPTY\<rparr>))"

definition cntr_stack_top :: "adsp2181 \<Rightarrow> u32" where
  "cntr_stack_top s = (if cntr_sp s > 0 then cntr_stack s (cntr_sp s - 1) else cntr_stack s 0)"

definition cntr_stack_push :: "adsp2181 \<Rightarrow> adsp2181" where
  "cntr_stack_push s =
     (if cntr_sp s < CNTR_STACK_DEPTH then
        s\<lparr>cntr_stack := (cntr_stack s)(cntr_sp s := cntr s), cntr_sp := cntr_sp s + 1,
          sstat := sstat s AND NOT COUNT_EMPTY\<rparr>
      else warn_stack_over (s\<lparr>sstat := sstat s OR COUNT_OVER\<rparr>) 0x08 CNTR_STACK_DEPTH)"

definition cntr_stack_pop :: "adsp2181 \<Rightarrow> adsp2181" where
  "cntr_stack_pop s =
     (if cntr_sp s > 0 then
        s\<lparr>cntr_sp := cntr_sp s - 1,
          sstat := (if cntr_sp s - 1 = 0 then sstat s OR COUNT_EMPTY else sstat s),
          cntr := cntr_stack s (cntr_sp s - 1),
          cntr_valid := True\<rparr>
      else s\<lparr>sstat := sstat s OR COUNT_EMPTY, cntr_valid := False\<rparr>)"

definition loop_stack_top :: "adsp2181 \<Rightarrow> u32" where
  "loop_stack_top s = (if loop_sp s > 0 then loop_stack s (loop_sp s - 1) else loop_stack s 0)"

definition loop_stack_push :: "adsp2181 \<Rightarrow> u32 \<Rightarrow> adsp2181" where
  "loop_stack_push s v =
     (if loop_sp s < LOOP_STACK_DEPTH then
        s\<lparr>loop_stack := (loop_stack s)(loop_sp s := v), loop_sp := loop_sp s + 1,
          loop_end := drop_bit 4 v, loop_condition := v AND 15,
          sstat := sstat s AND NOT LOOP_EMPTY\<rparr>
      else warn_stack_over (s\<lparr>sstat := sstat s OR LOOP_OVER\<rparr>) 0x80 LOOP_STACK_DEPTH)"

definition loop_stack_pop :: "adsp2181 \<Rightarrow> adsp2181" where
  "loop_stack_pop s =
     (if loop_sp s > 0 then
        (if loop_sp s - 1 = 0 then
           s\<lparr>loop_sp := loop_sp s - 1, loop_end := 0xffff, loop_condition := 0,
             sstat := sstat s OR LOOP_EMPTY\<rparr>
         else
           s\<lparr>loop_sp := loop_sp s - 1,
             loop_end := drop_bit 4 (loop_stack s (loop_sp s - 1 - 1)),
             loop_condition := loop_stack s (loop_sp s - 1 - 1) AND 15\<rparr>)
      else s)"

definition stat_stack_push :: "adsp2181 \<Rightarrow> adsp2181" where
  "stat_stack_push s =
     (if stat_sp s < STAT_STACK_DEPTH then
        s\<lparr>stat_stack := (stat_stack s)(stat_sp s := (ucast (mstat s), imask s, ucast (astat s))),
          stat_sp := stat_sp s + 1, sstat := sstat s AND NOT STATUS_EMPTY\<rparr>
      else warn_stack_over (s\<lparr>sstat := sstat s OR STATUS_OVER\<rparr>) 0x20 STAT_STACK_DEPTH)"

section \<open>Interrupts\<close>

definition generate_irq :: "adsp2181 \<Rightarrow> nat \<Rightarrow> nat \<Rightarrow> bool \<times> adsp2181" where
  "generate_irq s which priority =
     (if imask s AND drop_bit priority 0x200 = 0 then (False, s)
      else
        (let s1 = (if watch_irqs (ins s) then emit (Log_irq which priority) s else s);
             s2 = s1\<lparr>irq_latch := (irq_latch s1)(which := False)\<rparr>;
             s3 = stat_stack_push (pc_stack_push s2)
         in (True, s3\<lparr>pc := 0x04 + of_nat priority * 4, idle := False,
               imask := (if icntl s3 AND 0x10 \<noteq> 0 then imask s3 AND NOT (drop_bit priority 0x3ff)
                         else imask s3 AND NOT 0x3ff)\<rparr>)))"

text \<open>One \<^verbatim>\<open>TRY_IRQ\<close> line per element: line number, priority, pending.\<close>

fun try_irqs :: "adsp2181 \<Rightarrow> (nat \<times> nat \<times> bool) list \<Rightarrow> adsp2181" where
  "try_irqs s [] = s"
| "try_irqs s ((which, priority, pending) # rest) =
     (if pending then
        (let (taken, s') = generate_irq s which priority in if taken then s' else try_irqs s rest)
      else try_irqs s rest)"

definition irq_lines :: "adsp2181 \<Rightarrow> (nat \<times> nat \<times> bool) list" where
  "irq_lines s =
     [(ADSP2181_IRQ2, 0, if icntl s AND 4 \<noteq> 0 then irq_latch s ADSP2181_IRQ2 else irq_state s ADSP2181_IRQ2),
      (ADSP2181_IRQL1, 1, irq_state s ADSP2181_IRQL1),
      (ADSP2181_IRQL2, 2, irq_state s ADSP2181_IRQL2),
      (ADSP2181_SPORT0_TX, 3, irq_latch s ADSP2181_SPORT0_TX),
      (ADSP2181_SPORT0_RX, 4, irq_latch s ADSP2181_SPORT0_RX),
      (ADSP2181_IRQE, 5, irq_latch s ADSP2181_IRQE),
      (ADSP2181_IRQ1, 7, if icntl s AND 2 \<noteq> 0 then irq_latch s ADSP2181_IRQ1 else irq_state s ADSP2181_IRQ1),
      (ADSP2181_IRQ0, 8, if icntl s AND 1 \<noteq> 0 then irq_latch s ADSP2181_IRQ0 else irq_state s ADSP2181_IRQ0),
      (ADSP2181_TIMER, 9, irq_latch s ADSP2181_TIMER)]"

definition check_irqs :: "adsp2181 \<Rightarrow> adsp2181" where
  "check_irqs s = (if interrupts_enabled s then try_irqs s (irq_lines s) else s)"

text \<open>\<^verbatim>\<open>stat_stack_pop\<close> reloads MSTAT, IMASK and ASTAT and then looks for interrupts.\<close>

definition stat_restore :: "adsp2181 \<Rightarrow> adsp2181" where
  "stat_restore s =
     (let (m, k, a) = stat_stack s (stat_sp s - 1);
          s1 = update_mstat (s\<lparr>stat_sp := stat_sp s - 1,
                  sstat := (if stat_sp s - 1 = 0 then sstat s OR STATUS_EMPTY else sstat s),
                  mstat := ucast m\<rparr>)
      in s1\<lparr>imask := k, astat := ucast a\<rparr>)"

definition stat_stack_pop :: "adsp2181 \<Rightarrow> adsp2181" where
  "stat_stack_pop s =
     (if stat_sp s > 0 then check_irqs (stat_restore s)
      else s\<lparr>sstat := sstat s OR STATUS_EMPTY\<rparr>)"

section \<open>Condition codes\<close>

definition CONDITION :: "adsp2181 \<Rightarrow> u32 \<Rightarrow> bool \<times> adsp2181" where
  "CONDITION s c =
     (if c \<noteq> 14 then (condition_table (push_bit 8 c OR astat s), s)
      else
        (let s1 = s\<lparr>cntr := cntr s - 1\<rparr> in
         if 0 <s cntr s1 then (True, s1) else (False, cntr_stack_pop s1)))"

section \<open>The four stacks as saturating lists\<close>

text \<open>
  A hardware stack of the 2181: a push on a full stack is dropped and recorded in a sticky
  overflow bit, a pop on an empty one does nothing.
\<close>

locale saturating_stack =
  fixes depth :: nat
    and contents :: "'s \<Rightarrow> 'v list"
    and push :: "'s \<Rightarrow> 'v \<Rightarrow> 's"
    and pop :: "'s \<Rightarrow> 's"
    and top_of :: "'s \<Rightarrow> 'v"
    and over :: "'s \<Rightarrow> bool"
  assumes contents_push: "contents (push s v) =
        (if length (contents s) < depth then contents s @ [v] else contents s)"
    and contents_pop: "contents (pop s) = butlast (contents s)"
    and top_last: "contents s \<noteq> [] \<Longrightarrow> top_of s = last (contents s)"
    and over_push: "over (push s v) \<longleftrightarrow> over s \<or> depth \<le> length (contents s)"
    and over_pop: "over (pop s) \<longleftrightarrow> over s"
begin

definition push_all :: "'v list \<Rightarrow> 's \<Rightarrow> 's" where
  "push_all vs s = fold (\<lambda>v s. push s v) vs s"

lemma push_all_simps [simp]: "push_all [] s = s" "push_all (v # vs) s = push_all vs (push s v)"
  by (simp_all add: push_all_def)

text \<open>Of a run of pushes the oldest survive: the stack is the first \<open>depth\<close> entries.\<close>

lemma contents_push_all:
  "length (contents s) \<le> depth \<Longrightarrow> contents (push_all vs s) = take depth (contents s @ vs)"
proof (induction vs arbitrary: s)
  case (Cons v vs)
  show ?case
  proof (cases "length (contents s) < depth")
    case True
    then show ?thesis using Cons.IH [of "push s v"] by (simp add: contents_push)
  next
    case False
    then show ?thesis using Cons.IH [of "push s v"] Cons.prems by (simp add: contents_push)
  qed
qed simp

lemma contents_pops: "contents ((pop ^^ n) s) = take (length (contents s) - n) (contents s)"
proof (induction n)
  case (Suc n)
  then show ?case by (simp add: contents_pop butlast_conv_take take_take)
qed simp

text \<open>Balanced pushes and pops restore the stack exactly when nothing overflowed.\<close>

lemma push_pop_balanced:
  assumes "length (contents s) + length vs \<le> depth"
  shows "contents ((pop ^^ length vs) (push_all vs s)) = contents s"
  using assms by (simp add: contents_pops contents_push_all)

lemma push_pop_overflow:
  assumes "length (contents s) \<le> depth" "depth < length (contents s) + length vs"
  shows "contents ((pop ^^ length vs) (push_all vs s)) = take (depth - length vs) (contents s)"
  using assms by (auto simp: contents_pops contents_push_all min_def)

lemma over_push_all:
  "length (contents s) \<le> depth \<Longrightarrow>
     over (push_all vs s) \<longleftrightarrow> over s \<or> depth < length (contents s) + length vs"
proof (induction vs arbitrary: s)
  case (Cons v vs)
  then show ?case using Cons.IH [of "push s v"] by (auto simp: over_push contents_push)
qed simp

end

definition pc_list :: "adsp2181 \<Rightarrow> u32 list" where
  "pc_list s = map (pc_stack s) [0..<pc_sp s]"

definition cntr_list :: "adsp2181 \<Rightarrow> u32 list" where
  "cntr_list s = map (cntr_stack s) [0..<cntr_sp s]"

definition loop_list :: "adsp2181 \<Rightarrow> u32 list" where
  "loop_list s = map (loop_stack s) [0..<loop_sp s]"

definition stat_list :: "adsp2181 \<Rightarrow> (u16 \<times> u16 \<times> u16) list" where
  "stat_list s = map (stat_stack s) [0..<stat_sp s]"

lemma map_stack_push: "map (f(n := v)) [0..<Suc n] = map f [0..<n] @ [v]"
  by simp

lemma map_stack_pop: "map f [0..<n - Suc 0] = butlast (map f [0..<n])"
  by (cases n) simp_all

interpretation pcs: saturating_stack PC_STACK_DEPTH pc_list pc_stack_push_val
    "\<lambda>s. snd (pc_stack_pop_val s)" pc_stack_top "\<lambda>s. bit (sstat s) 1"
  by unfold_locales
    (auto simp: pc_list_def pc_stack_push_val_def pc_stack_pop_val_def note_pcsp_def
      warn_stack_over_def pc_stack_top_def Let_def bit_simps map_stack_pop last_map last_upt
      not_less split: if_splits)


text \<open>The counter stack saves CNTR, the status stack MSTAT, IMASK and ASTAT.\<close>

definition cntr_push_val :: "adsp2181 \<Rightarrow> u32 \<Rightarrow> adsp2181" where
  "cntr_push_val s v = cntr_stack_push (s\<lparr>cntr := v\<rparr>)"

definition stat_push_val :: "adsp2181 \<Rightarrow> u16 \<times> u16 \<times> u16 \<Rightarrow> adsp2181" where
  "stat_push_val s v = (case v of (m, k, a) \<Rightarrow>
     stat_stack_push (s\<lparr>mstat := ucast m, imask := k, astat := ucast a\<rparr>))"

text \<open>
  A pop of the status stack looks for interrupts at its end and may push again at once; with interrupts
  disabled it is a plain pop.
\<close>

definition stat_pop_disabled :: "adsp2181 \<Rightarrow> adsp2181" where
  "stat_pop_disabled s = stat_stack_pop (s\<lparr>interrupts_enabled := False\<rparr>)"

interpretation cntrs: saturating_stack CNTR_STACK_DEPTH cntr_list cntr_push_val cntr_stack_pop
    cntr_stack_top "\<lambda>s. bit (sstat s) 3"
  by unfold_locales
    (auto simp: cntr_list_def cntr_push_val_def cntr_stack_push_def cntr_stack_pop_def
      warn_stack_over_def cntr_stack_top_def Let_def bit_simps map_stack_pop last_map last_upt
      not_less split: if_splits)

lemma loop_pop_stack:
  "loop_sp (loop_stack_pop s) = loop_sp s - 1" "loop_stack (loop_stack_pop s) = loop_stack s"
  "bit (sstat (loop_stack_pop s)) 7 = bit (sstat s) 7"
  by (simp_all add: loop_stack_pop_def bit_simps)

interpretation loops: saturating_stack LOOP_STACK_DEPTH loop_list loop_stack_push loop_stack_pop
    loop_stack_top "\<lambda>s. bit (sstat s) 7"
  by unfold_locales
    (auto simp: loop_list_def loop_stack_push_def loop_pop_stack
      warn_stack_over_def loop_stack_top_def Let_def bit_simps map_stack_pop last_map last_upt
      not_less split: if_splits)

lemma stat_restore_stack:
  "stat_sp (stat_restore s) = stat_sp s - 1" "stat_stack (stat_restore s) = stat_stack s"
  "sstat (stat_restore s) = (if stat_sp s - 1 = 0 then sstat s OR STATUS_EMPTY else sstat s)"
  "interrupts_enabled (stat_restore s) = interrupts_enabled s"
  by (simp_all add: stat_restore_def update_mstat_def Let_def case_prod_beta)

interpretation stats: saturating_stack STAT_STACK_DEPTH stat_list stat_push_val stat_pop_disabled
    "\<lambda>s. stat_stack s (stat_sp s - 1)" "\<lambda>s. bit (sstat s) 5"
  by unfold_locales
    (auto simp: stat_list_def stat_push_val_def stat_stack_push_def stat_pop_disabled_def stat_stack_pop_def
      check_irqs_def warn_stack_over_def stat_restore_stack Let_def bit_simps map_stack_pop last_map last_upt
      not_less split: if_splits)

section \<open>Properties of the stacks\<close>

lemma pc_list_length [simp]: "length (pc_list s) = pc_sp s"
  by (simp add: pc_list_def)

text \<open>
  The PC stack keeps its first sixteen entries.  After any sequence of pushes its contents are
  the first sixteen of the old contents followed by the pushed values, and the sticky PC_OVER bit
  of SSTAT is set exactly when a push was dropped (or it was set before).
\<close>

theorem pc_stack_saturates:
  assumes "pc_sp s \<le> 16"
  shows "pc_list (fold (\<lambda>v s. pc_stack_push_val s v) vs s) = take 16 (pc_list s @ vs)
     \<and> (bit (sstat (fold (\<lambda>v s. pc_stack_push_val s v) vs s)) 1
          \<longleftrightarrow> bit (sstat s) 1 \<or> 16 < pc_sp s + length vs)"
  using pcs.contents_push_all [of s vs] pcs.over_push_all [of s vs] assms
  by (simp add: pcs.push_all_def)

theorem pc_stack_saturates_witness:
  "pc_list (fold (\<lambda>v s. pc_stack_push_val s v) (map of_nat [1..<19]) adsp2181_zero) =
     map of_nat [1..<17]"
  using pc_stack_saturates [of adsp2181_zero "map of_nat [1..<19]"]
  by (simp add: adsp2181_zero_def pc_list_def upt_rec)

section \<open>Interrupt arbitration\<close>

definition irq_takeable :: "adsp2181 \<Rightarrow> nat \<times> nat \<times> bool \<Rightarrow> bool" where
  "irq_takeable s l = (case l of (which, priority, pending) \<Rightarrow>
     pending \<and> imask s AND drop_bit priority 0x200 \<noteq> 0)"

lemma try_irqs_find:
  "try_irqs s ls = (case find (irq_takeable s) ls of None \<Rightarrow> s
     | Some (which, priority, _) \<Rightarrow> snd (generate_irq s which priority))"
proof (induction ls)
  case (Cons l rest)
  obtain which priority pending where "l = (which, priority, pending)" by (metis prod_cases3)
  then show ?case using Cons
    by (auto simp: irq_takeable_def generate_irq_def Let_def)
qed simp

lemma find_least:
  assumes "sorted_wrt (\<lambda>a b. f a < f b) ls" "x \<in> set ls" "Q x" "\<forall>y \<in> set ls. Q y \<longrightarrow> f x \<le> (f y :: nat)"
  shows "find Q ls = Some x"
  using assms by (induction ls) auto

lemma irq_lines_sorted: "sorted_wrt (\<lambda>a b. fst (snd a) < fst (snd b)) (irq_lines s)"
  by (simp add: irq_lines_def)

lemma bits_of_irq_masks:
  "bit (0x3ff :: u16) n \<longleftrightarrow> n < 10" "bit (0x200 :: u16) n \<longleftrightarrow> n = 9"
proof -
  have "(0x3ff :: u16) = mask 10" "(0x200 :: u16) = push_bit 9 1" by (simp_all add: mask_numeral)
  then show "bit (0x3ff :: u16) n \<longleftrightarrow> n < 10" "bit (0x200 :: u16) n \<longleftrightarrow> n = 9"
    by (simp_all only: bit_mask_iff bit_push_bit_iff bit_1_iff) auto
qed

lemma irq_masked_after:
  fixes m :: u16
  shows "(m AND NOT (drop_bit p 0x3ff)) AND drop_bit p 0x200 = 0"
    "(m AND NOT 0x3ff) AND drop_bit p 0x200 = 0"
  by (rule bit_word_eqI; simp only: bit_and_iff bit_not_iff bit_drop_bit_eq comp_apply bits_of_irq_masks bit_0_eq bot_apply; auto)+

lemma generate_irq_effect:
  assumes "imask s AND drop_bit p 0x200 \<noteq> 0"
  shows "pc (snd (generate_irq s w p)) = 4 + 4 * of_nat p" "\<not> irq_latch (snd (generate_irq s w p)) w"
    "\<not> idle (snd (generate_irq s w p))" "imask (snd (generate_irq s w p)) AND drop_bit p 0x200 = 0"
  using assms irq_masked_after
  by (simp_all add: generate_irq_def Let_def mult.commute stat_stack_push_def pc_stack_push_def note_pcsp_def
      warn_stack_over_def)

text \<open>
  C4. Interrupt arbitration.  With interrupts enabled, of the lines that are requested and not masked
  the one with the smallest priority number is taken: the core leaves IDLE at its vector, its latch is
  cleared and its mask bit is off.  With no such line, or with interrupts disabled, nothing changes.
\<close>

theorem check_irqs_priority:
  assumes "interrupts_enabled s" "(w, p, True) \<in> set (irq_lines s)" "irq_takeable s (w, p, True)"
    and "\<forall>(w', p', q) \<in> set (irq_lines s). irq_takeable s (w', p', q) \<longrightarrow> p \<le> p'"
  shows "check_irqs s = snd (generate_irq s w p) \<and> pc (check_irqs s) = 4 + 4 * of_nat p
    \<and> \<not> irq_latch (check_irqs s) w \<and> \<not> idle (check_irqs s) \<and> imask (check_irqs s) AND drop_bit p 0x200 = 0
    \<and> (\<forall>t. \<not> interrupts_enabled t \<or> \<not> list_ex (irq_takeable t) (irq_lines t) \<longrightarrow> check_irqs t = t)"
proof -
  have "find (irq_takeable s) (irq_lines s) = Some (w, p, True)"
    using assms(2,3,4) by (intro find_least [OF irq_lines_sorted]) auto
  then have "check_irqs s = snd (generate_irq s w p)" by (simp add: check_irqs_def try_irqs_find assms(1))
  moreover have "check_irqs t = t" if "\<not> interrupts_enabled t \<or> \<not> list_ex (irq_takeable t) (irq_lines t)" for t
    using that by (auto simp: check_irqs_def try_irqs_find list_ex_iff split: option.split dest!: find_Some_iff [THEN iffD1])
  ultimately show ?thesis using assms(3) generate_irq_effect [of s p w] by (simp add: irq_takeable_def)
qed

theorem check_irqs_priority_witness:
  "let s = adsp2181_zero\<lparr>imask := 0x3ff, interrupts_enabled := True,
       irq_latch := (\<lambda>k. k = ADSP2181_SPORT0_RX \<or> k = ADSP2181_TIMER)\<rparr>
   in check_irqs s = snd (generate_irq s ADSP2181_SPORT0_RX 4) \<and> pc (check_irqs s) = 20"
proof -
  define s where "s = adsp2181_zero\<lparr>imask := 0x3ff, interrupts_enabled := True,
       irq_latch := (\<lambda>k. k = ADSP2181_SPORT0_RX \<or> k = ADSP2181_TIMER)\<rparr>"
  have l: "irq_lines s = [(2, 0, False), (7, 1, False), (8, 2, False), (4, 3, False), (3, 4, True), (6, 5, False),
      (1, 7, False), (0, 8, False), (5, 9, True)]"
    by (simp add: irq_lines_def s_def adsp2181_zero_def)
  have "interrupts_enabled s" "irq_takeable s (3, 4, True)" by (simp_all add: s_def irq_takeable_def)
  moreover have "\<forall>(w', p', q) \<in> set (irq_lines s). irq_takeable s (w', p', q) \<longrightarrow> 4 \<le> p'"
    by (simp add: l irq_takeable_def)
  ultimately have "check_irqs s = snd (generate_irq s 3 4) \<and> pc (check_irqs s) = 4 + 4 * of_nat 4"
    using check_irqs_priority [of s 3 4] by (auto simp: l)
  then show ?thesis unfolding s_def [symmetric] Let_def by auto
qed

end
