(* ===== verification/Registers.thy ===== *)
theory Registers
  imports Sequencer
begin

text \<open>
  The register file as instructions see it: \<^verbatim>\<open>WRITE_REG\<close> and \<^verbatim>\<open>READ_REG\<close> (four groups of
  sixteen), the operand selectors \<^verbatim>\<open>alu_xregs\<close> and its companions, and the two address
  generators with circular buffers and bit-reversed addressing.
\<close>

section \<open>Register writes\<close>

definition update_i :: "adsp2181 \<Rightarrow> nat \<Rightarrow> adsp2181" where
  "update_i s k = s\<lparr>dag_base := (dag_base s)(k := dag_i s k AND dag_lmask s k)\<rparr>"

definition update_l :: "adsp2181 \<Rightarrow> nat \<Rightarrow> adsp2181" where
  "update_l s k =
     (let m = ucast (mask_table (dag_l s k AND 0x3fff)) in
      s\<lparr>dag_lmask := (dag_lmask s)(k := m), dag_base := (dag_base s)(k := dag_i s k AND m)\<rparr>)"

definition sign_extend_mr40 :: "u64 \<Rightarrow> u64" where
  "sign_extend_mr40 v =
     (let m = push_bit 40 1 - 1; w = v AND m
      in if w AND push_bit 39 1 \<noteq> 0 then w OR NOT m else w)"

definition normalize_mr :: "adspcore \<Rightarrow> adspcore" where
  "normalize_mr c = c\<lparr>mr := sign_extend_mr40 (mr c)\<rparr>"

definition wr_inval :: "adsp2181 \<Rightarrow> adsp2181" where
  "wr_inval s = emit (Log_inval (ppc s)) s"

definition wr_i :: "nat \<Rightarrow> adsp2181 \<Rightarrow> u32 \<Rightarrow> adsp2181" where
  "wr_i k s v = update_i (s\<lparr>dag_i := (dag_i s)(k := v AND 0x3fff)\<rparr>) k"

definition sign_extend_14 :: "u32 \<Rightarrow> u32" where
  "sign_extend_14 v = (let w = v AND 0x3fff in if w AND 0x2000 \<noteq> 0 then w - 0x4000 else w)"

definition wr_m :: "nat \<Rightarrow> adsp2181 \<Rightarrow> u32 \<Rightarrow> adsp2181" where
  "wr_m k s v = s\<lparr>dag_m := (dag_m s)(k := sign_extend_14 v)\<rparr>"

definition wr_l :: "nat \<Rightarrow> adsp2181 \<Rightarrow> u32 \<Rightarrow> adsp2181" where
  "wr_l k s v = update_l (s\<lparr>dag_l := (dag_l s)(k := v AND 0x3fff)\<rparr>) k"

definition wr_mr0 :: "adsp2181 \<Rightarrow> u32 \<Rightarrow> adsp2181" where
  "wr_mr0 s v = upd_core (set_mr0 (ucast v)) s"

definition wr_mr1 :: "adsp2181 \<Rightarrow> u32 \<Rightarrow> adsp2181" where
  "wr_mr1 s v = upd_core (\<lambda>c. normalize_mr
     (set_mr2 (signed_drop_bit 15 (ucast v)) (set_mr1 (ucast v) c))) s"

definition wr_mr2 :: "adsp2181 \<Rightarrow> u32 \<Rightarrow> adsp2181" where
  "wr_mr2 s v = upd_core (\<lambda>c. normalize_mr (set_mr2 (scast (ucast v :: u8)) c)) s"

definition wr_astat :: "adsp2181 \<Rightarrow> u32 \<Rightarrow> adsp2181" where
  "wr_astat s v = s\<lparr>astat := v AND 0x00ff\<rparr>"

definition wr_mstat :: "adsp2181 \<Rightarrow> u32 \<Rightarrow> adsp2181" where
  "wr_mstat s v = update_mstat (s\<lparr>mstat := v AND mstat_mask s\<rparr>)"

definition wr_imask :: "adsp2181 \<Rightarrow> u32 \<Rightarrow> adsp2181" where
  "wr_imask s v = check_irqs (s\<lparr>imask := ucast (v AND imask_mask s)\<rparr>)"

definition wr_icntl :: "adsp2181 \<Rightarrow> u32 \<Rightarrow> adsp2181" where
  "wr_icntl s v = check_irqs (s\<lparr>icntl := ucast (v AND 0x1f)\<rparr>)"

definition wr_cntr :: "adsp2181 \<Rightarrow> u32 \<Rightarrow> adsp2181" where
  "wr_cntr s v =
     (let s1 = (if cntr_valid s then cntr_stack_push s else s)
      in s1\<lparr>cntr := v AND 0x3fff, cntr_valid := True\<rparr>)"

definition wr_sb :: "adsp2181 \<Rightarrow> u32 \<Rightarrow> adsp2181" where
  "wr_sb s v =
     (let w = v AND 0x1f in
      upd_core (\<lambda>c. c\<lparr>sb := scast (ucast (if w AND 0x10 \<noteq> 0 then w - 0x20 else w) :: u8)\<rparr>) s)"

definition wr_px :: "adsp2181 \<Rightarrow> u32 \<Rightarrow> adsp2181" where
  "wr_px s v = s\<lparr>px := ucast (v AND 0xff)\<rparr>"

definition latch_when :: "bool \<Rightarrow> nat \<Rightarrow> bool \<Rightarrow> (nat \<Rightarrow> bool) \<Rightarrow> nat \<Rightarrow> bool" where
  "latch_when b k v f = (if b then f(k := v) else f)"

definition ifc_latches_2181 :: "u32 \<Rightarrow> (nat \<Rightarrow> bool) \<Rightarrow> nat \<Rightarrow> bool" where
  "ifc_latches_2181 v f0 =
     (let f1 = latch_when (v AND 0x0002 \<noteq> 0) ADSP2181_IRQ0 False f0;
          f2 = latch_when (v AND 0x0004 \<noteq> 0) ADSP2181_IRQ1 False f1;
          f3 = latch_when (v AND 0x0010 \<noteq> 0) ADSP2181_IRQE False f2;
          f4 = latch_when (v AND 0x0020 \<noteq> 0) ADSP2181_SPORT0_RX False f3;
          f5 = latch_when (v AND 0x0040 \<noteq> 0) ADSP2181_SPORT0_TX False f4;
          f6 = latch_when (v AND 0x0080 \<noteq> 0) ADSP2181_IRQ2 False f5;
          f7 = latch_when (v AND 0x0200 \<noteq> 0) ADSP2181_IRQ0 True f6;
          f8 = latch_when (v AND 0x0400 \<noteq> 0) ADSP2181_IRQ1 True f7;
          f9 = latch_when (v AND 0x1000 \<noteq> 0) ADSP2181_IRQE True f8;
          f10 = latch_when (v AND 0x2000 \<noteq> 0) ADSP2181_SPORT0_RX True f9;
          f11 = latch_when (v AND 0x4000 \<noteq> 0) ADSP2181_SPORT0_TX True f10
      in latch_when (v AND 0x8000 \<noteq> 0) ADSP2181_IRQ2 True f11)"

text \<open>The branch for older chips; \<^verbatim>\<open>ADSP2101_*\<close> numbers 0 to 4 name the same five lines.\<close>

definition ifc_latches_2101 :: "u32 \<Rightarrow> (nat \<Rightarrow> bool) \<Rightarrow> nat \<Rightarrow> bool" where
  "ifc_latches_2101 v f0 =
     (let f1 = latch_when (v AND 0x002 \<noteq> 0) 0 False f0;
          f2 = latch_when (v AND 0x004 \<noteq> 0) 1 False f1;
          f3 = latch_when (v AND 0x008 \<noteq> 0) 3 False f2;
          f4 = latch_when (v AND 0x010 \<noteq> 0) 4 False f3;
          f5 = latch_when (v AND 0x020 \<noteq> 0) 2 False f4;
          f6 = latch_when (v AND 0x080 \<noteq> 0) 0 True f5;
          f7 = latch_when (v AND 0x100 \<noteq> 0) 1 True f6;
          f8 = latch_when (v AND 0x200 \<noteq> 0) 3 True f7;
          f9 = latch_when (v AND 0x400 \<noteq> 0) 4 True f8
      in latch_when (v AND 0x800 \<noteq> 0) 2 True f9)"

definition wr_ifc :: "adsp2181 \<Rightarrow> u32 \<Rightarrow> adsp2181" where
  "wr_ifc s v =
     check_irqs (s\<lparr>ifc := ucast v,
       irq_latch := (if chip_type s \<ge> 5 then ifc_latches_2181 v (irq_latch s)
                     else ifc_latches_2101 v (irq_latch s))\<rparr>)"

definition wr_rx :: "nat \<Rightarrow> adsp2181 \<Rightarrow> u32 \<Rightarrow> adsp2181" where
  "wr_rx k s v = s\<lparr>sport_rx := (sport_rx s)(k := ucast v)\<rparr>"

definition wr_tx :: "nat \<Rightarrow> adsp2181 \<Rightarrow> u32 \<Rightarrow> adsp2181" where
  "wr_tx k s v =
     (let s1 = s\<lparr>sport_tx := (sport_tx s)(k := ucast v),
                sport_tx_written := (sport_tx_written s)(k := sport_tx_written s k + 1)\<rparr>
      in if sport_tx_callback s1 then emit (Ev_tx k v) s1 else s1)"

definition wr_owrctr :: "adsp2181 \<Rightarrow> u32 \<Rightarrow> adsp2181" where
  "wr_owrctr s v = s\<lparr>cntr := v AND 0x3fff\<rparr>"

definition wr_topstack :: "adsp2181 \<Rightarrow> u32 \<Rightarrow> adsp2181" where
  "wr_topstack s v = pc_stack_push_val s (v AND 0x3fff)"

definition wr_group0 :: "adsp2181 \<Rightarrow> nat \<Rightarrow> u32 \<Rightarrow> adsp2181" where
  "wr_group0 s r v =
     (if r = 0 then upd_core (\<lambda>c. c\<lparr>ax0 := ucast v\<rparr>) s
      else if r = 1 then upd_core (\<lambda>c. c\<lparr>ax1 := ucast v\<rparr>) s
      else if r = 2 then upd_core (\<lambda>c. c\<lparr>mx0 := ucast v\<rparr>) s
      else if r = 3 then upd_core (\<lambda>c. c\<lparr>mx1 := ucast v\<rparr>) s
      else if r = 4 then upd_core (\<lambda>c. c\<lparr>ay0 := ucast v\<rparr>) s
      else if r = 5 then upd_core (\<lambda>c. c\<lparr>ay1 := ucast v\<rparr>) s
      else if r = 6 then upd_core (\<lambda>c. c\<lparr>my0 := ucast v\<rparr>) s
      else if r = 7 then upd_core (\<lambda>c. c\<lparr>my1 := ucast v\<rparr>) s
      else if r = 8 then upd_core (\<lambda>c. c\<lparr>si := ucast v\<rparr>) s
      else if r = 9 then upd_core (\<lambda>c. c\<lparr>se := scast (ucast v :: u8)\<rparr>) s
      else if r = 10 then upd_core (\<lambda>c. c\<lparr>ar := ucast v\<rparr>) s
      else if r = 11 then wr_mr0 s v
      else if r = 12 then wr_mr1 s v
      else if r = 13 then wr_mr2 s v
      else if r = 14 then upd_core (set_sr0 (ucast v)) s
      else upd_core (set_sr1 (ucast v)) s)"

definition wr_group1 :: "adsp2181 \<Rightarrow> nat \<Rightarrow> u32 \<Rightarrow> adsp2181" where
  "wr_group1 s r v =
     (if r < 4 then wr_i r s v
      else if r < 8 then wr_m (r - 4) s v
      else if r < 12 then wr_l (r - 8) s v
      else if r < 14 then wr_inval s
      else if r = 14 then s\<lparr>pmovlay := ucast (v AND 3)\<rparr>
      else s\<lparr>dmovlay := ucast (v AND 3)\<rparr>)"

definition wr_group2 :: "adsp2181 \<Rightarrow> nat \<Rightarrow> u32 \<Rightarrow> adsp2181" where
  "wr_group2 s r v =
     (if r < 4 then wr_i (r + 4) s v
      else if r < 8 then wr_m r s v
      else if r < 12 then wr_l (r - 4) s v
      else wr_inval s)"

definition wr_group3 :: "adsp2181 \<Rightarrow> nat \<Rightarrow> u32 \<Rightarrow> adsp2181" where
  "wr_group3 s r v =
     (if r = 0 then wr_astat s v
      else if r = 1 then wr_mstat s v
      else if r = 2 then wr_inval s
      else if r = 3 then wr_imask s v
      else if r = 4 then wr_icntl s v
      else if r = 5 then wr_cntr s v
      else if r = 6 then wr_sb s v
      else if r = 7 then wr_px s v
      else if r = 8 then wr_rx 0 s v
      else if r = 9 then wr_tx 0 s v
      else if r = 10 then wr_rx 1 s v
      else if r = 11 then wr_tx 1 s v
      else if r = 12 then wr_ifc s v
      else if r = 13 then wr_owrctr s v
      else if r = 14 then wr_inval s
      else wr_topstack s v)"

definition WRITE_REG :: "adsp2181 \<Rightarrow> nat \<Rightarrow> nat \<Rightarrow> u32 \<Rightarrow> adsp2181" where
  "WRITE_REG s grp r v =
     (if grp = 0 then wr_group0 s r v else if grp = 1 then wr_group1 s r v
      else if grp = 2 then wr_group2 s r v else wr_group3 s r v)"

section \<open>Register reads\<close>

text \<open>
  \<^verbatim>\<open>rd_*\<close> return an \<^verbatim>\<open>INT32\<close>: the 16-bit data registers sign-extend, the rest zero-extend.
  Reading the top of the PC stack pops it, so a read also yields a state.
\<close>

definition rd_group0 :: "adsp2181 \<Rightarrow> nat \<Rightarrow> u32" where
  "rd_group0 s r =
     (let c = core s in
      scast ([ax0 c, ax1 c, mx0 c, mx1 c, ay0 c, ay1 c, my0 c, my1 c,
              si c, se c, ar c, mr0 c, mr1 c, mr2 c, sr0 c, sr1 c] ! r))"

definition rd_dag :: "nat \<Rightarrow> adsp2181 \<Rightarrow> nat \<Rightarrow> u32" where
  "rd_dag k s r =
     (if r < 4 then dag_i s (r + k) else if r < 8 then dag_m s (r - 4 + k) else dag_l s (r - 8 + k))"

definition rd_group3 :: "adsp2181 \<Rightarrow> nat \<Rightarrow> u32" where
  "rd_group3 s r =
     [astat s, mstat s, sstat s, ucast (imask s), ucast (icntl s), cntr s, scast (sb (core s)),
      ucast (px s), ucast (sport_rx s 0), ucast (sport_tx s 0), ucast (sport_rx s 1),
      ucast (sport_tx s 1)] ! r"

definition READ_REG :: "adsp2181 \<Rightarrow> nat \<Rightarrow> nat \<Rightarrow> u32 \<times> adsp2181" where
  "READ_REG s grp r =
     (if grp = 0 then (rd_group0 s r, s)
      else if grp = 1 then
        (if r < 12 then (rd_dag 0 s r, s) else if r < 14 then (0, wr_inval s)
         else if r = 14 then (ucast (pmovlay s), s) else (ucast (dmovlay s), s))
      else if grp = 2 then (if r < 12 then (rd_dag 4 s r, s) else (0, wr_inval s))
      else if r < 12 then (rd_group3 s r, s)
      else if r < 15 then (0, wr_inval s)
      else pc_stack_pop_val s)"

section \<open>Address generation\<close>

definition modified_address :: "adsp2181 \<Rightarrow> nat \<Rightarrow> nat \<Rightarrow> u32" where
  "modified_address s ireg mreg =
     (let a = dag_i s ireg + dag_m s mreg; l = dag_l s ireg; b = dag_base s ireg;
          a' = (if l \<noteq> 0 then if a <s b then a + l else if b + l \<le>s a then a - l else a else a)
      in a' AND 0x3fff)"

definition modify_address :: "adsp2181 \<Rightarrow> nat \<Rightarrow> nat \<Rightarrow> adsp2181" where
  "modify_address s ireg mreg = s\<lparr>dag_i := (dag_i s)(ireg := modified_address s ireg mreg)\<rparr>"

abbreviation (input) op_i :: "u32 \<Rightarrow> nat" where "op_i op \<equiv> unat (drop_bit 2 op AND 3)"
abbreviation (input) op_m :: "u32 \<Rightarrow> nat" where "op_m op \<equiv> unat (op AND 3)"

definition dag1_address :: "adsp2181 \<Rightarrow> u32 \<Rightarrow> u32" where
  "dag1_address s op =
     (let i = dag_i s (op_i op) in
      if mstat s AND MSTAT_REVERSE \<noteq> 0 then ucast (reverse_table (i AND 0x3fff)) else i)"

definition data_write_dag1 :: "adsp2181 \<Rightarrow> u32 \<Rightarrow> u32 \<Rightarrow> adsp2181" where
  "data_write_dag1 s op v =
     modify_address (WWORD_DATA s (dag1_address s op) (ucast v)) (op_i op) (op_m op)"

definition data_read_dag1 :: "adsp2181 \<Rightarrow> u32 \<Rightarrow> u32 \<times> adsp2181" where
  "data_read_dag1 s op =
     (let (v, s1) = RWORD_DATA s (dag1_address s op)
      in (ucast v, modify_address s1 (op_i op) (op_m op)))"

definition data_write_dag2 :: "adsp2181 \<Rightarrow> u32 \<Rightarrow> u32 \<Rightarrow> adsp2181" where
  "data_write_dag2 s op v =
     modify_address (WWORD_DATA s (dag_i s (4 + op_i op)) (ucast v)) (4 + op_i op) (4 + op_m op)"

definition data_read_dag2 :: "adsp2181 \<Rightarrow> u32 \<Rightarrow> u32 \<times> adsp2181" where
  "data_read_dag2 s op =
     (let (v, s1) = RWORD_DATA s (dag_i s (4 + op_i op))
      in (ucast v, modify_address s1 (4 + op_i op) (4 + op_m op)))"

definition pgm_write_dag2 :: "adsp2181 \<Rightarrow> u32 \<Rightarrow> u32 \<Rightarrow> adsp2181" where
  "pgm_write_dag2 s op v =
     (let i = dag_i s (4 + op_i op);
          w = push_bit 8 v OR (ucast (px s) AND 0xff);
          s1 = (if watch_gate (ins s) \<and> watch_pm (ins s) (i AND 0x3fff)
                then emit (Log_pm_dag_w (i AND 0x3fff) (w AND 0xffffff)) s else s)
      in modify_address (WWORD_PGM s1 i w) (4 + op_i op) (4 + op_m op))"

definition pgm_read_dag2 :: "adsp2181 \<Rightarrow> u32 \<Rightarrow> u32 \<times> adsp2181" where
  "pgm_read_dag2 s op =
     (let i = dag_i s (4 + op_i op);
          res = RWORD_PGM s i;
          s1 = (if watch_gate (ins s) \<and> watch_pm (ins s) (i AND 0x3fff)
                then emit (Log_pm_dag_r (i AND 0x3fff) (res AND 0xffffff)) s else s)
      in (drop_bit 8 res,
          modify_address (s1\<lparr>px := ucast (res AND 0xff)\<rparr>) (4 + op_i op) (4 + op_m op)))"

section \<open>Operand selectors (\<open>setup_register_maps\<close>)\<close>

definition alu_xreg :: "adspcore \<Rightarrow> nat \<Rightarrow> u16" where
  "alu_xreg c n = [ax0 c, ax1 c, ar c, mr0 c, mr1 c, mr2 c, sr0 c, sr1 c] ! n"

definition alu_yreg :: "adspcore \<Rightarrow> nat \<Rightarrow> u16" where
  "alu_yreg c n = [ay0 c, ay1 c, af c, czero c] ! n"

definition mac_xreg :: "adspcore \<Rightarrow> nat \<Rightarrow> u16" where
  "mac_xreg c n = [mx0 c, mx1 c, ar c, mr0 c, mr1 c, mr2 c, sr0 c, sr1 c] ! n"

definition mac_yreg :: "adspcore \<Rightarrow> nat \<Rightarrow> u16" where
  "mac_yreg c n = [my0 c, my1 c, mf c, czero c] ! n"

definition shift_xreg :: "adspcore \<Rightarrow> nat \<Rightarrow> u16" where
  "shift_xreg c n = [si c, si c, ar c, mr0 c, mr1 c, mr2 c, sr0 c, sr1 c] ! n"

end
