(* ===== verification/Mac.thy ===== *)
theory Mac
  imports Alu
begin

text \<open>
  The multiplier/accumulator: \<^verbatim>\<open>mac_op_mr\<close>, \<^verbatim>\<open>mac_op_mr_xop\<close>, \<^verbatim>\<open>mac_op_mf\<close>,
  \<^verbatim>\<open>mac_op_mf_xop\<close> and the MR saturation instruction.
\<close>

section \<open>Rounding\<close>

text \<open>BIASRND is bit 14 of the SPORT0 autobuffer control register at data memory 0x3ff3.\<close>

definition mac_round_mode :: "adsp2181 \<Rightarrow> u64 \<Rightarrow> u64" where
  "mac_round_mode s r =
     (let low = r AND 0xffff; r' = r + 0x8000
      in if data s 0x3ff3 AND 0x4000 = 0 \<and> low = 0x8000 then r' AND NOT 0x10000 else r')"

section \<open>The sixteen operations\<close>

datatype mac_acc = Acc_set | Acc_add | Acc_sub

text \<open>
  One entry per arm of the switch, in order: X signed, Y signed, what happens to MR, rounding.
  Arm 0 returns before touching anything.
\<close>

definition mac_arms :: "(bool \<times> bool \<times> mac_acc \<times> bool) list" where
  "mac_arms =
     [(True, True, Acc_set, False),     \<comment> \<open>0: no-op\<close>
      (True, True, Acc_set, True),      \<comment> \<open>1: X * Y (RND)\<close>
      (True, True, Acc_add, True),      \<comment> \<open>2: MR + X * Y (RND)\<close>
      (True, True, Acc_sub, True),      \<comment> \<open>3: MR - X * Y (RND)\<close>
      (True, True, Acc_set, False),     \<comment> \<open>4: X * Y (SS)\<close>
      (True, False, Acc_set, False),    \<comment> \<open>5: X * Y (SU)\<close>
      (False, True, Acc_set, False),    \<comment> \<open>6: X * Y (US)\<close>
      (False, False, Acc_set, False),   \<comment> \<open>7: X * Y (UU)\<close>
      (True, True, Acc_add, False),     \<comment> \<open>8: MR + X * Y (SS)\<close>
      (True, False, Acc_add, False),    \<comment> \<open>9: MR + X * Y (SU)\<close>
      (False, True, Acc_add, False),    \<comment> \<open>10: MR + X * Y (US)\<close>
      (False, False, Acc_add, False),   \<comment> \<open>11: MR + X * Y (UU)\<close>
      (True, True, Acc_sub, False),     \<comment> \<open>12: MR - X * Y (SS)\<close>
      (True, False, Acc_sub, False),    \<comment> \<open>13: MR - X * Y (SU)\<close>
      (False, True, Acc_sub, False),    \<comment> \<open>14: MR - X * Y (US)\<close>
      (False, False, Acc_sub, False)]   \<comment> \<open>15: MR - X * Y (UU)\<close>"

definition mac_ext :: "bool \<Rightarrow> u16 \<Rightarrow> u64" where
  "mac_ext sg w = (if sg then scast w else ucast w)"

definition mac_shift :: "adsp2181 \<Rightarrow> nat" where
  "mac_shift s = unat (drop_bit 4 (mstat s AND MSTAT_INTEGER) XOR 1)"

text \<open>Product, accumulation and rounding for the operand words \<open>x\<close> and \<open>y\<close>.\<close>

definition mac_result :: "adsp2181 \<Rightarrow> nat \<Rightarrow> u64 \<Rightarrow> u64 \<Rightarrow> u64" where
  "mac_result s n x y =
     (let (_, _, acc, rnd) = mac_arms ! n;
          t = x * y * push_bit (mac_shift s) 1;
          r = (case acc of Acc_set \<Rightarrow> t | Acc_add \<Rightarrow> mr (core s) + t | Acc_sub \<Rightarrow> mr (core s) - t)
      in if rnd then mac_round_mode s r else r)"

definition mac_flag :: "u64 \<Rightarrow> adsp2181 \<Rightarrow> adsp2181" where
  "mac_flag r s =
     (let t = signed_drop_bit 31 r AND 0x1ff
      in set_flag_if (t \<noteq> 0 \<and> t \<noteq> 0x1ff) MVFLAG (clr_flag MVFLAG s))"

definition mac_op_mr :: "adsp2181 \<Rightarrow> u32 \<Rightarrow> adsp2181" where
  "mac_op_mr s op =
     (let n = alu_n op; (xs, ys, _, _) = mac_arms ! n;
          r = mac_result s n (mac_ext xs (mac_xreg (core s) (op_x op)))
                             (mac_ext ys (mac_yreg (core s) (op_y op)))
      in if n = 0 then s
         else upd_core (\<lambda>c. c\<lparr>mr := sign_extend_mr40 r\<rparr>) (mac_flag r s))"

text \<open>The \<^verbatim>\<open>_xop\<close> forms square the X operand, read once with X's signedness.\<close>

definition mac_op_mr_xop :: "adsp2181 \<Rightarrow> u32 \<Rightarrow> adsp2181" where
  "mac_op_mr_xop s op =
     (let n = alu_n op; (xs, _, _, _) = mac_arms ! n;
          x = mac_ext xs (mac_xreg (core s) (op_x op));
          r = mac_result s n x x
      in if n = 0 then s
         else upd_core (\<lambda>c. c\<lparr>mr := sign_extend_mr40 r\<rparr>) (mac_flag r s))"

definition mac_op_mf :: "adsp2181 \<Rightarrow> u32 \<Rightarrow> adsp2181" where
  "mac_op_mf s op =
     (let n = alu_n op; (xs, ys, _, _) = mac_arms ! n;
          r = mac_result s n (mac_ext xs (mac_xreg (core s) (op_x op)))
                             (mac_ext ys (mac_yreg (core s) (op_y op)))
      in if n = 0 then s
         else upd_core (\<lambda>c. c\<lparr>mf := ucast (drop_bit 16 (ucast r :: u32))\<rparr>) (mac_flag r s))"

definition mac_op_mf_xop :: "adsp2181 \<Rightarrow> u32 \<Rightarrow> adsp2181" where
  "mac_op_mf_xop s op =
     (let n = alu_n op; (xs, _, _, _) = mac_arms ! n;
          x = mac_ext xs (mac_xreg (core s) (op_x op));
          r = mac_result s n x x
      in if n = 0 then s
         else upd_core (\<lambda>c. c\<lparr>mf := ucast (drop_bit 16 (ucast r :: u32))\<rparr>) (mac_flag r s))"

text \<open>Opcode 05, \<^verbatim>\<open>IF MV SAT MR\<close>.\<close>

definition saturate_mr :: "adsp2181 \<Rightarrow> adsp2181" where
  "saturate_mr s =
     (if astat s AND MVFLAG \<noteq> 0 then
        upd_core (\<lambda>c. normalize_mr
          (if mr2 c AND 0x80 \<noteq> 0
           then set_mr0 0x0000 (set_mr1 0x8000 (set_mr2 0xffff c))
           else set_mr0 0xffff (set_mr1 0x7fff (set_mr2 0x0000 c)))) s
      else s)"

end
