(* ===== verification/Shifter.thy ===== *)
theory Shifter
  imports Mac
begin

text \<open>
  The barrel shifter: \<^verbatim>\<open>shift_op\<close> and \<^verbatim>\<open>shift_op_imm\<close>.  Both return an option: \<open>None\<close> stands
  for a C shift whose count is not below the width (undefined behaviour) and for a loop that
  does not end.  That only the first can happen, and exactly when, is proved below.
\<close>

section \<open>Shift expressions\<close>

text \<open>\<^verbatim>\<open>sc\<close> is the \<^verbatim>\<open>INT8\<close> shift count as an integer.\<close>

definition shl_c :: "u32 \<Rightarrow> int \<Rightarrow> u32" where
  "shl_c x sc = (if sc < 32 then push_bit (nat sc) x else 0)"

definition lshift :: "u32 \<Rightarrow> int \<Rightarrow> u32" where
  "lshift x sc = (if sc > 0 then shl_c x sc else if sc > -32 then drop_bit (nat (- sc)) x else 0)"

definition ashift :: "u32 \<Rightarrow> int \<Rightarrow> u32" where
  "ashift x sc =
     (if sc > 0 then shl_c x sc
      else if sc > -32 then signed_drop_bit (nat (- sc)) x else signed_drop_bit 31 x)"

definition norm_hi :: "u32 \<Rightarrow> u32 \<Rightarrow> int \<Rightarrow> u32 option" where
  "norm_hi a x sc =
     (if sc > 0 then
        (if sc - 1 < 32
         then Some (signed_drop_bit (nat (sc - 1)) (drop_bit 1 x OR push_bit 28 (a AND CFLAG)))
         else None)
      else Some (if sc > -32 then push_bit (nat (- sc)) x else 0))"

definition norm_lo :: "u32 \<Rightarrow> int \<Rightarrow> u32" where
  "norm_lo x sc =
     (if sc > 0 then if sc < 32 then drop_bit (nat sc) x else 0
      else if sc > -32 then push_bit (nat (- sc)) x else 0)"

definition hi_word :: "u16 \<Rightarrow> u32" where "hi_word w = push_bit 16 (ucast w)"

definition put_sr :: "bool \<Rightarrow> u32 \<Rightarrow> adsp2181 \<Rightarrow> adsp2181" where
  "put_sr merge r s = upd_core (\<lambda>c. c\<lparr>sr := (if merge then sr c OR r else r)\<rparr>) s"

text \<open>Arms 0 to 11, which both switch statements have; odd arms OR into SR.\<close>

definition shift_arms :: "adsp2181 \<Rightarrow> nat \<Rightarrow> u16 \<Rightarrow> int \<Rightarrow> adsp2181 option" where
  "shift_arms s n w sc =
     (let merge = odd n in
      if n < 2 then Some (put_sr merge (lshift (hi_word w) sc) s)
      else if n < 4 then Some (put_sr merge (lshift (ucast w) sc) s)
      else if n < 6 then Some (put_sr merge (ashift (hi_word w) sc) s)
      else if n < 8 then Some (put_sr merge (ashift (scast w) sc) s)
      else if n < 10 then map_option (\<lambda>r. put_sr merge r s) (norm_hi (astat s) (hi_word w) sc)
      else Some (put_sr merge (norm_lo (ucast w) sc) s))"

section \<open>Exponent detection\<close>

text \<open>\<^verbatim>\<open>while (b(xop)) res++, xop <<= 1\<close>\<close>

partial_function (option) exp_loop :: "(u32 \<Rightarrow> bool) \<Rightarrow> u32 \<Rightarrow> u32 \<Rightarrow> u32 option" where
  "exp_loop b x r = (if b x then exp_loop b (push_bit 1 x) (r + 1) else Some r)"

definition exp_hi_count :: "u32 \<Rightarrow> u32 option" where
  "exp_hi_count x =
     (if x <s 0 then exp_loop (\<lambda>z. z AND 0x40000000 \<noteq> 0) x 0
      else exp_loop (\<lambda>z. z AND 0x40000000 = 0) (x OR 0x8000) 0)"

definition put_se :: "u32 \<Rightarrow> adsp2181 \<Rightarrow> adsp2181" where
  "put_se r s = upd_core (\<lambda>c. c\<lparr>se := ucast (- r)\<rparr>) s"

definition set_ss :: "bool \<Rightarrow> adsp2181 \<Rightarrow> adsp2181" where
  "set_ss b s = (if b then set_flag_if True SSFLAG s else clr_flag SSFLAG s)"

definition exp_hi :: "adsp2181 \<Rightarrow> u16 \<Rightarrow> adsp2181 option" where
  "exp_hi s w =
     (let x = hi_word w in
      map_option (\<lambda>r. put_se r (set_ss (x <s 0) s)) (exp_hi_count x))"

definition exp_hix :: "adsp2181 \<Rightarrow> u16 \<Rightarrow> adsp2181 option" where
  "exp_hix s w =
     (if astat s AND VFLAG \<noteq> 0
      then Some (upd_core (\<lambda>c. c\<lparr>se := 1\<rparr>) (set_ss (\<not> (hi_word w <s 0)) s))
      else exp_hi s w)"

definition exp_lo :: "adsp2181 \<Rightarrow> u16 \<Rightarrow> adsp2181 option" where
  "exp_lo s w =
     (if sint (se (core s)) = -15 then
        map_option (\<lambda>r. put_se r s)
          (if astat s AND SSFLAG \<noteq> 0
           then exp_loop (\<lambda>z. z AND 0x8000 \<noteq> 0) (scast w) 15
           else exp_loop (\<lambda>z. z AND 0x10000 = 0) (push_bit 1 (scast w) OR 1) 15)
      else Some s)"

text \<open>\<^verbatim>\<open>res < -adsp->core.sb.s\<close> compares an unsigned with a promoted signed value.\<close>

definition exp_adj :: "adsp2181 \<Rightarrow> u16 \<Rightarrow> adsp2181 option" where
  "exp_adj s w =
     map_option (\<lambda>r. if r < - scast (sb (core s))
                     then upd_core (\<lambda>c. c\<lparr>sb := ucast (- r)\<rparr>) s else s)
       (exp_hi_count (hi_word w))"

section \<open>The two switch statements\<close>

abbreviation (input) shift_n :: "u32 \<Rightarrow> nat" where "shift_n op \<equiv> unat (drop_bit 11 op AND 15)"

definition shift_op :: "adsp2181 \<Rightarrow> u32 \<Rightarrow> adsp2181 option" where
  "shift_op s op =
     (let n = shift_n op; w = shift_xreg (core s) (op_x op); sc = sint (ucast (se (core s)) :: u8)
      in if n < 12 then shift_arms s n w sc
         else if n = 12 then exp_hi s w
         else if n = 13 then exp_hix s w
         else if n = 14 then exp_lo s w
         else exp_adj s w)"

definition shift_op_imm :: "adsp2181 \<Rightarrow> u32 \<Rightarrow> adsp2181 option" where
  "shift_op_imm s op =
     (let n = shift_n op; w = shift_xreg (core s) (op_x op); sc = sint (ucast op :: u8)
      in if n < 12 then shift_arms s n w sc else Some s)"

section \<open>The exponent loops end\<close>

lemma exp_loop_steps:
  "\<lbrakk>\<forall>j<n. b (push_bit j x); \<not> b (push_bit n x)\<rbrakk> \<Longrightarrow> exp_loop b x r = Some (r + of_nat n)"
proof (induction n arbitrary: x r)
  case 0
  then show ?case by (simp add: exp_loop.simps)
next
  case (Suc n)
  have "b x" using Suc.prems(1) by force
  moreover have "\<forall>j<n. b (push_bit j (push_bit 1 x))"
    using Suc.prems(1) by (auto simp: push_bit_push_bit add.commute simp del: push_bit_Suc_numeral)
  moreover have "\<not> b (push_bit n (push_bit 1 x))"
    using Suc.prems(2) by (simp add: push_bit_push_bit)
  ultimately show ?case
    using Suc.IH [of "push_bit 1 x" "r + 1"] by (subst exp_loop.simps) (simp add: ac_simps)
qed

text \<open>A loop that ends at or before step \<open>m\<close> ends at the first step whose test fails.\<close>

lemma exp_loop_first:
  assumes "\<not> b (push_bit m x)"
  obtains n where "n \<le> m" "exp_loop b x r = Some (r + of_nat n)"
    "\<forall>j<n. b (push_bit j x)" "\<not> b (push_bit n x)"
proof -
  define n where "n = (LEAST n. \<not> b (push_bit n x))"
  have "\<not> b (push_bit n x)" unfolding n_def using assms by (rule LeastI)
  moreover have "\<forall>j<n. b (push_bit j x)" unfolding n_def using not_less_Least by blast
  moreover have "n \<le> m" unfolding n_def using assms by (rule Least_le)
  ultimately show thesis using that exp_loop_steps by blast
qed


lemma bit_hi_word: "bit (hi_word w) n = (16 \<le> n \<and> bit w (n - 16))"
  by (auto simp: hi_word_def bit_simps dest: bit_imp_le_length)

text \<open>EXP on a high word counts the redundant sign bits: at most 15, and always ends.\<close>

lemma exp_hi_count_hi_word:
  obtains n where "n \<le> 15" "exp_hi_count (hi_word w) = Some (of_nat n)"
    "\<forall>j<n. bit (hi_word w) (30 - j) = bit (hi_word w) 31"
    "w \<noteq> 0 \<Longrightarrow> bit (hi_word w) (30 - n) \<noteq> bit (hi_word w) 31"
proof (cases "bit (hi_word w) 31")
  case True
  have "\<not> push_bit 15 (hi_word w) AND 0x40000000 \<noteq> 0"
    by (simp add: u32_bit_tests bit_simps bit_hi_word)
  then obtain n where n: "n \<le> 15"
    "exp_loop (\<lambda>z. z AND 0x40000000 \<noteq> 0) (hi_word w) 0 = Some (0 + of_nat n)"
    "\<forall>j<n. push_bit j (hi_word w) AND 0x40000000 \<noteq> 0"
    "\<not> push_bit n (hi_word w) AND 0x40000000 \<noteq> 0"
    by (rule exp_loop_first)
  then show ?thesis using True
    by (intro that [of n]) (auto simp: exp_hi_count_def sless_0_bit u32_bit_tests bit_simps)
next
  case False
  define x where "x = hi_word w OR 0x8000"
  have "\<not> push_bit 15 x AND 0x40000000 = 0"
    by (simp add: u32_bit_tests bit_simps bit_hi_word x_def bit_0x8000)
  then obtain n where n: "n \<le> 15"
    "exp_loop (\<lambda>z. z AND 0x40000000 = 0) x 0 = Some (0 + of_nat n)"
    "\<forall>j<n. push_bit j x AND 0x40000000 = 0" "\<not> push_bit n x AND 0x40000000 = 0"
    by (rule exp_loop_first)
  have zero: "\<not> bit (hi_word w) (30 - j)" if "j < n" for j
    using n(3) that n(1) by (auto simp: u32_bit_tests bit_simps x_def)
  have "n \<noteq> 15" if "w \<noteq> 0"
  proof
    assume "n = 15"
    have "\<not> bit w k" for k
    proof (cases "k < 15")
      case True
      then show ?thesis using zero [of "14 - k"] \<open>n = 15\<close> by (simp add: bit_hi_word)
    next
      case False
      with \<open>\<not> bit (hi_word w) 31\<close> show ?thesis
        by (cases "k = 15") (auto simp: bit_hi_word dest: bit_imp_le_length)
    qed
    then have "w = 0" by (simp add: bit_eq_iff)
    with that show False by simp
  qed
  moreover have "bit x (30 - n)" using n(1,4) by (simp add: u32_bit_tests bit_simps)
  ultimately have "w \<noteq> 0 \<Longrightarrow> bit (hi_word w) (30 - n)"
    using n(1) unfolding x_def bit_or_iff bit_0x8000 by linarith
  moreover have "exp_hi_count (hi_word w) = Some (of_nat n)"
    using n(2) False by (simp add: exp_hi_count_def sless_0_bit x_def)
  ultimately show ?thesis using n(1) zero False by (intro that [of n]) auto
qed

lemma exp_hi_count_bound:
  obtains r where "exp_hi_count (hi_word w) = Some r" "r \<le> 15"
proof -
  obtain n where "n \<le> 15" "exp_hi_count (hi_word w) = Some (of_nat n)"
    by (rule exp_hi_count_hi_word)
  then show thesis using that [of "of_nat n"] by (simp add: word_le_nat_alt unat_of_nat)
qed

lemma exp_lo_count:
  fixes w :: u16
  shows "\<exists>r. (if ss then exp_loop (\<lambda>z. z AND 0x8000 \<noteq> 0) (scast w) 15
      else exp_loop (\<lambda>z. z AND 0x10000 = 0) (push_bit 1 (scast w) OR 1) 15) = Some r
    \<and> 15 \<le> r \<and> r \<le> 31"
proof -
  have bnd: "15 \<le> (15 + of_nat n :: u32) \<and> (15 + of_nat n :: u32) \<le> 31" if "n \<le> 16" for n
    using that by (simp add: word_le_nat_alt unat_word_ariths unat_of_nat)
  show ?thesis
  proof (cases ss)
    case True
    have "\<not> push_bit 16 (scast w :: u32) AND 0x8000 \<noteq> 0" by (simp add: u32_bit_tests bit_simps)
    then obtain n where "n \<le> 16"
      "exp_loop (\<lambda>z. z AND 0x8000 \<noteq> 0) (scast w) 15 = Some (15 + of_nat n)"
      by (rule exp_loop_first)
    then show ?thesis using True bnd by auto
  next
    case False
    have "\<not> push_bit 16 (push_bit 1 (scast w :: u32) OR 1) AND 0x10000 = 0"
      by (simp add: u32_bit_tests bit_simps)
    then obtain n where "n \<le> 16"
      "exp_loop (\<lambda>z. z AND 0x10000 = 0) (push_bit 1 (scast w) OR 1) 15 = Some (15 + of_nat n)"
      by (rule exp_loop_first)
    then show ?thesis using False bnd by auto
  qed
qed

section \<open>When the shifter is defined, and what it computes\<close>

lemma norm_hi_None: "norm_hi a x sc = None \<longleftrightarrow> 32 < sc"
  by (auto simp: norm_hi_def)

lemma exp_total:
  "\<exists>s'. exp_hi s w = Some s'" "\<exists>s'. exp_hix s w = Some s'" "\<exists>s'. exp_lo s w = Some s'"
  "\<exists>s'. exp_adj s w = Some s'"
proof -
  obtain r where "exp_hi_count (hi_word w) = Some r" "r \<le> 15" by (rule exp_hi_count_bound)
  then show "\<exists>s'. exp_hi s w = Some s'" "\<exists>s'. exp_hix s w = Some s'" "\<exists>s'. exp_adj s w = Some s'"
    by (simp_all add: exp_hi_def exp_hix_def exp_adj_def)
  show "\<exists>s'. exp_lo s w = Some s'"
    using exp_lo_count [of "astat s AND SSFLAG \<noteq> 0" w] by (auto simp: exp_lo_def)
qed

lemma shift_arms_None:
  assumes "n < 12"
  shows "shift_arms s n w sc = None \<longleftrightarrow> n \<in> {8, 9} \<and> 32 < sc"
proof -
  have "n < 8 \<or> n = 8 \<or> n = 9 \<or> 10 \<le> n" by linarith
  then show ?thesis using assms by (auto simp: shift_arms_def Let_def norm_hi_None)
qed

text \<open>
  The exponent loops of EXP always end, so only NORM (HI) with a count above 32 has no result.
\<close>

lemma shift_op_None:
  "shift_op s op = None \<longleftrightarrow> shift_n op \<in> {8, 9} \<and> 32 < sint (ucast (se (core s)) :: u8)"
  using exp_total [of s "shift_xreg (core s) (op_x op)"] shift_arms_None
  by (auto simp: shift_op_def Let_def)

lemma shift_op_imm_None:
  "shift_op_imm s op = None \<longleftrightarrow> shift_n op \<in> {8, 9} \<and> 32 < sint (ucast op :: u8)"
  using shift_arms_None by (auto simp: shift_op_imm_def Let_def)

lemma sint_hi_word: "sint (hi_word w) = sint w * 2 ^ 16"
proof -
  have "hi_word w = push_bit 16 (scast w)"
    by (rule bit_word_eqI) (auto simp: hi_word_def bit_simps)
  moreover have "sint (push_bit 16 (scast w :: u32)) = sint (scast w :: u32) * 2 ^ 16"
    by (rule sint_push_bit_small) (auto simp: bit_simps)
  ultimately show ?thesis by (simp add: sint_up_scast is_up)
qed

text \<open>
  C9. Normalisation works.  EXP (HI) followed by NORM (HI) on the same nonzero register terminates,
  leaves the number of redundant sign bits \<open>n\<close> (at most 15) negated in SE, and leaves in SR the
  operand times \<open>2^(16+n)\<close>, a value whose two top bits differ: nothing is lost and no redundant
  sign bit is left.
\<close>

theorem exp_norm_normalises:
  assumes "shift_n op = 12" "shift_n op' = 8" "op_x op' = op_x op"
    and "w = shift_xreg (core s) (op_x op)" "w \<noteq> 0"
  shows "\<exists>n s1 s2. shift_op s op = Some s1 \<and> shift_op s1 op' = Some s2
     \<and> n \<le> 15 \<and> sint (se (core s1)) = - int n
     \<and> sint (sr (core s2)) = sint w * 2 ^ (16 + n)
     \<and> bit (sr (core s2)) 31 \<noteq> bit (sr (core s2)) 30"
proof -
  obtain n where n: "n \<le> 15" "exp_hi_count (hi_word w) = Some (of_nat n)"
    "\<forall>j<n. bit (hi_word w) (30 - j) = bit (hi_word w) 31"
    "bit (hi_word w) (30 - n) \<noteq> bit (hi_word w) 31"
    using exp_hi_count_hi_word [of w] assms(5) by metis
  define s1 where "s1 = put_se (of_nat n) (set_ss (hi_word w <s 0) s)"
  have 1: "shift_op s op = Some s1"
    using assms n(2) by (simp add: shift_op_def exp_hi_def s1_def)
  have se: "se (core s1) = - of_nat n"
    using ucast_down_wi [of "- int n", where 'a = 32 and 'b = 16]
    by (simp add: s1_def put_se_def is_down)
  have "shift_xreg (core s1) (op_x op) = w"
    using assms(4) by (simp add: s1_def put_se_def set_ss_def shift_xreg_def set_flag_if_def clr_flag_def
      set_astat_def mr0_def mr1_def mr2_def sr0_def sr1_def)
  moreover have "sint (ucast (se (core s1)) :: u8) = - int n"
    unfolding se using n(1) sint_ucast_neg [of n, where 'a = 8 and 'b = 16] by simp
  ultimately have 2: "shift_op s1 op' = Some (put_sr False (push_bit n (hi_word w)) s1)"
    using assms n(1) by (simp add: shift_op_def shift_arms_def norm_hi_def)
  have "sint (push_bit n (hi_word w)) = sint w * 2 ^ (16 + n)"
    using sint_push_bit_small [of n "hi_word w"] n by (simp add: sint_hi_word power_add)
  moreover have "bit (push_bit n (hi_word w)) 31 \<noteq> bit (push_bit n (hi_word w)) 30"
  proof -
    have "bit (hi_word w) (31 - n) = bit (hi_word w) 31"
      using n(1) spec [OF n(3), of "n - 1"] by (cases "n = 0") auto
    then show ?thesis using n(1,4) by (simp add: bit_push_bit_iff)
  qed
  moreover have "sint (se (core s1)) = - int n"
    unfolding se using n(1) sint_ucast_neg [of n, where 'a = 16 and 'b = 16] by simp
  ultimately show ?thesis using 1 2 n(1) by (auto simp: put_sr_def)
qed

theorem exp_norm_normalises_witness:
  "\<exists>n s1 s2. shift_op (adsp2181_zero\<lparr>core := adspcore_zero\<lparr>si := 0xfff3\<rparr>\<rparr>) 0x6000 = Some s1
     \<and> shift_op s1 0x4000 = Some s2 \<and> n \<le> 15 \<and> sint (se (core s1)) = - int n
     \<and> sint (sr (core s2)) = - 13 * 2 ^ (16 + n) \<and> bit (sr (core s2)) 31 \<noteq> bit (sr (core s2)) 30"
  using exp_norm_normalises [of "0x6000" "0x4000" "0xfff3" "adsp2181_zero\<lparr>core := adspcore_zero\<lparr>si := 0xfff3\<rparr>\<rparr>"]
  by (simp add: shift_xreg_def)

end
