(* ===== verification/Execute.thy ===== *)
theory Execute
  imports Shifter
begin

text \<open>
  \<^verbatim>\<open>execute\<close> of \<^verbatim>\<open>adsp2181_core.c\<close>: fetch with its instrumentation, the program-counter and
  loop logic, the instruction switch (one definition per sixteen- or thirty-two-opcode block) and
  the instruction loop.  \<open>None\<close> is C undefined behaviour, which only the shifter can reach.
\<close>

section \<open>Before the switch\<close>

definition note_history :: "adsp2181 \<Rightarrow> adsp2181" where
  "note_history s =
     (if exec_history_enabled (ins s) then
        upd_ins (\<lambda>n. n\<lparr>exec_history := (exec_history n)(unat (exec_history_pos n AND 63)
                         := ucast (pc s AND 0x3fff)),
                      exec_history_pos := exec_history_pos n + 1\<rparr>) s
      else s)"

definition note_coverage :: "adsp2181 \<Rightarrow> adsp2181" where
  "note_coverage s =
     (let a = pc s AND 0x3fff in
      if coverage_on (ins s)
      then upd_ins (\<lambda>n. n\<lparr>coverage := (coverage n)(a := coverage n a + 1)\<rparr>) s else s)"

definition note_watch_exec :: "adsp2181 \<Rightarrow> adsp2181" where
  "note_watch_exec s =
     (let a = pc s AND 0x3fff; left = watch_exec_left (ins s) a in
      if watch_gate (ins s) \<and> watch_exec (ins s) a then
        (let s1 = (if left \<noteq> 0 then
                     upd_ins (\<lambda>n. n\<lparr>watch_exec_left := (watch_exec_left n)(a := left - 1)\<rparr>) s
                   else s);
             s2 = (if left \<noteq> 0 \<and> left - 1 = 0 then
                     emit (Log_exec_spent a)
                       (upd_ins (\<lambda>n. n\<lparr>watch_exec := (watch_exec n)(a := False)\<rparr>) s1)
                   else s1)
         in emit (Log_exec a) s2)
      else s)"

definition note_trace :: "u32 \<Rightarrow> adsp2181 \<Rightarrow> adsp2181" where
  "note_trace op s =
     (if trace_budget (ins s) > 0 then
        emit (Log_trace (pc s AND 0x3fff) op)
          (upd_ins (\<lambda>n. n\<lparr>trace_budget := trace_budget n - 1\<rparr>) s)
      else s)"

definition advance_pc :: "adsp2181 \<Rightarrow> adsp2181" where
  "advance_pc s =
     (if pc s \<noteq> loop_end s then s\<lparr>pc := pc s + 1\<rparr>
      else
        (let (again, s1) = CONDITION s (loop_condition s) in
         if again then s1\<lparr>pc := pc_stack_top s1\<rparr>
         else
           (let s2 = snd (pc_stack_pop_val (loop_stack_pop s1)) in s2\<lparr>pc := pc s2 + 1\<rparr>)))"

definition fetch :: "adsp2181 \<Rightarrow> u32 \<times> adsp2181" where
  "fetch s =
     (let s1 = s\<lparr>ppc := pc s\<rparr>; op = RWORD_PGM s1 (pc s1)
      in (op, advance_pc (note_trace op (note_watch_exec (note_coverage (note_history s1))))))"

section \<open>The instruction switch\<close>

abbreviation (input) op_lo :: "u32 \<Rightarrow> nat" where "op_lo op \<equiv> unat (op AND 15)"
abbreviation (input) op_mid :: "u32 \<Rightarrow> nat" where "op_mid op \<equiv> unat (drop_bit 4 op AND 15)"
abbreviation (input) op_addr :: "u32 \<Rightarrow> u32" where "op_addr op \<equiv> drop_bit 4 op AND 0x3fff"

definition when_condition :: "adsp2181 \<Rightarrow> u32 \<Rightarrow> (adsp2181 \<Rightarrow> adsp2181) \<Rightarrow> adsp2181" where
  "when_condition s op f = (let (t, s1) = CONDITION s (op AND 15) in if t then f s1 else s1)"

definition exec_io :: "adsp2181 \<Rightarrow> u32 \<Rightarrow> adsp2181" where
  "exec_io s op =
     (if chip_type s \<ge> 5 then
        if op AND 0x8000 = 0
        then WRITE_REG s 0 (op_lo op) (ucast (RWORD_IO s (drop_bit 4 op AND 0x7ff)))
        else (let (v, s1) = READ_REG s 0 (op_lo op) in WWORD_IO s1 (drop_bit 4 op AND 0x7ff) (ucast v))
      else s)"

definition flag_change :: "u32 \<Rightarrow> u32 \<Rightarrow> u32 \<Rightarrow> bool \<Rightarrow> bool" where
  "flag_change op clr tog f =
     (let f1 = (if op AND clr \<noteq> 0 then False else f) in if op AND tog \<noteq> 0 then \<not> f1 else f1)"

definition exec_flags :: "adsp2181 \<Rightarrow> u32 \<Rightarrow> adsp2181" where
  "exec_flags s op =
     (if op AND 0x8000 \<noteq> 0 then s\<lparr>idle := True, icount := 0\<rparr>
      else when_condition s op (\<lambda>s.
        (let s1 = s\<lparr>flagout := flag_change op 0x020 0x010 (flagout s)\<rparr>
         in if chip_type s1 \<ge> 1 then
              s1\<lparr>fl0 := flag_change op 0x080 0x040 (fl0 s1),
                 fl1 := flag_change op 0x200 0x100 (fl1 s1),
                 fl2 := flag_change op 0x800 0x400 (fl2 s1)\<rparr>
            else s1)))"

definition exec_flagin :: "adsp2181 \<Rightarrow> u32 \<Rightarrow> adsp2181" where
  "exec_flagin s op =
     (if (op AND 2 \<noteq> 0) = flagin s then
        (let s1 = (if op AND 1 \<noteq> 0 then pc_stack_push s else s)
         in s1\<lparr>pc := (drop_bit 4 op AND 0x0fff) OR (push_bit 10 op AND 0x3000)\<rparr>)
      else s)"

definition exec_stack_control :: "adsp2181 \<Rightarrow> u32 \<Rightarrow> adsp2181" where
  "exec_stack_control s op =
     (if op AND 0xffff = 0x0040 then s\<lparr>interrupts_enabled := False\<rparr>
      else if op AND 0xffff = 0x0060 then check_irqs (s\<lparr>interrupts_enabled := True\<rparr>)
      else
        (let s1 = (if op AND 0x10 \<noteq> 0 then snd (pc_stack_pop_val s) else s);
             s2 = (if op AND 0x08 \<noteq> 0 then loop_stack_pop s1 else s1);
             s3 = (if op AND 0x04 \<noteq> 0 then cntr_stack_pop s2 else s2)
         in if op AND 0x02 \<noteq> 0
            then if op AND 0x01 \<noteq> 0 then stat_stack_pop s3 else stat_stack_push s3
            else s3))"

definition exec_return :: "adsp2181 \<Rightarrow> u32 \<Rightarrow> adsp2181" where
  "exec_return s op =
     when_condition s op (\<lambda>s. let s1 = pc_stack_pop s
                              in if op AND 0x10 \<noteq> 0 then stat_stack_pop s1 else s1)"

definition exec_jump_indirect :: "adsp2181 \<Rightarrow> u32 \<Rightarrow> adsp2181" where
  "exec_jump_indirect s op =
     when_condition s op (\<lambda>s. let s1 = (if op AND 0x10 \<noteq> 0 then pc_stack_push s else s)
                              in s1\<lparr>pc := dag_i s1 (4 + unat (drop_bit 6 op AND 3)) AND 0x3fff\<rparr>)"

definition put_mode :: "u32 \<Rightarrow> u32 \<Rightarrow> u32 \<Rightarrow> u32 \<Rightarrow> u32 \<Rightarrow> u32" where
  "put_mode op sel b v m = (if op AND sel \<noteq> 0 then (m AND NOT b) OR (v AND b) else m)"

definition exec_mode :: "adsp2181 \<Rightarrow> u32 \<Rightarrow> adsp2181" where
  "exec_mode s op =
     (let m0 = mstat s;
          m1 = (if chip_type s \<ge> 1 then
                  put_mode op 0x8000 MSTAT_TIMER (drop_bit 9 op)
                    (put_mode op 0x2000 MSTAT_INTEGER (drop_bit 8 op)
                      (put_mode op 0x0008 MSTAT_GOMODE (push_bit 5 op) m0))
                else m0);
          m2 = put_mode op 0x0020 MSTAT_BANK (drop_bit 4 op) m1;
          m3 = put_mode op 0x0080 MSTAT_REVERSE (drop_bit 5 op) m2;
          m4 = put_mode op 0x0200 MSTAT_STICKYV (drop_bit 6 op) m3;
          m5 = put_mode op 0x0800 MSTAT_SATURATE (drop_bit 7 op) m4
      in update_mstat (s\<lparr>mstat := m5\<rparr>))"

definition exec_move :: "adsp2181 \<Rightarrow> u32 \<Rightarrow> adsp2181" where
  "exec_move s op =
     (let (v, s1) = READ_REG s (unat (drop_bit 8 op AND 3)) (op_lo op)
      in WRITE_REG s1 (unat (drop_bit 10 op AND 3)) (op_mid op) v)"

definition exec_00_0f :: "adsp2181 \<Rightarrow> u32 \<Rightarrow> adsp2181 option" where
  "exec_00_0f s op =
     (let h = unat (drop_bit 16 op) in
      if h = 0x00 then Some s
      else if h = 0x01 then Some (exec_io s op)
      else if h = 0x02 then Some (exec_flags s op)
      else if h = 0x03 then Some (exec_flagin s op)
      else if h = 0x04 then Some (exec_stack_control s op)
      else if h = 0x05 then Some (saturate_mr s)
      else if h = 0x06 then Some (DIVS s op)
      else if h = 0x07 then Some (DIVQ s op)
      else if h = 0x08 then Some s
      else if h = 0x09 then
        (let t = unat (drop_bit 2 op AND 4)
         in Some (modify_address s (t + op_i op) (t + op_m op)))
      else if h = 0x0a then Some (exec_return s op)
      else if h = 0x0b then Some (exec_jump_indirect s op)
      else if h = 0x0c then Some (exec_mode s op)
      else if h = 0x0d then Some (exec_move s op)
      else if h = 0x0e then
        (let (t, s1) = CONDITION s (op AND 15) in if t then shift_op s1 op else Some s1)
      else shift_op_imm s op)"

definition exec_shift_read :: "(adsp2181 \<Rightarrow> u32 \<Rightarrow> u32 \<times> adsp2181) \<Rightarrow> adsp2181 \<Rightarrow> u32 \<Rightarrow> adsp2181 option" where
  "exec_shift_read rd s op =
     map_option (\<lambda>s1. let (v, s2) = rd s1 op in WRITE_REG s2 0 (op_mid op) v) (shift_op s op)"

definition exec_shift_write ::
  "(adsp2181 \<Rightarrow> u32 \<Rightarrow> u32 \<Rightarrow> adsp2181) \<Rightarrow> adsp2181 \<Rightarrow> u32 \<Rightarrow> adsp2181 option" where
  "exec_shift_write wr s op =
     (let (v, s1) = READ_REG s 0 (op_mid op) in shift_op (wr s1 op v) op)"

definition exec_10_1f :: "adsp2181 \<Rightarrow> u32 \<Rightarrow> adsp2181 option" where
  "exec_10_1f s op =
     (let h = unat (drop_bit 16 op) in
      if h = 0x10 then
        (let (v, s1) = READ_REG s 0 (op_lo op)
         in map_option (\<lambda>s2. WRITE_REG s2 0 (op_mid op) v) (shift_op s1 op))
      else if h = 0x11 then
        (if op AND 0x8000 \<noteq> 0 then exec_shift_write pgm_write_dag2 s op
         else exec_shift_read pgm_read_dag2 s op)
      else if h = 0x12 then
        (if op AND 0x8000 \<noteq> 0 then exec_shift_write data_write_dag1 s op
         else exec_shift_read data_read_dag1 s op)
      else if h = 0x13 then
        (if op AND 0x8000 \<noteq> 0 then exec_shift_write data_write_dag2 s op
         else exec_shift_read data_read_dag2 s op)
      else if h < 0x18 then Some (pc_stack_push (loop_stack_push s (op AND 0x3ffff)))
      else if h < 0x1c then
        Some (when_condition s op (\<lambda>s. let s1 = s\<lparr>pc := op_addr op\<rparr>
                in if pc s1 = ppc s1 then s1\<lparr>icount := 0\<rparr> else s1))
      else Some (when_condition s op (\<lambda>s. (pc_stack_push s)\<lparr>pc := op_addr op\<rparr>)))"

text \<open>The unit selected by bits 17 and 18: MAC to MR, ALU to AR, MAC to MF, ALU to AF.\<close>

definition compute_op :: "adsp2181 \<Rightarrow> u32 \<Rightarrow> adsp2181" where
  "compute_op s op =
     (let k = drop_bit 17 op AND 3 in
      if k = 0 then mac_op_mr s op else if k = 1 then alu_op_ar s op
      else if k = 2 then mac_op_mf s op else alu_op_af s op)"

definition compute_op_218x :: "adsp2181 \<Rightarrow> u32 \<Rightarrow> adsp2181" where
  "compute_op_218x s op =
     (let k = drop_bit 17 op AND 3;
          xop = chip_type s \<ge> 5 \<and> op AND 0x0018f0 = 0x000010;
          con = chip_type s \<ge> 5 \<and> op AND 0x000010 = 0x000010 in
      if k = 0 then if xop then mac_op_mr_xop s op else mac_op_mr s op
      else if k = 1 then if con then alu_op_ar_const s op else alu_op_ar s op
      else if k = 2 then if xop then mac_op_mf_xop s op else mac_op_mf s op
      else if con then alu_op_af_const s op else alu_op_af s op)"

definition exec_compute_move :: "adsp2181 \<Rightarrow> u32 \<Rightarrow> adsp2181" where
  "exec_compute_move s op =
     (if drop_bit 17 op AND 3 = 1 \<and> chip_type s \<ge> 5 \<and> op AND 0x0000ff = 0x0000aa
      then alu_op_none s op
      else (let (v, s1) = READ_REG s 0 (op_lo op) in WRITE_REG (compute_op s1 op) 0 (op_mid op) v))"

definition exec_20_4f :: "adsp2181 \<Rightarrow> u32 \<Rightarrow> adsp2181" where
  "exec_20_4f s op =
     (let h = unat (drop_bit 16 op) in
      if h < 0x28 then when_condition s op (\<lambda>s. compute_op_218x s op)
      else if h < 0x30 then exec_compute_move s op
      else if h < 0x40 then
        WRITE_REG s (unat (drop_bit 18 op AND 3)) (op_lo op) (signed_drop_bit 18 (push_bit 14 op))
      else WRITE_REG s 0 (op_lo op) (drop_bit 4 op AND 0xffff))"

definition exec_compute_read ::
  "(adsp2181 \<Rightarrow> u32 \<Rightarrow> u32 \<times> adsp2181) \<Rightarrow> adsp2181 \<Rightarrow> u32 \<Rightarrow> adsp2181" where
  "exec_compute_read rd s op =
     (let (v, s1) = rd (compute_op s op) op in WRITE_REG s1 0 (op_mid op) v)"

definition exec_compute_write ::
  "(adsp2181 \<Rightarrow> u32 \<Rightarrow> u32 \<Rightarrow> adsp2181) \<Rightarrow> adsp2181 \<Rightarrow> u32 \<Rightarrow> adsp2181" where
  "exec_compute_write wr s op =
     (let (v, s1) = READ_REG s 0 (op_mid op) in compute_op (wr s1 op v) op)"

definition exec_50_7f :: "adsp2181 \<Rightarrow> u32 \<Rightarrow> adsp2181" where
  "exec_50_7f s op =
     (let h = unat (drop_bit 16 op) in
      if h < 0x58 then exec_compute_read pgm_read_dag2 s op
      else if h < 0x60 then exec_compute_write pgm_write_dag2 s op
      else if h < 0x68 then exec_compute_read data_read_dag1 s op
      else if h < 0x70 then exec_compute_write data_write_dag1 s op
      else if h < 0x78 then exec_compute_read data_read_dag2 s op
      else exec_compute_write data_write_dag2 s op)"

definition exec_80_bf :: "adsp2181 \<Rightarrow> u32 \<Rightarrow> adsp2181" where
  "exec_80_bf s op =
     (let h = unat (drop_bit 16 op); g = unat (drop_bit 18 op AND 3) in
      if h < 0x90 then
        (let (v, s1) = RWORD_DATA s (op_addr op) in WRITE_REG s1 g (op_lo op) (ucast v))
      else if h < 0xa0 then
        (let (v, s1) = READ_REG s g (op_lo op) in WWORD_DATA s1 (op_addr op) (ucast v))
      else if h < 0xb0 then data_write_dag1 s op (drop_bit 4 op AND 0xffff)
      else data_write_dag2 s op (drop_bit 4 op AND 0xffff))"

text \<open>Dual fetch: destination of the data read by bits 18 and 19, of the program read by 20 and 21.\<close>

definition put_dual_x :: "u32 \<Rightarrow> u16 \<Rightarrow> adspcore \<Rightarrow> adspcore" where
  "put_dual_x op v c =
     (let k = drop_bit 18 op AND 3 in
      if k = 0 then c\<lparr>ax0 := v\<rparr> else if k = 1 then c\<lparr>ax1 := v\<rparr>
      else if k = 2 then c\<lparr>mx0 := v\<rparr> else c\<lparr>mx1 := v\<rparr>)"

definition put_dual_y :: "u32 \<Rightarrow> u16 \<Rightarrow> adspcore \<Rightarrow> adspcore" where
  "put_dual_y op v c =
     (let k = drop_bit 20 op AND 3 in
      if k = 0 then c\<lparr>ay0 := v\<rparr> else if k = 1 then c\<lparr>ay1 := v\<rparr>
      else if k = 2 then c\<lparr>my0 := v\<rparr> else c\<lparr>my1 := v\<rparr>)"

definition exec_c0_ff :: "adsp2181 \<Rightarrow> u32 \<Rightarrow> adsp2181" where
  "exec_c0_ff s op =
     (let s1 = (if drop_bit 17 op AND 1 = 0 then mac_op_mr s op else alu_op_ar s op);
          (v, s2) = data_read_dag1 s1 op;
          s3 = upd_core (put_dual_x op (ucast v)) s2;
          (w, s4) = pgm_read_dag2 s3 (drop_bit 4 op)
      in upd_core (put_dual_y op (ucast w)) s4)"

definition exec_op :: "adsp2181 \<Rightarrow> u32 \<Rightarrow> adsp2181 option" where
  "exec_op s op =
     (let h = unat (drop_bit 16 op) in
      if h < 0x10 then exec_00_0f s op
      else if h < 0x20 then exec_10_1f s op
      else if h < 0x50 then Some (exec_20_4f s op)
      else if h < 0x80 then Some (exec_50_7f s op)
      else if h < 0xc0 then Some (exec_80_bf s op)
      else if h < 0x100 then Some (exec_c0_ff s op)
      else Some s)"

definition exec_step :: "adsp2181 \<Rightarrow> adsp2181 option" where
  "exec_step s =
     (let (op, s1) = fetch s in
      map_option (\<lambda>s2. upd_ins (\<lambda>n. n\<lparr>cycles := cycles n + 1\<rparr>) (s2\<lparr>icount := icount s2 - 1\<rparr>))
        (exec_op s1 op))"

end
