(* ===== verification/Invariants.thy ===== *)
theory Invariants
  imports Execute
begin

text \<open>
  A proof rule for the instruction set.  The locale \<open>exec_invariant\<close> lists the primitive state
  changes instructions are made of; a predicate that survives each of them survives every
  instruction (\<open>exec_op_keeps\<close>).  It is interpreted for the cycle budget (which makes the
  instruction loop terminate), for the well-formedness of the register file, for the agreement
  of the stacks with SSTAT and the loop registers, and for the configured holds.
\<close>

section \<open>Register-bank well-formedness\<close>

text \<open>MR holds a sign-extended 40-bit value, SE a sign-extended 8-bit one, the zero operand is 0.\<close>

definition wf_core :: "adspcore \<Rightarrow> bool" where
  "wf_core c \<longleftrightarrow> czero c = 0 \<and> sign_extend_mr40 (mr c) = mr c \<and> scast (ucast (se c) :: u8) = se c"

lemma bit_sign_extend_mr40:
  "bit (sign_extend_mr40 v) n \<longleftrightarrow> n < 64 \<and> bit v (if n < 40 then n else 39)"
proof -
  have m: "push_bit 40 1 - 1 = (mask 40 :: u64)" by (simp add: mask_eq_exp_minus_1)
  have t: "(v AND mask 40) AND push_bit 39 1 \<noteq> 0 \<longleftrightarrow> bit v 39"
    using and_power_test [of 39 "v AND mask 40"] by (simp add: bit_simps)
  have "sign_extend_mr40 v = (if bit v 39 then (v AND mask 40) OR NOT (mask 40) else v AND mask 40)"
    unfolding sign_extend_mr40_def Let_def m t ..
  then show ?thesis by (auto simp: bit_simps not_less dest: bit_imp_le_length)
qed

lemma sign_extend_mr40_idem [simp]: "sign_extend_mr40 (sign_extend_mr40 v) = sign_extend_mr40 v"
  by (rule bit_word_eqI) (auto simp: bit_sign_extend_mr40)

lemma sign_extend_mr40_put_low:
  "sign_extend_mr40 w = w \<Longrightarrow> sign_extend_mr40 (put16 0 v w) = put16 0 v w"
proof -
  assume a: "sign_extend_mr40 w = w"
  have top: "bit w n = bit w 39" if "40 \<le> n" "n < 64" for n
    using bit_sign_extend_mr40 [of w n] that unfolding a by simp
  have put: "bit (put16 0 v w) n = bit w n" if "16 \<le> n" for n
    using that by (auto simp: put16_mask bit_simps dest: bit_imp_le_length)
  show ?thesis
  proof (rule bit_word_eqI)
    fix n assume "n < LENGTH(64)"
    then show "bit (sign_extend_mr40 (put16 0 v w)) n = bit (put16 0 v w) n"
      using top [of n] put [of n] put [of 39] by (cases "n < 40") (auto simp: bit_sign_extend_mr40)
  qed
qed

lemma scast_ucast_u8: "scast (ucast (scast (b :: u8) :: u16) :: u8) = (scast b :: u16)"
proof -
  have "ucast (scast b :: u16) = b" by (rule bit_word_eqI) (auto simp: bit_simps)
  then show ?thesis by simp
qed

lemma wf_core_updates [simp]:
  "wf_core (c\<lparr>ax0 := v\<rparr>) = wf_core c" "wf_core (c\<lparr>ax1 := v\<rparr>) = wf_core c"
  "wf_core (c\<lparr>ay0 := v\<rparr>) = wf_core c" "wf_core (c\<lparr>ay1 := v\<rparr>) = wf_core c"
  "wf_core (c\<lparr>ar := v\<rparr>) = wf_core c" "wf_core (c\<lparr>af := v\<rparr>) = wf_core c"
  "wf_core (c\<lparr>mx0 := v\<rparr>) = wf_core c" "wf_core (c\<lparr>mx1 := v\<rparr>) = wf_core c"
  "wf_core (c\<lparr>my0 := v\<rparr>) = wf_core c" "wf_core (c\<lparr>my1 := v\<rparr>) = wf_core c"
  "wf_core (c\<lparr>mf := v\<rparr>) = wf_core c" "wf_core (c\<lparr>si := v\<rparr>) = wf_core c"
  "wf_core (c\<lparr>sb := v\<rparr>) = wf_core c" "wf_core (c\<lparr>sr := x\<rparr>) = wf_core c"
  "wf_core (set_sr0 v c) = wf_core c" "wf_core (set_sr1 v c) = wf_core c"
  "wf_core c \<Longrightarrow> wf_core (c\<lparr>mr := sign_extend_mr40 y\<rparr>)"
  "wf_core c \<Longrightarrow> wf_core (c\<lparr>se := scast (b :: u8)\<rparr>)"
  "wf_core c \<Longrightarrow> wf_core (set_mr0 v c)"
  by (simp_all add: wf_core_def set_sr0_def set_sr1_def set_mr0_def scast_ucast_u8
      sign_extend_mr40_put_low)

lemma wf_core_normalize [simp]:
  assumes "wf_core c"
  shows "wf_core (normalize_mr (set_mr1 v c))" "wf_core (normalize_mr (set_mr2 v c))"
    "wf_core (normalize_mr (set_mr2 u (set_mr1 v c)))"
    "wf_core (normalize_mr (set_mr0 u (set_mr1 v (set_mr2 w c))))"
  using assms
  by (simp_all add: wf_core_def normalize_mr_def set_mr0_def set_mr1_def set_mr2_def)

lemma wf_core_se_small [simp]:
  assumes "wf_core c" "n \<le> 31"
  shows "wf_core (c\<lparr>se := ucast (- n :: u32)\<rparr>)"
proof -
  define k where "k = unat n"
  have k: "k \<le> 31" "n = of_nat k" using assms(2) by (simp_all add: k_def word_le_nat_alt)
  have "ucast (- n) = (- of_nat k :: u16)"
    using ucast_down_wi [of "- int k", where 'a = 32 and 'b = 16] k by (simp add: is_down)
  moreover have "scast (ucast (- of_nat k :: u16) :: u8) = (- of_nat k :: u16)"
    using sint_ucast_neg [of k, where 'a = 8 and 'b = 16] k(1)
      of_int_sint [of "ucast (- of_nat k :: u16) :: u8", where 'a = "16 word", symmetric] by simp
  ultimately show ?thesis using assms(1) by (simp add: wf_core_def)
qed

lemma astat_bounds:
  fixes a b :: u32
  shows "a < 256 \<Longrightarrow> b < 256 \<Longrightarrow> a OR b < 256" "a < 256 \<Longrightarrow> a AND m < 256"
    "CALC_N r < 256" "CALC_Z r < 256" "CALC_V x d r < 256" "CALC_C r < 256" "CALC_C_SUB r < 256"
  using or_less_power [of a 8 b] and_less_power [of a 8 m]
  by (simp_all add: CALC_N_def CALC_Z_def CALC_V_def CALC_C_def CALC_C_SUB_def word_and_less)

lemma astat_q_bound: "a < 256 \<Longrightarrow> (a AND m) OR (y AND 0x20) < (256 :: u32)"
  by (intro astat_bounds word_and_less) simp_all

lemma put_mode_bound: "m < 128 \<Longrightarrow> b < 128 \<Longrightarrow> put_mode op sel b v m < 128"
  using or_less_power [of "m AND NOT b" 7 "v AND b"] and_less_power [of m 7 "NOT b"]
    word_and_less [of b 128 v] by (simp add: put_mode_def)

lemma pc_stack_push_eq: "pc_stack_push s = pc_stack_push_val s (pc s)"
  by (cases "pc_sp s < PC_STACK_DEPTH")
    (simp_all add: pc_stack_push_def pc_stack_push_val_def note_pcsp_def Let_def)

section \<open>Invariants of the instruction set\<close>

text \<open>
  What the host configures (pins, forced fetches) and the cycle counter.  Instructions change
  other parts of the instrumentation only.
\<close>

definition settings :: "instr_state \<Rightarrow> u64 \<times> (u32 \<Rightarrow> bool) \<times> (u32 \<Rightarrow> u16) \<times> (u32 \<Rightarrow> bool) \<times> (u32 \<Rightarrow> u32)
    \<times> (u32 \<Rightarrow> bool) \<times> (u32 \<Rightarrow> u32)" where
  "settings n = (cycles n, pin_dm n, pin_dm_value n, pin_pm n, pin_pm_value n, force_pm_fetch n,
     force_pm_fetch_value n)"

definition quiet :: "(instr_state \<Rightarrow> instr_state) \<Rightarrow> bool" where
  "quiet g \<longleftrightarrow> (\<forall>n. settings (g n) = settings n)"

lemma quiet_eq [simp]: "quiet g \<Longrightarrow> settings (g n) = settings n"
  by (simp add: quiet_def)

lemma settings_stages [simp]:
  "settings (ins (watch_dm_charge s x)) = settings (ins s)"
  "settings (ins (snd (dm_apply_pin s x v))) = settings (ins s)"
  "settings (ins (dm_latch s x v)) = settings (ins s)"
  "settings (ins (dm_stop s x)) = settings (ins s)"
  "settings (ins (dm_count_write s x)) = settings (ins s)"
  "settings (ins (dm_watch_write s x v)) = settings (ins s)"
  "settings (ins (snd (pm_apply_pin s x y))) = settings (ins s)"
  by (simp_all add: settings_def dm_apply_pin_def dm_latch_def dm_stop_def dm_count_write_def
      dm_watch_write_def pm_apply_pin_def Let_def watch_dm_charge_def)

lemma settings_access [simp]:
  "settings (ins (snd (RWORD_DATA s x))) = settings (ins s)"
  "settings (ins (WWORD_DATA s x v)) = settings (ins s)"
  "settings (ins (WWORD_PGM s x y)) = settings (ins s)"
  by (simp_all add: RWORD_DATA_def WWORD_DATA_def WWORD_PGM_def Let_def case_prod_beta)

locale exec_invariant =
  fixes P :: "adsp2181 \<Rightarrow> bool"
  assumes P_emit: "P s \<Longrightarrow> P (emit e s)"
    and P_ins: "\<lbrakk>P s; quiet g\<rbrakk> \<Longrightarrow> P (upd_ins g s)"
    and P_core: "\<lbrakk>P s; wf_core (core s) \<Longrightarrow> wf_core (f (core s))\<rbrakk> \<Longrightarrow> P (upd_core f s)"
    and P_astat: "\<lbrakk>P s; astat s < 256 \<Longrightarrow> h (astat s) < 256\<rbrakk> \<Longrightarrow> P (set_astat h s)"
    and P_mstat: "\<lbrakk>P s; mstat_mask s = 0x7f \<Longrightarrow> mstat s < 128 \<Longrightarrow> v < 128\<rbrakk>
          \<Longrightarrow> P (update_mstat (s\<lparr>mstat := v\<rparr>))"
    and P_imask: "\<lbrakk>P s; imask_mask s = 0x3ff \<Longrightarrow> imask s < 0x400 \<Longrightarrow> k < 0x400\<rbrakk>
          \<Longrightarrow> P (s\<lparr>imask := k\<rparr>)"
    and P_pc: "P s \<Longrightarrow> P (s\<lparr>pc := x\<rparr>)"
    and P_ppc: "P s \<Longrightarrow> P (s\<lparr>ppc := x\<rparr>)"
    and P_halt: "P s \<Longrightarrow> P (s\<lparr>icount := 0\<rparr>)"
    and P_idle: "P s \<Longrightarrow> P (s\<lparr>idle := b\<rparr>)"
    and P_cntr: "P s \<Longrightarrow> P (s\<lparr>cntr := x\<rparr>)"
    and P_cntr_valid: "P s \<Longrightarrow> P (s\<lparr>cntr_valid := b\<rparr>)"
    and P_flagout: "P s \<Longrightarrow> P (s\<lparr>flagout := b\<rparr>)"
    and P_fl0: "P s \<Longrightarrow> P (s\<lparr>fl0 := b\<rparr>)"
    and P_fl1: "P s \<Longrightarrow> P (s\<lparr>fl1 := b\<rparr>)"
    and P_fl2: "P s \<Longrightarrow> P (s\<lparr>fl2 := b\<rparr>)"
    and P_px: "P s \<Longrightarrow> P (s\<lparr>px := q\<rparr>)"
    and P_icntl: "P s \<Longrightarrow> P (s\<lparr>icntl := ucast (x AND 0x1f)\<rparr>)"
    and P_ifc: "P s \<Longrightarrow> P (s\<lparr>ifc := k\<rparr>)"
    and P_irq_latch: "P s \<Longrightarrow> P (s\<lparr>irq_latch := l\<rparr>)"
    and P_interrupts: "P s \<Longrightarrow> P (s\<lparr>interrupts_enabled := b\<rparr>)"
    and P_sport_rx: "P s \<Longrightarrow> P (s\<lparr>sport_rx := r\<rparr>)"
    and P_sport_tx: "P s \<Longrightarrow> P (s\<lparr>sport_tx := r\<rparr>)"
    and P_sport_tx_written: "P s \<Longrightarrow> P (s\<lparr>sport_tx_written := t\<rparr>)"
    and P_pmovlay: "P s \<Longrightarrow> P (s\<lparr>pmovlay := ucast (x AND 3)\<rparr>)"
    and P_dmovlay: "P s \<Longrightarrow> P (s\<lparr>dmovlay := ucast (x AND 3)\<rparr>)"
    and P_wr_i: "P s \<Longrightarrow> P (wr_i n s x)"
    and P_wr_m: "P s \<Longrightarrow> P (wr_m n s x)"
    and P_wr_l: "P s \<Longrightarrow> P (wr_l n s x)"
    and P_modify: "P s \<Longrightarrow> P (modify_address s n m)"
    and P_push: "P s \<Longrightarrow> P (pc_stack_push_val s x)"
    and P_pop: "P s \<Longrightarrow> P (snd (pc_stack_pop_val s))"
    and P_cntr_push: "P s \<Longrightarrow> P (cntr_stack_push s)"
    and P_cntr_pop: "P s \<Longrightarrow> P (cntr_stack_pop s)"
    and P_loop_push: "\<lbrakk>P s; x < 0x40000\<rbrakk> \<Longrightarrow> P (loop_stack_push s x)"
    and P_loop_pop: "P s \<Longrightarrow> P (loop_stack_pop s)"
    and P_stat_push: "P s \<Longrightarrow> P (stat_stack_push s)"
    and P_stat_restore: "\<lbrakk>P s; 0 < stat_sp s\<rbrakk> \<Longrightarrow> P (stat_restore s)"
    and P_stat_empty: "\<lbrakk>P s; stat_sp s = 0\<rbrakk> \<Longrightarrow> P (s\<lparr>sstat := sstat s OR STATUS_EMPTY\<rparr>)"
    and P_read: "P s \<Longrightarrow> P (snd (RWORD_DATA s x))"
    and P_write: "P s \<Longrightarrow> P (WWORD_DATA s x w)"
    and P_write_pgm: "P s \<Longrightarrow> P (WWORD_PGM s x y)"
    and P_io: "P s \<Longrightarrow> P (WWORD_IO s x w)"
begin

lemmas prims = P_emit P_pc P_ppc P_halt P_idle P_cntr P_cntr_valid P_flagout P_fl0 P_fl1 P_fl2 P_px
  P_icntl P_ifc P_irq_latch P_interrupts P_sport_rx P_sport_tx P_sport_tx_written P_pmovlay
  P_dmovlay P_wr_i P_wr_m P_wr_l P_modify P_push P_pop P_cntr_push P_cntr_pop P_loop_pop
  P_stat_push P_read P_write P_write_pgm P_io

lemma quiet_note_pcsp: "P s \<Longrightarrow> P (note_pcsp s)"
  unfolding note_pcsp_def by (rule P_ins) (simp_all add: quiet_def settings_def)

lemma pc_push_keeps: "P s \<Longrightarrow> P (pc_stack_push s)"
  by (simp add: pc_stack_push_eq prims)

lemma pc_pop_keeps: "P s \<Longrightarrow> P (pc_stack_pop s)"
proof -
  assume "P s"
  then have "P ((snd (pc_stack_pop_val s))\<lparr>pc := pc (pc_stack_pop s)\<rparr>)"
    by (intro prims)
  also have "(snd (pc_stack_pop_val s))\<lparr>pc := pc (pc_stack_pop s)\<rparr> = pc_stack_pop s"
    by (simp add: pc_stack_pop_def pc_stack_pop_val_def Let_def)
  finally show ?thesis .
qed

lemma generate_irq_keeps: "P s \<Longrightarrow> P (snd (generate_irq s which priority))"
proof -
  assume P: "P s"
  define s1 where "s1 = (if watch_irqs (ins s) then emit (Log_irq which priority) s else s)"
  define s3 where "s3 = stat_stack_push (pc_stack_push (s1\<lparr>irq_latch := (irq_latch s1)(which := False)\<rparr>))"
  have "P s1" using P by (simp add: s1_def prims)
  then have "P s3" unfolding s3_def by (intro prims pc_push_keeps)
  moreover have "imask s3 < 0x400 \<Longrightarrow> imask s3 AND m < 0x400" for m
    using word_and_le2 [of "imask s3" m] by (rule order.strict_trans1)
  ultimately have "P (s3\<lparr>pc := a, idle := False, imask :=
      (if icntl s3 AND 0x10 \<noteq> 0 then imask s3 AND m else imask s3 AND m')\<rparr>)" for a m m'
    by (intro P_imask P_idle P_pc) auto
  then show ?thesis
    using P unfolding generate_irq_def Let_def s1_def [symmetric] s3_def [symmetric] by simp
qed

lemma try_irqs_keeps: "P s \<Longrightarrow> P (try_irqs s ls)"
proof (induction s ls rule: try_irqs.induct)
  case (2 s which priority pending rest)
  then show ?case using generate_irq_keeps [of s which priority]
    by (cases "generate_irq s which priority") auto
qed simp

lemma check_irqs_keeps: "P s \<Longrightarrow> P (check_irqs s)"
  by (simp add: check_irqs_def try_irqs_keeps)

lemma stat_pop_keeps: "P s \<Longrightarrow> P (stat_stack_pop s)"
  by (simp add: stat_stack_pop_def check_irqs_keeps P_stat_restore P_stat_empty)

lemma CONDITION_keeps: "P s \<Longrightarrow> P (snd (CONDITION s c))"
  by (simp add: CONDITION_def Let_def prims)

lemma when_condition_keeps: "\<lbrakk>P s; \<And>s. P s \<Longrightarrow> P (f s)\<rbrakk> \<Longrightarrow> P (when_condition s op f)"
  using CONDITION_keeps [of s "op AND 15"] by (simp add: when_condition_def case_prod_beta)

text \<open>Register writes and reads.\<close>

lemma wr_group0_keeps: "P s \<Longrightarrow> P (wr_group0 s r v)"
  by (simp add: wr_group0_def wr_mr0_def wr_mr1_def wr_mr2_def P_core)

lemma wr_inval_keeps: "P s \<Longrightarrow> P (wr_inval s)"
  by (simp add: wr_inval_def prims)

lemma wr_group1_keeps: "P s \<Longrightarrow> P (wr_group1 s r v)"
  by (simp add: wr_group1_def wr_inval_keeps prims)

lemma wr_group2_keeps: "P s \<Longrightarrow> P (wr_group2 s r v)"
  by (simp add: wr_group2_def wr_inval_keeps prims)

lemma wr_mstat_keeps: "P s \<Longrightarrow> P (wr_mstat s v)"
  unfolding wr_mstat_def by (rule P_mstat) (simp_all add: word_and_less)

lemma wr_imask_keeps: "P s \<Longrightarrow> P (wr_imask s v)"
proof -
  have "unat (ucast (v AND 0x3ff) :: u16) \<le> unat (v AND 0x3ff)"
    by (simp only: unsigned_ucast_eq take_bit_nat_less_eq_self)
  then have "ucast (v AND 0x3ff) < (0x400 :: u16)"
    using unat_and_less [where m = "0x3ff :: u32" and n = "0x400" and w = v]
    by (simp add: word_less_nat_alt)
  then show "P s \<Longrightarrow> P (wr_imask s v)"
    unfolding wr_imask_def by (intro check_irqs_keeps P_imask) auto
qed

lemma wr_cntr_keeps: "P s \<Longrightarrow> P (wr_cntr s v)"
  by (simp add: wr_cntr_def prims)

lemma wr_tx_keeps: "P s \<Longrightarrow> P (wr_tx k s v)"
  by (simp add: wr_tx_def Let_def prims)

lemma wr_astat_keeps: "P s \<Longrightarrow> P (wr_astat s v)"
  using P_astat [of s "\<lambda>_. v AND 0xff"] by (simp add: wr_astat_def set_astat_def word_and_less)

lemma wr_group3_keeps: "P s \<Longrightarrow> P (wr_group3 s r v)"
  by (simp add: wr_group3_def wr_astat_keeps wr_mstat_keeps wr_inval_keeps wr_imask_keeps
      wr_icntl_def wr_cntr_keeps wr_sb_def wr_px_def wr_rx_def wr_tx_keeps wr_ifc_def
      wr_owrctr_def wr_topstack_def check_irqs_keeps Let_def P_core prims)

lemma WRITE_REG_keeps: "P s \<Longrightarrow> P (WRITE_REG s g r v)"
  by (simp add: WRITE_REG_def wr_group0_keeps wr_group1_keeps wr_group2_keeps wr_group3_keeps)

lemma READ_REG_keeps: "P s \<Longrightarrow> P (snd (READ_REG s g r))"
  by (simp add: READ_REG_def wr_inval_keeps prims)

lemma dag_keeps:
  "P s \<Longrightarrow> P (data_write_dag1 s op v)" "P s \<Longrightarrow> P (snd (data_read_dag1 s op))"
  "P s \<Longrightarrow> P (data_write_dag2 s op v)" "P s \<Longrightarrow> P (snd (data_read_dag2 s op))"
  "P s \<Longrightarrow> P (pgm_write_dag2 s op v)" "P s \<Longrightarrow> P (snd (pgm_read_dag2 s op))"
  by (simp_all add: data_write_dag1_def data_read_dag1_def data_write_dag2_def data_read_dag2_def
      pgm_write_dag2_def pgm_read_dag2_def Let_def case_prod_beta prims)

text \<open>The computation units.\<close>

lemma flags_keep:
  "P s \<Longrightarrow> P (CALC_NZ r s)" "P s \<Longrightarrow> P (CALC_NZVC x d r s)" "P s \<Longrightarrow> P (CALC_NZVC_SUB x d r s)"
  "\<lbrakk>P s; f < 256\<rbrakk> \<Longrightarrow> P (set_flag_if b f s)" "P s \<Longrightarrow> P (clr_flag f s)"
  by (auto simp: CALC_NZ_def CALC_NZVC_def CALC_NZVC_SUB_def set_flag_if_def clr_flag_def
      intro!: P_astat astat_bounds)

lemma YM1_CARRY_keeps: "P s \<Longrightarrow> P (YM1_CARRY y r s)"
proof -
  assume P: "P s"
  define s1 where "s1 = (if ym1_log_budget (ins s) > 0
                then emit (Log_ym1 (ppc s AND 0x3fff) (y AND 0xffff))
                       (upd_ins (\<lambda>n. n\<lparr>ym1_log_budget := ym1_log_budget n - 1\<rparr>) s)
                else s)"
  have "P s1" using P P_ins [of s "\<lambda>n. n\<lparr>ym1_log_budget := ym1_log_budget n - 1\<rparr>"]
    by (simp add: s1_def quiet_def settings_def prims)
  then show ?thesis
    unfolding YM1_CARRY_def Let_def s1_def [symmetric]
    by (auto intro!: flags_keep P_astat astat_bounds)
qed

lemma alu_switch_keeps: "P s \<Longrightarrow> P (snd (alu_switch n x y s))"
  by (simp add: alu_switch_def Let_def flags_keep YM1_CARRY_keeps)

lemma alu_keeps:
  "P s \<Longrightarrow> P (alu_op_ar s op)" "P s \<Longrightarrow> P (alu_op_ar_const s op)" "P s \<Longrightarrow> P (alu_op_af s op)"
  "P s \<Longrightarrow> P (alu_op_af_const s op)" "P s \<Longrightarrow> P (alu_op_none s op)"
  unfolding alu_op_ar_def alu_op_ar_const_def alu_op_af_def alu_op_af_const_def alu_op_none_def
    Let_def case_prod_beta
  by (auto intro!: P_core alu_switch_keeps)

lemma div_keeps: "P s \<Longrightarrow> P (DIVS s op)" "P s \<Longrightarrow> P (DIVQ s op)"
  unfolding DIVS_def DIVQ_def Let_def by (auto intro!: P_core P_astat astat_q_bound)

lemma mac_keeps:
  "P s \<Longrightarrow> P (mac_op_mr s op)" "P s \<Longrightarrow> P (mac_op_mr_xop s op)" "P s \<Longrightarrow> P (mac_op_mf s op)"
  "P s \<Longrightarrow> P (mac_op_mf_xop s op)" "P s \<Longrightarrow> P (saturate_mr s)"
  unfolding mac_op_mr_def mac_op_mr_xop_def mac_op_mf_def mac_op_mf_xop_def saturate_mr_def
    mac_flag_def Let_def case_prod_beta
  by (auto intro!: P_core flags_keep)

lemma shift_arms_keeps: "\<lbrakk>P s; shift_arms s n w sc = Some s'\<rbrakk> \<Longrightarrow> P s'"
  by (auto simp: shift_arms_def put_sr_def Let_def split: if_splits intro!: P_core)

lemma put_se_keeps: "\<lbrakk>P s; r \<le> 31\<rbrakk> \<Longrightarrow> P (put_se r s)"
  unfolding put_se_def by (rule P_core) auto

lemma set_ss_keeps: "P s \<Longrightarrow> P (set_ss b s)"
  by (simp add: set_ss_def flags_keep)

lemma exp_hi_keeps: "\<lbrakk>P s; exp_hi s w = Some s'\<rbrakk> \<Longrightarrow> P s'"
proof -
  assume P: "P s" and s': "exp_hi s w = Some s'"
  obtain r where r: "exp_hi_count (hi_word w) = Some r" "r \<le> 15" by (rule exp_hi_count_bound)
  have "r \<le> 31" using r(2) by (rule order.trans) simp
  then show "P s'" using P s' r(1) by (auto simp: exp_hi_def Let_def intro!: put_se_keeps set_ss_keeps)
qed

lemma exp_keeps:
  "\<lbrakk>P s; exp_hix s w = Some s'\<rbrakk> \<Longrightarrow> P s'" "\<lbrakk>P s; exp_lo s w = Some s'\<rbrakk> \<Longrightarrow> P s'"
  "\<lbrakk>P s; exp_adj s w = Some s'\<rbrakk> \<Longrightarrow> P s'"
proof -
  have "wf_core c \<Longrightarrow> wf_core (c\<lparr>se := 1\<rparr>)" for c
    using wf_core_updates(18) [of c 1] by simp
  then show "\<lbrakk>P s; exp_hix s w = Some s'\<rbrakk> \<Longrightarrow> P s'"
    by (auto simp: exp_hix_def split: if_splits intro!: P_core set_ss_keeps intro: exp_hi_keeps)
  show "\<lbrakk>P s; exp_lo s w = Some s'\<rbrakk> \<Longrightarrow> P s'"
    using exp_lo_count [of "astat s AND SSFLAG \<noteq> 0" w]
    by (auto simp: exp_lo_def split: if_splits intro!: put_se_keeps)
  show "\<lbrakk>P s; exp_adj s w = Some s'\<rbrakk> \<Longrightarrow> P s'"
    by (auto simp: exp_adj_def intro!: P_core)
qed

lemma shift_keeps:
  "\<lbrakk>P s; shift_op s op = Some s'\<rbrakk> \<Longrightarrow> P s'" "\<lbrakk>P s; shift_op_imm s op = Some s'\<rbrakk> \<Longrightarrow> P s'"
  by (auto simp: shift_op_def shift_op_imm_def Let_def split: if_splits
      intro: shift_arms_keeps exp_hi_keeps exp_keeps)

text \<open>The instruction switch.\<close>

lemmas pushes = pc_push_keeps pc_pop_keeps check_irqs_keeps stat_pop_keeps

lemma exec_io_keeps: "P s \<Longrightarrow> P (exec_io s op)"
  by (simp add: exec_io_def case_prod_beta WRITE_REG_keeps READ_REG_keeps prims)

lemma exec_flags_keeps: "P s \<Longrightarrow> P (exec_flags s op)"
  by (auto simp: exec_flags_def Let_def intro!: when_condition_keeps prims)

lemma exec_flagin_keeps: "P s \<Longrightarrow> P (exec_flagin s op)"
  by (simp add: exec_flagin_def Let_def pushes prims)

lemma exec_stack_control_keeps: "P s \<Longrightarrow> P (exec_stack_control s op)"
  by (simp add: exec_stack_control_def Let_def pushes prims)

lemma exec_return_keeps: "P s \<Longrightarrow> P (exec_return s op)"
  by (auto simp: exec_return_def Let_def intro!: when_condition_keeps pushes prims)

lemma exec_jump_indirect_keeps: "P s \<Longrightarrow> P (exec_jump_indirect s op)"
  by (auto simp: exec_jump_indirect_def Let_def intro!: when_condition_keeps pushes prims)

lemma exec_mode_keeps: "P s \<Longrightarrow> P (exec_mode s op)"
  unfolding exec_mode_def Let_def by (rule P_mstat) (auto intro!: put_mode_bound)

lemma exec_move_keeps: "P s \<Longrightarrow> P (exec_move s op)"
  by (simp add: exec_move_def case_prod_beta WRITE_REG_keeps READ_REG_keeps)

lemma exec_00_0f_keeps: "\<lbrakk>P s; exec_00_0f s op = Some s'\<rbrakk> \<Longrightarrow> P s'"
  using CONDITION_keeps [of s "op AND 15"]
  by (auto simp: exec_00_0f_def Let_def case_prod_beta split: if_splits
      intro: exec_io_keeps exec_flags_keeps exec_flagin_keeps exec_stack_control_keeps mac_keeps
        div_keeps P_modify exec_return_keeps exec_jump_indirect_keeps exec_mode_keeps
        exec_move_keeps shift_keeps)

lemma exec_shift_read_keeps:
  assumes "\<And>s. P s \<Longrightarrow> P (snd (rd s op))" "P s" "exec_shift_read rd s op = Some s'"
  shows "P s'"
proof -
  from assms(3) obtain s1 where s1: "shift_op s op = Some s1"
    and s': "s' = WRITE_REG (snd (rd s1 op)) 0 (op_mid op) (fst (rd s1 op))"
    by (auto simp: exec_shift_read_def case_prod_beta)
  from shift_keeps(1) [OF assms(2) s1] show ?thesis
    unfolding s' by (intro WRITE_REG_keeps assms(1))
qed

lemma exec_shift_write_keeps:
  assumes "\<And>s v. P s \<Longrightarrow> P (wr s op v)" "P s" "exec_shift_write wr s op = Some s'"
  shows "P s'"
  using assms(3) shift_keeps(1) [OF assms(1), OF READ_REG_keeps, OF assms(2)]
  by (auto simp: exec_shift_write_def case_prod_beta)

lemma exec_10_1f_keeps: "\<lbrakk>P s; exec_10_1f s op = Some s'\<rbrakk> \<Longrightarrow> P s'"
proof -
  assume P: "P s" and s': "exec_10_1f s op = Some s'"
  have r: "P s2" if "shift_op (snd (READ_REG s 0 k)) op = Some s2" for s2 k
    using shift_keeps(1) [OF READ_REG_keeps [OF P] that] .
  have "op AND 0x3ffff < 0x40000" by (rule word_and_less) simp
  then have l: "P (pc_stack_push (loop_stack_push s (op AND 0x3ffff)))"
    using P by (intro pushes P_loop_push)
  have j: "P (when_condition s op (\<lambda>s. let s1 = s\<lparr>pc := op_addr op\<rparr>
                in if pc s1 = ppc s1 then s1\<lparr>icount := 0\<rparr> else s1))"
    "P (when_condition s op (\<lambda>s. (pc_stack_push s)\<lparr>pc := op_addr op\<rparr>))"
    using P by (auto simp: Let_def intro!: when_condition_keeps pushes prims)
  have m: "P s'" if "map_option (\<lambda>s2. WRITE_REG s2 0 k v) (shift_op (snd (READ_REG s 0 i)) op) = Some s'"
    for i k v using that r WRITE_REG_keeps by auto
  have sr: "exec_shift_read rd s op = Some s' \<Longrightarrow> rd \<in> {pgm_read_dag2, data_read_dag1, data_read_dag2} \<Longrightarrow> P s'"
    for rd by (rule exec_shift_read_keeps [OF _ P, of rd op]) (auto intro: dag_keeps)
  have sw: "exec_shift_write wr s op = Some s' \<Longrightarrow> wr \<in> {pgm_write_dag2, data_write_dag1, data_write_dag2} \<Longrightarrow> P s'"
    for wr by (rule exec_shift_write_keeps [OF _ P, of wr op]) (auto intro: dag_keeps)
  show "P s'"
    using s' unfolding exec_10_1f_def Let_def case_prod_beta
    by (simp only: option.inject split: if_split_asm)
      ((erule m | erule sr sw, blast) | (erule subst, rule l j [unfolded Let_def]))+
qed

lemma compute_keeps: "P s \<Longrightarrow> P (compute_op s op)" "P s \<Longrightarrow> P (compute_op_218x s op)"
  by (simp_all add: compute_op_def compute_op_218x_def Let_def alu_keeps mac_keeps)

lemma exec_20_4f_keeps: "P s \<Longrightarrow> P (exec_20_4f s op)"
  by (auto simp: exec_20_4f_def exec_compute_move_def Let_def case_prod_beta
      intro!: when_condition_keeps compute_keeps WRITE_REG_keeps READ_REG_keeps alu_keeps)

lemma exec_50_7f_keeps: "P s \<Longrightarrow> P (exec_50_7f s op)"
  by (auto simp: exec_50_7f_def exec_compute_read_def exec_compute_write_def Let_def case_prod_beta
      intro!: compute_keeps WRITE_REG_keeps READ_REG_keeps dag_keeps)

lemma exec_80_bf_keeps: "P s \<Longrightarrow> P (exec_80_bf s op)"
  by (auto simp: exec_80_bf_def Let_def case_prod_beta
      intro!: WRITE_REG_keeps READ_REG_keeps dag_keeps prims)

lemma exec_c0_ff_keeps: "P s \<Longrightarrow> P (exec_c0_ff s op)"
  by (auto simp: exec_c0_ff_def put_dual_x_def put_dual_y_def Let_def case_prod_beta
      intro!: P_core dag_keeps alu_keeps mac_keeps)

theorem exec_op_keeps: "\<lbrakk>P s; exec_op s op = Some s'\<rbrakk> \<Longrightarrow> P s'"
  by (auto simp: exec_op_def Let_def split: if_splits
      intro: exec_00_0f_keeps exec_10_1f_keeps exec_20_4f_keeps exec_50_7f_keeps exec_80_bf_keeps
        exec_c0_ff_keeps)

text \<open>The fetch stage.\<close>

lemma notes_keep: "P s \<Longrightarrow> P (note_history s)" "P s \<Longrightarrow> P (note_coverage s)"
  "P s \<Longrightarrow> P (note_trace op s)"
  by (auto simp: note_history_def note_coverage_def note_trace_def Let_def quiet_def settings_def
      intro!: P_ins prims)

lemma note_watch_exec_keeps: "P s \<Longrightarrow> P (note_watch_exec s)"
  by (auto simp: note_watch_exec_def Let_def quiet_def settings_def intro!: P_ins prims)

lemma advance_pc_keeps: "P s \<Longrightarrow> P (advance_pc s)"
  using CONDITION_keeps [of s "loop_condition s"]
  by (auto simp: advance_pc_def Let_def case_prod_beta intro!: prims)

lemma fetch_keeps: "P s \<Longrightarrow> P (snd (fetch s))"
  by (simp add: fetch_def Let_def advance_pc_keeps notes_keep note_watch_exec_keeps prims)

end

section \<open>The cycle budget and what instructions cannot reach\<close>

text \<open>Inputs and host-side state: configuration, interrupt lines, FLAGIN, the IDMA port.\<close>

definition wiring :: "adsp2181 \<Rightarrow> (int \<times> u32 \<times> u32) \<times> (nat \<Rightarrow> bool) \<times> bool
    \<times> (u16 \<times> u16 \<times> bool \<times> bool) \<times> (bool \<times> bool)" where
  "wiring s = ((chip_type s, mstat_mask s, imask_mask s), irq_state s, flagin s,
     (idma_addr s, idma_cache s, idma_offs s, idma_pending_write s),
     (idma_boot_hold s, idma_boot_mode s))"

text \<open>
  Against a reference state \<open>r\<close>: the budget is unchanged or zero, and settings and wiring are
  those of \<open>r\<close>.
\<close>

definition budget :: "adsp2181 \<Rightarrow> adsp2181 \<Rightarrow> bool" where
  "budget r s \<longleftrightarrow> (icount s = icount r \<or> icount s = 0) \<and> settings (ins s) = settings (ins r)
     \<and> wiring s = wiring r"

lemma sequencer_icount [simp]:
  "icount (update_mstat s) = icount s" "icount (note_pcsp s) = icount s"
  "icount (warn_stack_over s b d) = icount s" "icount (pc_stack_push_val s x) = icount s"
  "icount (snd (pc_stack_pop_val s)) = icount s" "icount (cntr_stack_push s) = icount s"
  "icount (cntr_stack_pop s) = icount s" "icount (loop_stack_push s x) = icount s"
  "icount (loop_stack_pop s) = icount s" "icount (stat_stack_push s) = icount s"
  by (simp_all add: update_mstat_def note_pcsp_def warn_stack_over_def pc_stack_push_val_def
      pc_stack_pop_val_def cntr_stack_push_def cntr_stack_pop_def loop_stack_push_def
      loop_stack_pop_def stat_stack_push_def Let_def)

lemma sequencer_settings [simp]:
  "settings (ins (update_mstat s)) = settings (ins s)" "settings (ins (note_pcsp s)) = settings (ins s)"
  "settings (ins (warn_stack_over s b d)) = settings (ins s)"
  "settings (ins (pc_stack_push_val s x)) = settings (ins s)"
  "settings (ins (snd (pc_stack_pop_val s))) = settings (ins s)"
  "settings (ins (cntr_stack_push s)) = settings (ins s)"
  "settings (ins (cntr_stack_pop s)) = settings (ins s)"
  "settings (ins (loop_stack_push s x)) = settings (ins s)"
  "settings (ins (loop_stack_pop s)) = settings (ins s)"
  "settings (ins (stat_stack_push s)) = settings (ins s)"
  by (simp_all add: update_mstat_def note_pcsp_def warn_stack_over_def pc_stack_push_val_def
      pc_stack_pop_val_def cntr_stack_push_def cntr_stack_pop_def loop_stack_push_def
      loop_stack_pop_def stat_stack_push_def Let_def settings_def)

lemma wiring_updates [simp]:
  "wiring (emit e s) = wiring s" "wiring (upd_ins g s) = wiring s" "wiring (upd_core f s) = wiring s"
  "wiring (snd (RWORD_DATA s x)) = wiring s" "wiring (WWORD_DATA s x v) = wiring s"
  "wiring (WWORD_PGM s x y) = wiring s"
  by (simp_all add: wiring_def)

lemma wiring_fields [simp]:
  "wiring (s\<lparr>mstat := v_mstat\<rparr>) = wiring s"
  "wiring (s\<lparr>imask := v_imask\<rparr>) = wiring s"
  "wiring (s\<lparr>astat := v_astat\<rparr>) = wiring s"
  "wiring (s\<lparr>sstat := v_sstat\<rparr>) = wiring s" "wiring (s\<lparr>pc := v_pc\<rparr>) = wiring s"
  "wiring (s\<lparr>ppc := v_ppc\<rparr>) = wiring s"
  "wiring (s\<lparr>icount := v_icount\<rparr>) = wiring s"
  "wiring (s\<lparr>idle := v_idle\<rparr>) = wiring s" "wiring (s\<lparr>cntr := v_cntr\<rparr>) = wiring s"
  "wiring (s\<lparr>cntr_valid := v_cntr_valid\<rparr>) = wiring s"
  "wiring (s\<lparr>flagout := v_flagout\<rparr>) = wiring s"
  "wiring (s\<lparr>fl0 := v_fl0\<rparr>) = wiring s" "wiring (s\<lparr>fl1 := v_fl1\<rparr>) = wiring s"
  "wiring (s\<lparr>fl2 := v_fl2\<rparr>) = wiring s" "wiring (s\<lparr>px := v_px\<rparr>) = wiring s"
  "wiring (s\<lparr>icntl := v_icntl\<rparr>) = wiring s" "wiring (s\<lparr>ifc := v_ifc\<rparr>) = wiring s"
  "wiring (s\<lparr>irq_latch := v_irq_latch\<rparr>) = wiring s"
  "wiring (s\<lparr>interrupts_enabled := v_interrupts_enabled\<rparr>) = wiring s"
  "wiring (s\<lparr>sport_rx := v_sport_rx\<rparr>) = wiring s"
  "wiring (s\<lparr>sport_tx := v_sport_tx\<rparr>) = wiring s"
  "wiring (s\<lparr>sport_tx_written := v_sport_tx_written\<rparr>) = wiring s"
  "wiring (s\<lparr>pmovlay := v_pmovlay\<rparr>) = wiring s"
  "wiring (s\<lparr>dmovlay := v_dmovlay\<rparr>) = wiring s"
  "wiring (s\<lparr>dag_i := v_dag_i\<rparr>) = wiring s"
  "wiring (s\<lparr>dag_m := v_dag_m\<rparr>) = wiring s"
  "wiring (s\<lparr>dag_l := v_dag_l\<rparr>) = wiring s"
  "wiring (s\<lparr>dag_lmask := v_dag_lmask\<rparr>) = wiring s"
  "wiring (s\<lparr>dag_base := v_dag_base\<rparr>) = wiring s"
  "wiring (s\<lparr>stat_sp := v_stat_sp\<rparr>) = wiring s"
  "wiring (s\<lparr>io := v_io\<rparr>) = wiring s"
  by (simp_all add: wiring_def)

lemma sequencer_wiring [simp]:
  "wiring (update_mstat s) = wiring s" "wiring (note_pcsp s) = wiring s"
  "wiring (warn_stack_over s b d) = wiring s" "wiring (pc_stack_push_val s x) = wiring s"
  "wiring (snd (pc_stack_pop_val s)) = wiring s" "wiring (cntr_stack_push s) = wiring s"
  "wiring (cntr_stack_pop s) = wiring s" "wiring (loop_stack_push s x) = wiring s"
  "wiring (loop_stack_pop s) = wiring s" "wiring (stat_stack_push s) = wiring s"
  by (simp_all add: update_mstat_def note_pcsp_def warn_stack_over_def pc_stack_push_val_def
      pc_stack_pop_val_def cntr_stack_push_def cntr_stack_pop_def loop_stack_push_def
      loop_stack_pop_def stat_stack_push_def Let_def wiring_def)

lemma budget_write: "budget r s \<Longrightarrow> budget r (WWORD_DATA s x w)"
  using WWORD_DATA_icount [of s x w] by (auto simp: budget_def)

interpretation budget: exec_invariant "budget r" for r
  by unfold_locales
    (simp_all add: budget_write, simp_all add: budget_def set_astat_def wr_i_def wr_m_def wr_l_def
        update_i_def update_l_def modify_address_def stat_restore_def case_prod_beta WWORD_IO_def
        Let_def)

section \<open>The instruction loop\<close>

lemma exec_step_budget:
  assumes "exec_step s = Some s'"
  shows "icount s' = icount s - 1 \<or> icount s' = - 1" "cycles (ins s') = cycles (ins s) + 1"
    "wiring s' = wiring s"
proof -
  from assms obtain s2 where s2: "exec_op (snd (fetch s)) (fst (fetch s)) = Some s2"
    and s': "s' = upd_ins (\<lambda>n. n\<lparr>cycles := cycles n + 1\<rparr>) (s2\<lparr>icount := icount s2 - 1\<rparr>)"
    by (auto simp: exec_step_def case_prod_beta)
  have "budget s s" by (simp add: budget_def)
  then have "budget s s2" using s2 by (rule budget.exec_op_keeps [OF budget.fetch_keeps])
  then show "icount s' = icount s - 1 \<or> icount s' = - 1" "cycles (ins s') = cycles (ins s) + 1"
    "wiring s' = wiring s"
    by (auto simp: s' budget_def settings_def)
qed

text \<open>
  The \<^verbatim>\<open>do ... while (icount > 0)\<close> of \<^verbatim>\<open>execute\<close>: the body runs at least once.  \<open>None\<close> is undefined
  behaviour of an instruction; the loop itself always ends.
\<close>

function exec_loop :: "adsp2181 \<Rightarrow> adsp2181 option" where
  "exec_loop s = (case exec_step s of None \<Rightarrow> None
     | Some s' \<Rightarrow> if icount s' > 0 then exec_loop s' else Some s')"
  by pat_completeness auto
termination
proof (relation "measure (\<lambda>s. nat (icount s))")
  fix s s' assume "exec_step s = Some s'" "0 < icount s'"
  then show "(s', s) \<in> measure (\<lambda>s. nat (icount s))"
    using exec_step_budget(1) [of s s'] by auto
qed simp

declare exec_loop.simps [simp del]

definition execute :: "adsp2181 \<Rightarrow> adsp2181 option" where
  "execute s = exec_loop (check_irqs s)"

text \<open>The loop rule: what one instruction keeps, the loop keeps.\<close>

lemma exec_loop_keeps:
  assumes step: "\<And>s s'. \<lbrakk>I s; exec_step s = Some s'\<rbrakk> \<Longrightarrow> I s'"
  shows "\<lbrakk>I s; exec_loop s = Some s'\<rbrakk> \<Longrightarrow> I s'"
proof (induction s rule: exec_loop.induct)
  case (1 s)
  then show ?case
    by (subst (asm) (2) exec_loop.simps) (auto split: option.splits if_splits intro: step)
qed

text \<open>An instruction-set invariant that ignores the two counters survives whole runs.\<close>

locale step_invariant = exec_invariant +
  assumes P_count: "P s \<Longrightarrow> P (upd_ins (\<lambda>n. n\<lparr>cycles := cycles n + 1\<rparr>) (s\<lparr>icount := j\<rparr>))"
begin

lemma exec_step_keeps: "\<lbrakk>P s; exec_step s = Some s'\<rbrakk> \<Longrightarrow> P s'"
  using exec_op_keeps [OF fetch_keeps, of s "fst (fetch s)"]
  by (auto simp: exec_step_def case_prod_beta intro!: P_count)

lemma execute_keeps: "\<lbrakk>P s; execute s = Some s'\<rbrakk> \<Longrightarrow> P s'"
  unfolding execute_def
  by (rule exec_loop_keeps [where I = P, OF exec_step_keeps check_irqs_keeps])

end

end
