(* ===== verification/Wellformed.thy ===== *)
theory Wellformed
  imports Invariants
begin

text \<open>
  The machine invariant: the stack pointers are inside their arrays and the status, address, loop
  and accumulator registers inside their ranges (\<open>machine_ok\<close>), and the stacks agree with SSTAT and with the cached loop registers
  (\<open>linked\<close>).  Both are interpretations of \<open>step_invariant\<close>.
\<close>

section \<open>Registers inside their ranges\<close>

text \<open>
  The clauses of \<open>machine_ok\<close> are the registers whose ranges the code maintains.  The program counter,
  the counter register and SB are not among them: a load of PC past the end of program memory, a
  decrement of a zero counter and a block exponent keep whatever the arithmetic gives.
\<close>

definition wf_status :: "adsp2181 \<Rightarrow> bool" where
  "wf_status s \<longleftrightarrow> astat s < 256 \<and> mstat s < 128 \<and> mstat_prev s = mstat s \<and> imask s < 0x400
     \<and> icntl s < 0x20 \<and> pmovlay s < 4 \<and> dmovlay s < 4 \<and> mstat_mask s = 0x7f \<and> imask_mask s = 0x3ff"

definition wf_dag :: "adsp2181 \<Rightarrow> bool" where
  "wf_dag s \<longleftrightarrow> (\<forall>k. dag_i s k < 0x4000 \<and> dag_l s k < 0x4000 \<and> dag_base s k < 0x4000
     \<and> sign_extend_14 (dag_m s k) = dag_m s k)"

fun stat_ok :: "u16 \<times> u16 \<times> u16 \<Rightarrow> bool" where
  "stat_ok (m, k, a) \<longleftrightarrow> m < 128 \<and> k < 0x400 \<and> a < 256"

definition wf_stacks :: "adsp2181 \<Rightarrow> bool" where
  "wf_stacks s \<longleftrightarrow> pc_sp s \<le> PC_STACK_DEPTH \<and> cntr_sp s \<le> CNTR_STACK_DEPTH
     \<and> stat_sp s \<le> STAT_STACK_DEPTH \<and> loop_sp s \<le> LOOP_STACK_DEPTH \<and> sstat s < 256
     \<and> loop_condition s < 16 \<and> loop_end s \<le> 0xffff
     \<and> (\<forall>k. stat_ok (stat_stack s k)) \<and> (\<forall>k. loop_stack s k < 0x40000)"

definition machine_ok :: "adsp2181 \<Rightarrow> bool" where
  "machine_ok s \<longleftrightarrow> wf_core (core s) \<and> wf_core (alt s) \<and> wf_status s \<and> wf_dag s \<and> wf_stacks s"

lemmas machine_ok_defs = machine_ok_def wf_status_def wf_dag_def wf_stacks_def

lemma ok_update_mstat:
  "\<lbrakk>machine_ok s; v < 128\<rbrakk> \<Longrightarrow> machine_ok (update_mstat (s\<lparr>mstat := v\<rparr>))"
  by (simp add: update_mstat_def Let_def machine_ok_defs)

lemma and_3fff: "x AND 0x3fff < (0x4000 :: u32)"
  by (rule word_and_less) simp

lemma and_3fff': "a < 0x4000 \<Longrightarrow> a AND b < (0x4000 :: u32)"
  using and_less_power [of a 14 b] by simp

text \<open>The modify registers hold 14-bit two's complement values.\<close>

lemma sign_extend_14_eq: "sign_extend_14 v = signed_take_bit 13 v"
proof -
  have "(v AND 0x3fff) - 0x4000 = (v AND 0x3fff) + NOT 0x3fff" by (simp add: not_eq_complement)
  also have "\<dots> = (v AND 0x3fff) OR NOT 0x3fff"
    by (rule disjunctive_add_eq_or) (simp add: and.assoc)
  finally have *: "(v AND 0x3fff) - 0x4000 = (v AND mask 14) OR NOT (mask 14)"
    by (simp add: mask_numeral)
  have "(v AND mask 14) AND 0x2000 \<noteq> 0 \<longleftrightarrow> bit v 13"
    using and_power_test [of 13 "v AND mask 14"] by (simp add: bit_simps)
  then have "sign_extend_14 v = (if bit v 13 then (v AND mask 14) OR NOT (mask 14) else v AND mask 14)"
    using * by (simp add: sign_extend_14_def Let_def mask_numeral)
  then show ?thesis
    by (intro bit_word_eqI) (rename_tac n, case_tac "n = 13",
        auto simp: bit_simps bit_signed_take_bit_iff min_def)
qed

lemma sign_extend_14_idem [simp]: "sign_extend_14 (sign_extend_14 v) = sign_extend_14 v"
  by (simp add: sign_extend_14_eq)

lemma ok_dag:
  assumes "machine_ok s"
  shows "machine_ok (wr_i n s x)" "machine_ok (wr_m n s x)" "machine_ok (wr_l n s x)"
    "machine_ok (modify_address s n m)"
  using assms
  by (simp_all add: machine_ok_defs wr_i_def wr_m_def wr_l_def update_i_def update_l_def Let_def
      modify_address_def modified_address_def and_3fff and_3fff')

lemma ok_pc_stack:
  assumes "machine_ok s"
  shows "machine_ok (pc_stack_push_val s x)" "machine_ok (snd (pc_stack_pop_val s))"
  using assms
  by (auto simp add: machine_ok_defs pc_stack_push_val_def pc_stack_pop_val_def note_pcsp_def
     warn_stack_over_def Let_def astat_bounds)

lemma ok_cntr_stack:
  assumes "machine_ok s"
  shows "machine_ok (cntr_stack_push s)" "machine_ok (cntr_stack_pop s)"
  using assms
  by (auto simp: machine_ok_defs cntr_stack_push_def cntr_stack_pop_def
     warn_stack_over_def Let_def astat_bounds)

lemma ok_loop_stack:
  assumes "machine_ok s"
  shows "x < 0x40000 \<Longrightarrow> machine_ok (loop_stack_push s x)" "machine_ok (loop_stack_pop s)"
proof -
  have "drop_bit 4 v \<le> 0xffff" if "v < 0x40000" for v :: u32
    using that by (simp only: word_le_nat_alt word_less_nat_alt unat_drop_bit_eq)
      (simp add: drop_bit_eq_div)
  moreover have "v AND 15 < 16" for v :: u32 by (rule word_and_less) simp
  ultimately show "x < 0x40000 \<Longrightarrow> machine_ok (loop_stack_push s x)" "machine_ok (loop_stack_pop s)"
    using assms by (auto simp: machine_ok_defs loop_stack_push_def loop_stack_pop_def
        warn_stack_over_def Let_def astat_bounds)
qed

lemma ucast_bounds:
  fixes x :: u32 and y :: u16
  shows "x < 128 \<Longrightarrow> (ucast x :: u16) < 128" "x < 256 \<Longrightarrow> (ucast x :: u16) < 256"
    "y < 128 \<Longrightarrow> (ucast y :: u32) < 128" "y < 256 \<Longrightarrow> (ucast y :: u32) < 256"
    "ucast (x AND 0x1f) < (0x20 :: u8)" "ucast (x AND 3) < (4 :: u16)"
  using unat_ucast_le [of x, where 'b = 16] unat_ucast_le [of y, where 'b = 32]
    unat_and_less [where m = "0x1f :: u32" and n = "0x20" and w = x]
    unat_and_less [where m = "3 :: u32" and n = "4" and w = x]
    unat_ucast_le [of "x AND 0x1f", where 'b = 8] unat_ucast_le [of "x AND 3", where 'b = 16]
  by (simp_all add: word_less_nat_alt)

lemma ok_stat_push: "machine_ok s \<Longrightarrow> machine_ok (stat_stack_push s)"
  by (auto simp: machine_ok_defs stat_stack_push_def
     warn_stack_over_def Let_def astat_bounds ucast_bounds)

lemma ok_stat_restore: "\<lbrakk>machine_ok s; 0 < stat_sp s\<rbrakk> \<Longrightarrow> machine_ok (stat_restore s)"
proof -
  assume ok: "machine_ok s" and sp: "0 < stat_sp s"
  obtain m k a where e: "stat_stack s (stat_sp s - 1) = (m, k, a)" by (metis prod_cases3)
  have "stat_ok (stat_stack s (stat_sp s - 1))" using ok by (simp add: machine_ok_defs)
  with e have b: "m < 128" "k < 0x400" "a < 256" by simp_all
  define s1 where "s1 = s\<lparr>stat_sp := stat_sp s - 1,
      sstat := (if stat_sp s - 1 = 0 then sstat s OR STATUS_EMPTY else sstat s)\<rparr>"
  have "machine_ok s1" using ok sp by (auto simp: machine_ok_defs s1_def astat_bounds)
  then have "machine_ok (update_mstat (s1\<lparr>mstat := ucast m\<rparr>))"
    using b by (intro ok_update_mstat) (simp_all add: ucast_bounds)
  then show ?thesis using b
    unfolding stat_restore_def Let_def e prod.case s1_def by (simp add: machine_ok_defs ucast_bounds)
qed

lemma ok_mstat:
  "\<lbrakk>machine_ok s; mstat_mask s = 0x7f \<Longrightarrow> mstat s < 128 \<Longrightarrow> v < 128\<rbrakk>
     \<Longrightarrow> machine_ok (update_mstat (s\<lparr>mstat := v\<rparr>))"
  by (rule ok_update_mstat) (simp_all add: machine_ok_def wf_status_def)

interpretation ok: step_invariant machine_ok
  by unfold_locales
    (simp_all add: ok_dag ok_pc_stack ok_cntr_stack ok_loop_stack ok_stat_push ok_stat_restore
      ok_mstat,
     simp_all add: machine_ok_defs set_astat_def WWORD_IO_def ucast_bounds astat_bounds)

section \<open>Derived registers agree with what they are derived from\<close>

text \<open>
  The EMPTY bits of SSTAT tell which stacks are empty, the cached loop end and condition are
  those of the top of the loop stack, and the flag-clearing mask follows the sticky-overflow mode.
\<close>

definition sstat_linked :: "adsp2181 \<Rightarrow> bool" where
  "sstat_linked s \<longleftrightarrow> (bit (sstat s) 0 \<longleftrightarrow> pc_sp s = 0) \<and> (bit (sstat s) 2 \<longleftrightarrow> cntr_sp s = 0)
     \<and> (bit (sstat s) 4 \<longleftrightarrow> stat_sp s = 0) \<and> (bit (sstat s) 6 \<longleftrightarrow> loop_sp s = 0)"

definition loop_linked :: "adsp2181 \<Rightarrow> bool" where
  "loop_linked s \<longleftrightarrow>
     (if loop_sp s = 0 then loop_end s = 0xffff \<and> loop_condition s = 0
      else loop_end s = drop_bit 4 (loop_stack_top s) \<and> loop_condition s = loop_stack_top s AND 15)"

definition clear_linked :: "adsp2181 \<Rightarrow> bool" where
  "clear_linked s \<longleftrightarrow> astat_clear s =
     (if mstat s AND MSTAT_STICKYV \<noteq> 0 then NOT (CFLAG OR NFLAG OR ZFLAG)
      else NOT (CFLAG OR VFLAG OR NFLAG OR ZFLAG))"

definition linked :: "adsp2181 \<Rightarrow> bool" where
  "linked s \<longleftrightarrow> sstat_linked s \<and> loop_linked s \<and> clear_linked s"

lemmas linked_defs = linked_def sstat_linked_def loop_linked_def clear_linked_def loop_stack_top_def

lemma linked_update_mstat: "linked s \<Longrightarrow> linked (update_mstat (s\<lparr>mstat := v\<rparr>))"
  by (simp add: update_mstat_def Let_def linked_defs)

lemma linked_pc_stack:
  assumes "linked s"
  shows "linked (pc_stack_push_val s x)" "linked (snd (pc_stack_pop_val s))"
  using assms
  by (auto simp: linked_defs pc_stack_push_val_def pc_stack_pop_val_def note_pcsp_def
     warn_stack_over_def Let_def bit_simps)

lemma linked_cntr_stack:
  assumes "linked s"
  shows "linked (cntr_stack_push s)" "linked (cntr_stack_pop s)"
  using assms
  by (auto simp: linked_defs cntr_stack_push_def cntr_stack_pop_def
     warn_stack_over_def Let_def bit_simps)

lemma linked_loop_stack:
  assumes "linked s"
  shows "linked (loop_stack_push s x)" "linked (loop_stack_pop s)"
  using assms
  by (auto simp: linked_defs loop_stack_push_def loop_stack_pop_def
     warn_stack_over_def Let_def bit_simps split: if_splits)

lemma linked_stat_push: "linked s \<Longrightarrow> linked (stat_stack_push s)"
  by (auto simp: linked_defs stat_stack_push_def warn_stack_over_def Let_def bit_simps)

lemma linked_stat_restore: "\<lbrakk>linked s; 0 < stat_sp s\<rbrakk> \<Longrightarrow> linked (stat_restore s)"
proof -
  assume l: "linked s" and sp: "0 < stat_sp s"
  define s1 where "s1 = s\<lparr>stat_sp := stat_sp s - 1,
      sstat := (if stat_sp s - 1 = 0 then sstat s OR STATUS_EMPTY else sstat s)\<rparr>"
  have "linked s1" using l sp by (auto simp: linked_defs s1_def bit_simps)
  then have "linked (update_mstat (s1\<lparr>mstat := v\<rparr>))" for v by (rule linked_update_mstat)
  then show ?thesis
    unfolding stat_restore_def Let_def case_prod_beta s1_def by (simp add: linked_defs)
qed

interpretation linked: step_invariant linked
  by unfold_locales
    (simp_all add: linked_pc_stack linked_cntr_stack linked_loop_stack linked_stat_push
      linked_stat_restore linked_update_mstat,
     simp_all add: linked_defs set_astat_def WWORD_IO_def wr_i_def wr_m_def wr_l_def
        update_i_def update_l_def modify_address_def Let_def bit_simps)

end
