(* ===== verification/Addressing.thy ===== *)
theory Addressing
  imports Wellformed
begin

text \<open>
  What the data address generators compute: integer semantics of \<open>modified_address\<close> on a
  well-formed machine, circular buffers as arithmetic modulo the length, and bit-reversed
  addressing as an involution on 14-bit addresses.
\<close>

section \<open>Modified addresses as integers\<close>

lemma sint_of_int_small:
  "\<lbrakk>- (2 ^ 31) \<le> k; k < 2 ^ 31\<rbrakk> \<Longrightarrow> sint (word_of_int k :: u32) = k"
  by (simp only: sint_sbintrunc') (rule signed_take_bit_int_eq_self; simp)

definition modify_int :: "int \<Rightarrow> int \<Rightarrow> int \<Rightarrow> int \<Rightarrow> int" where
  "modify_int i m l b =
     (let a = i + m in
      (if l \<noteq> 0 then if a < b then a + l else if a \<ge> b + l then a - l else a else a) mod 0x4000)"

lemma sign_extend_14_range:
  assumes "sign_extend_14 v = v"
  shows "- 0x2000 \<le> sint v \<and> sint v < 0x2000"
proof -
  have v: "bit v n = bit v 13" if "13 \<le> n" "n < 32" for n
    using that arg_cong [OF assms, where f = "\<lambda>w. bit w n"]
    by (simp add: sign_extend_14_eq bit_signed_take_bit_iff min_def)
  have "signed_take_bit 13 (sint v) = sint v"
  proof (rule bit_eqI)
    fix n
    show "bit (signed_take_bit 13 (sint v)) n = bit (sint v) n"
      using v [of n] v [of 31]
      by (cases "n < 32") (auto simp: bit_signed_take_bit_iff bit_sint_iff min_def
          dest: bit_imp_le_length)
  qed
  then show ?thesis by (simp add: signed_take_bit_int_eq_self_iff)
qed

lemma uint_and_3fff: "uint (word_of_int k AND 0x3fff :: u32) = k mod 0x4000"
proof -
  have "word_of_int k AND 0x3fff = (take_bit 14 (word_of_int k) :: u32)"
    by (simp add: take_bit_eq_mask mask_numeral)
  then have "uint (word_of_int k AND 0x3fff :: u32) = take_bit 14 (take_bit 32 k)"
    by (simp only: unsigned_take_bit_eq uint_word_of_int_eq len_bit0 len_num1) simp
  then show ?thesis by (simp add: take_bit_take_bit) (simp add: take_bit_eq_mod)
qed

lemma modified_address_int:
  assumes "wf_dag s"
  shows "uint (modified_address s ireg mreg) =
     modify_int (uint (dag_i s ireg)) (sint (dag_m s mreg)) (uint (dag_l s ireg)) (uint (dag_base s ireg))"
proof -
  define i m l b where "i = uint (dag_i s ireg)" and "m = sint (dag_m s mreg)"
    and "l = uint (dag_l s ireg)" and "b = uint (dag_base s ireg)"
  have w: "dag_i s ireg = word_of_int i" "dag_m s mreg = word_of_int m"
    "dag_l s ireg = word_of_int l" "dag_base s ireg = word_of_int b"
    by (simp_all add: i_def m_def l_def b_def)
  have r: "0 \<le> i" "i < 0x4000" "0 \<le> l" "l < 0x4000" "0 \<le> b" "b < 0x4000" "- 0x2000 \<le> m" "m < 0x2000"
    using assms sign_extend_14_range [of "dag_m s mreg"]
    by (simp_all add: i_def m_def l_def b_def wf_dag_def word_less_def)
  have z: "(word_of_int l :: u32) = 0 \<longleftrightarrow> l = 0"
    using r by (metis (no_types) l_def w(3) uint_0_iff)
  have c: "(word_of_int (i + m) :: u32) <s word_of_int b \<longleftrightarrow> i + m < b"
    "(word_of_int (b + l) :: u32) \<le>s word_of_int (i + m) \<longleftrightarrow> b + l \<le> i + m"
    using r sint_of_int_small [of "i + m"] sint_of_int_small [of b] sint_of_int_small [of "b + l"]
    by (simp_all add: word_sless_alt word_sle_eq del: of_int_add)
  define a where
    "a = (if l \<noteq> 0 then if i + m < b then i + m + l else if i + m \<ge> b + l then i + m - l else i + m else i + m)"
  have "modified_address s ireg mreg = word_of_int a AND 0x3fff"
    unfolding modified_address_def Let_def w a_def
    by (cases "l = 0"; cases "i + m < b"; cases "b + l \<le> i + m")
      (simp_all add: z c flip: of_int_add of_int_diff)
  moreover have "a mod 0x4000 = modify_int i m l b" by (simp add: a_def modify_int_def Let_def)
  ultimately show ?thesis
    unfolding i_def [symmetric] m_def [symmetric] l_def [symmetric] b_def [symmetric]
    by (simp add: uint_and_3fff)
qed

section \<open>Circular buffers\<close>

lemma modify_int_circular:
  assumes "0 \<le> b" "b \<le> i" "i < b + l" "b + l \<le> 0x4000" "\<bar>m\<bar> \<le> l"
  shows "modify_int i m l b = b + (i - b + m) mod l"
proof -
  have eq: "(i - b + m) mod l = i - b + m + q * l" if "0 \<le> i - b + m + q * l" "i - b + m + q * l < l" for q
    using that by (metis mod_mult_self1 mod_pos_pos_trivial)
  show ?thesis
    using assms eq [of 1] eq [of 0] eq [of "- 1"]
    by (auto simp: modify_int_def Let_def)
qed

text \<open>Setting up a buffer aligns its base to the next power of two above the length.\<close>

lemma and_not_mask: "uint (x AND NOT (mask c)) = uint x - uint x mod 2 ^ c" if "c < 32" for x :: u32
proof -
  have "(x AND mask c) + (x AND NOT (mask c)) = x"
    by (subst disjunctive_add_eq_or) (auto simp: bit_eq_iff bit_simps)
  then have "x AND NOT (mask c) = x - take_bit c x"
    by (metis add_diff_cancel_left' take_bit_eq_mask)
  moreover have "take_bit c x \<le> x" by (simp add: take_bit_eq_mask word_and_le2)
  ultimately show ?thesis
    by (simp add: uint_sub_if' word_le_def unsigned_take_bit_eq del: take_bit_eq_mod)
      (simp add: take_bit_eq_mod)
qed

lemma mask_table_rows:
  fixes l :: u32
  shows "unat l \<le> 1 \<Longrightarrow> mask_table l = 0x3fff"
    "1 < unat l \<Longrightarrow> unat l \<le> 2 \<Longrightarrow> mask_table l = 0x3ffe"
    "2 < unat l \<Longrightarrow> unat l \<le> 4 \<Longrightarrow> mask_table l = 0x3ffc"
    "4 < unat l \<Longrightarrow> unat l \<le> 8 \<Longrightarrow> mask_table l = 0x3ff8"
    "8 < unat l \<Longrightarrow> unat l \<le> 16 \<Longrightarrow> mask_table l = 0x3ff0"
    "16 < unat l \<Longrightarrow> unat l \<le> 32 \<Longrightarrow> mask_table l = 0x3fe0"
    "32 < unat l \<Longrightarrow> unat l \<le> 64 \<Longrightarrow> mask_table l = 0x3fc0"
    "64 < unat l \<Longrightarrow> unat l \<le> 128 \<Longrightarrow> mask_table l = 0x3f80"
    "128 < unat l \<Longrightarrow> unat l \<le> 256 \<Longrightarrow> mask_table l = 0x3f00"
    "256 < unat l \<Longrightarrow> unat l \<le> 512 \<Longrightarrow> mask_table l = 0x3e00"
    "512 < unat l \<Longrightarrow> unat l \<le> 1024 \<Longrightarrow> mask_table l = 0x3c00"
    "1024 < unat l \<Longrightarrow> unat l \<le> 2048 \<Longrightarrow> mask_table l = 0x3800"
    "2048 < unat l \<Longrightarrow> unat l \<le> 4096 \<Longrightarrow> mask_table l = 0x3000"
    "4096 < unat l \<Longrightarrow> unat l \<le> 8192 \<Longrightarrow> mask_table l = 0x2000"
    "8192 < unat l \<Longrightarrow> mask_table l = 0"
  by (simp_all add: mask_table_def word_less_nat_alt)

lemma mask_rows:
  "(0x3fff :: u32) = 0x3fff AND NOT (mask 0)"
  "(0x3ffe :: u32) = 0x3fff AND NOT (mask 1)"
  "(0x3ffc :: u32) = 0x3fff AND NOT (mask 2)"
  "(0x3ff8 :: u32) = 0x3fff AND NOT (mask 3)"
  "(0x3ff0 :: u32) = 0x3fff AND NOT (mask 4)"
  "(0x3fe0 :: u32) = 0x3fff AND NOT (mask 5)"
  "(0x3fc0 :: u32) = 0x3fff AND NOT (mask 6)"
  "(0x3f80 :: u32) = 0x3fff AND NOT (mask 7)"
  "(0x3f00 :: u32) = 0x3fff AND NOT (mask 8)"
  "(0x3e00 :: u32) = 0x3fff AND NOT (mask 9)"
  "(0x3c00 :: u32) = 0x3fff AND NOT (mask 10)"
  "(0x3800 :: u32) = 0x3fff AND NOT (mask 11)"
  "(0x3000 :: u32) = 0x3fff AND NOT (mask 12)"
  "(0x2000 :: u32) = 0x3fff AND NOT (mask 13)"
  "(0x0000 :: u32) = 0x3fff AND NOT (mask 14)"
  by (simp_all add: mask_numeral)

lemma mask_table_power:
  assumes "c \<le> 14" "unat l \<le> 2 ^ c" "c = 0 \<or> 2 ^ (c - 1) < unat l"
  shows "ucast (mask_table l) = 0x3fff AND NOT (mask c :: u32)"
proof -
  have "c = 0 \<or> c = 1 \<or> c = 2 \<or> c = 3 \<or> c = 4 \<or> c = 5 \<or> c = 6 \<or> c = 7 \<or> c = 8 \<or> c = 9 \<or> c = 10
      \<or> c = 11 \<or> c = 12 \<or> c = 13 \<or> c = 14" using assms(1) by presburger
  then show ?thesis
    by (elim disjE) (use assms(2,3) in \<open>simp_all add: mask_table_rows mask_numeral\<close>)
qed

lemma mask_table_row:
  assumes "0 < unat l" "unat l < 0x4000"
  shows "\<exists>c\<le>14. unat l \<le> 2 ^ c \<and> 2 ^ c < 2 * unat l
    \<and> ucast (mask_table l) = 0x3fff AND NOT (mask c :: u32)"
proof -
  define c where "c = (LEAST c. unat l \<le> 2 ^ c)"
  have 14: "unat l \<le> 2 ^ 14" using assms(2) by simp
  then have c: "c \<le> 14" "unat l \<le> 2 ^ c" unfolding c_def by (rule Least_le, rule LeastI)
  have m: "c = 0 \<or> 2 ^ (c - 1) < unat l"
  proof (cases c)
    case (Suc d)
    then have "\<not> unat l \<le> 2 ^ d" using not_less_Least [of d "\<lambda>c. unat l \<le> 2 ^ c"] by (simp add: c_def)
    then show ?thesis using Suc by simp
  qed simp
  then have "2 ^ c < 2 * unat l" using assms(1) by (cases c) auto
  then show ?thesis using c m mask_table_power by blast
qed

text \<open>
  Circular buffers are aligned to a power of two.  After \<open>L = l\<close> and \<open>I = i\<close> the base is \<open>i\<close>
  rounded down to a multiple of the least power of two that is at least \<open>l\<close>.
\<close>

theorem buffer_base_aligned:
  assumes "0 < unat (l AND 0x3fff)" "s' = wr_i k (wr_l k s l) i"
  shows "\<exists>c\<le>14. unat (l AND 0x3fff) \<le> 2 ^ c \<and> 2 ^ c < 2 * unat (l AND 0x3fff)
    \<and> uint (dag_base s' k) = uint (i AND 0x3fff) - uint (i AND 0x3fff) mod 2 ^ c
    \<and> dag_l s' k = l AND 0x3fff \<and> dag_i s' k = i AND 0x3fff"
proof -
  have "unat (l AND 0x3fff) < 0x4000" by (rule unat_and_less) simp
  then obtain c where c: "c \<le> 14" "unat (l AND 0x3fff) \<le> 2 ^ c" "2 ^ c < 2 * unat (l AND 0x3fff)"
    "ucast (mask_table (l AND 0x3fff)) = 0x3fff AND NOT (mask c :: u32)"
    using mask_table_row assms(1) by blast
  have "dag_base s' k = (i AND 0x3fff) AND NOT (mask c)"
    unfolding assms(2) wr_i_def wr_l_def update_i_def update_l_def Let_def
    by (simp add: c(4) and.assoc [symmetric])
  then show ?thesis
    using c and_not_mask [of c "i AND 0x3fff"]
    by (auto simp: assms(2) wr_i_def wr_l_def update_i_def update_l_def Let_def)
qed

theorem buffer_base_aligned_witness:
  "\<exists>c\<le>14. (100 :: nat) \<le> 2 ^ c \<and> 2 ^ c < (200 :: nat) \<and>
     uint (dag_base (wr_i 0 (wr_l 0 adsp2181_zero 100) 0x1234) 0) = 0x1234 - 0x1234 mod 2 ^ c"
  using buffer_base_aligned [where l = 100 and k = 0 and s = adsp2181_zero and i = "0x1234", OF _ refl]
  by auto

text \<open>
  C3. Walking a circular buffer.  From an index inside a buffer \<open>[b, b + l)\<close>, \<open>n\<close> modifications by
  the same \<open>m\<close> with \<open>|m| \<le> l\<close> end at \<open>b + (i - b + n m) mod l\<close>, which is inside the buffer.
\<close>

theorem circular_walk:
  assumes "wf_dag s" "uint (dag_base s k) \<le> uint (dag_i s k)"
    and "uint (dag_i s k) < uint (dag_base s k) + uint (dag_l s k)"
    and "uint (dag_base s k) + uint (dag_l s k) \<le> 0x4000" "\<bar>sint (dag_m s j)\<bar> \<le> uint (dag_l s k)"
  shows "uint (dag_i (((\<lambda>s. modify_address s k j) ^^ n) s) k) = uint (dag_base s k) +
     (uint (dag_i s k) - uint (dag_base s k) + int n * sint (dag_m s j)) mod uint (dag_l s k)"
proof -
  define f where "f = (\<lambda>s. modify_address s k j)"
  define b l m i where "b = uint (dag_base s k)" and "l = uint (dag_l s k)"
    and "m = sint (dag_m s j)" and "i = uint (dag_i s k)"
  have l: "0 < l" using assms(2,3) by (simp add: l_def)
  have "wf_dag ((f ^^ n) s) \<and> dag_base ((f ^^ n) s) = dag_base s \<and> dag_l ((f ^^ n) s) = dag_l s
    \<and> dag_m ((f ^^ n) s) = dag_m s \<and> uint (dag_i ((f ^^ n) s) k) = b + (i - b + int n * m) mod l"
  proof (induction n)
    case 0
    then show ?case using assms(1-3) by (simp add: b_def l_def i_def)
  next
    case (Suc n)
    define t where "t = (f ^^ n) s"
    have t: "wf_dag t" "dag_base t = dag_base s" "dag_l t = dag_l s" "dag_m t = dag_m s"
      "uint (dag_i t k) = b + (i - b + int n * m) mod l" using Suc by (simp_all add: t_def)
    have "uint (modified_address t k j) = modify_int (uint (dag_i t k)) m l b"
      using modified_address_int [OF t(1), of k j] by (simp add: t m_def l_def b_def)
    also have "\<dots> = b + ((i - b + int n * m) mod l + m) mod l"
      using assms l by (subst modify_int_circular) (simp_all add: t b_def l_def m_def)
    also have "\<dots> = b + (i - b + int (Suc n) * m) mod l"
      by (simp add: mod_add_left_eq) (simp add: algebra_simps)
    finally have "uint (dag_i (f t) k) = b + (i - b + int (Suc n) * m) mod l"
      by (simp add: f_def modify_address_def)
    moreover have "wf_dag (f t)"
      using t(1) by (simp add: f_def modify_address_def wf_dag_def modified_address_def Let_def and_3fff)
    ultimately show ?case using t by (simp add: t_def f_def modify_address_def)
  qed
  then show ?thesis by (simp add: f_def b_def l_def m_def i_def)
qed

theorem circular_walk_witness:
  "uint (dag_i (((\<lambda>s. modify_address s 0 0) ^^ 3)
      (wr_m 0 (wr_i 0 (wr_l 0 adsp2181_zero 5) 0x100) 2)) 0) = 0x101"
  using circular_walk [where s = "wr_m 0 (wr_i 0 (wr_l 0 adsp2181_zero 5) 0x100) 2"
      and k = 0 and j = 0 and n = 3]
  by (simp add: wr_m_def wr_i_def wr_l_def update_i_def update_l_def mask_table_def wf_dag_def
      sign_extend_14_def adsp2181_zero_def Let_def)

section \<open>Bit-reversed addressing\<close>

lemma fold_or_bits:
  "bit (fold (\<lambda>b r. r OR push_bit (13 - b) (ucast (drop_bit b i AND 1))) bs r) n \<longleftrightarrow>
     bit (r :: u16) n \<or> (\<exists>b\<in>set bs. n < 16 \<and> 13 - b = n \<and> bit (i :: u32) b)"
proof (induction bs arbitrary: r)
  case (Cons b bs)
  have "bit (push_bit (13 - b) (ucast (drop_bit b i AND 1) :: u16)) n \<longleftrightarrow> n < 16 \<and> 13 - b = n \<and> bit i b"
    by (auto simp: bit_simps bit_1_iff)
  then show ?case by (auto simp: Cons bit_or_iff)
qed simp

lemma bit_reverse_table: "bit (reverse_table i) n \<longleftrightarrow> n < 14 \<and> bit i (13 - n)"
  unfolding reverse_table_def fold_or_bits by (auto intro: bexI [of _ "13 - n"])

text \<open>
  Bit-reversed addressing is an involution on 14-bit addresses: the table entry of a table entry
  is the address itself, so no two addresses are served by the same reversed word.
\<close>

theorem bit_reverse_involution:
  assumes "i < 0x4000"
  shows "ucast (reverse_table (ucast (reverse_table i))) = i"
proof -
  have "i AND mask 14 = i" using less_mask_eq [of i 14] assms by simp
  then have "bit i n \<Longrightarrow> n < 14" for n by (metis bit_and_iff bit_mask_iff)
  then have "n < 14 \<and> bit i (13 - (13 - n)) \<longleftrightarrow> bit i n" for n by (cases "n < 14") auto
  then show ?thesis
    by (intro bit_word_eqI) (simp add: bit_simps bit_reverse_table, fastforce)
qed

theorem bit_reverse_involution_witness:
  "ucast (reverse_table (ucast (reverse_table 0x0123))) = (0x0123 :: u32)"
  by (rule bit_reverse_involution) simp

end
