(* ===== verification/Arithmetic.thy ===== *)
theory Arithmetic
  imports Wellformed
begin

text \<open>
  The ALU against integer arithmetic: the flag macros bit by bit, addition and subtraction with
  their four flags and AR saturation, multi-word addition, and the results of all sixteen functions.
\<close>

section \<open>The flag expressions bit by bit\<close>

lemma and_pow_bit: "bit (w AND 2 ^ n) k \<longleftrightarrow> k = n \<and> bit w n" for w :: u32
proof -
  have "(2 :: u32) ^ n = push_bit n 1" by simp
  then show ?thesis by (simp only: bit_and_iff bit_push_bit_iff bit_1_iff) (auto dest: bit_imp_le_length)
qed

lemma bit_flags:
  "bit (CALC_Z r) k \<longleftrightarrow> k = 0 \<and> (ucast r :: u16) = 0"
  "bit (CALC_N r) k \<longleftrightarrow> k = 1 \<and> bit r 15"
  "bit (CALC_C r) k \<longleftrightarrow> k = 3 \<and> bit r 16"
  "bit (CALC_C_SUB r) k \<longleftrightarrow> k = 3 \<and> \<not> bit r 16"
  "bit (CALC_V x d r) k \<longleftrightarrow> k = 2 \<and> ((bit x 15 \<noteq> bit d 15) \<noteq> (bit r 15 \<noteq> bit r 16))"
proof -
  have "r AND mask 16 = ucast (ucast r :: u16)"
    by (rule bit_word_eqI) (auto simp: bit_simps dest: bit_imp_le_length)
  then have "r AND 0xffff = ucast (ucast r :: u16)" by (simp add: mask_numeral)
  moreover have "(ucast z = (0 :: u32)) = (z = 0)" for z :: u16
    by (metis u16_u32_u16 unsigned_0)
  ultimately have "(r AND 0xffff = 0) = ((ucast r :: u16) = 0)" by simp
  then show "bit (CALC_Z r) k \<longleftrightarrow> k = 0 \<and> (ucast r :: u16) = 0"
    by (auto simp: CALC_Z_def bit_1_iff)
  show "bit (CALC_N r) k \<longleftrightarrow> k = 1 \<and> bit r 15"
    using and_pow_bit [of "signed_drop_bit 14 r" 1 k] by (simp add: CALC_N_def bit_signed_drop_bit_iff)
  show "bit (CALC_C r) k \<longleftrightarrow> k = 3 \<and> bit r 16"
    using and_pow_bit [of "signed_drop_bit 13 r" 3 k] by (simp add: CALC_C_def bit_signed_drop_bit_iff)
  show "bit (CALC_C_SUB r) k \<longleftrightarrow> k = 3 \<and> \<not> bit r 16"
    using and_pow_bit [of "signed_drop_bit 13 (NOT r)" 3 k]
    by (simp add: CALC_C_SUB_def bit_signed_drop_bit_iff bit_not_iff)
  show "bit (CALC_V x d r) k \<longleftrightarrow> k = 2 \<and> ((bit x 15 \<noteq> bit d 15) \<noteq> (bit r 15 \<noteq> bit r 16))"
    using and_pow_bit [of "signed_drop_bit 13 (x XOR d XOR r XOR signed_drop_bit 1 r)" 2 k]
    by (auto simp: CALC_V_def bit_signed_drop_bit_iff bit_xor_iff)
qed

section \<open>Carry and overflow as integer facts\<close>

text \<open>
  All ALU sums and differences are exact integers \<open>S\<close> in \<open>[-2^16, 2^17)\<close>; the 32-bit C variable
  holds \<open>S\<close>, the register gets its low half.
\<close>

lemma mod_window:
  fixes t m q :: int
  assumes "q * m \<le> t" "t < q * m + m"
  shows "t mod m = t - q * m" "t div m = q"
proof -
  show "t div m = q" by (rule int_div_pos_eq [where r = "t - q * m"]) (use assms in \<open>auto simp: mult.commute\<close>)
  then show "t mod m = t - q * m" by (simp add: minus_div_mult_eq_mod [symmetric])
qed

lemma half_words_window:
  fixes S q :: int
  assumes "q * 0x8000 \<le> S" "S < q * 0x8000 + 0x8000"
  shows "bit (word_of_int S :: u32) 15 \<longleftrightarrow> odd q" "bit (word_of_int S :: u32) 16 \<longleftrightarrow> odd (q div 2)"
    "sint (word_of_int S :: u16) = S - (q + 1) div 2 * 0x10000"
proof -
  have b: "bit (word_of_int S :: u32) n \<longleftrightarrow> odd (S div 2 ^ n)" if "n < 32" for n
    using that by (simp only: bit_word_of_int_iff bit_iff_odd [of S]) simp
  have d: "S div 0x8000 = q" "(S + 0x8000) div 0x8000 = q + 1"
    using mod_window(2) [OF assms] by simp_all
  have "S div (0x8000 * 2) = q div 2" "(S + 0x8000) div (0x8000 * 2) = (q + 1) div 2"
    by (simp_all only: zdiv_zmult2_eq d)
  then have d2: "S div 0x10000 = q div 2" "(S + 0x8000) div 0x10000 = (q + 1) div 2" by simp_all
  show "bit (word_of_int S :: u32) 15 \<longleftrightarrow> odd q" "bit (word_of_int S :: u32) 16 \<longleftrightarrow> odd (q div 2)"
    using b [of 15] b [of 16] d(1) d2(1) by simp_all
  have "(S + 0x8000) mod 0x10000 = S + 0x8000 - (q + 1) div 2 * 0x10000"
    by (simp only: minus_div_mult_eq_mod [symmetric] d2)
  then show "sint (word_of_int S :: u16) = S - (q + 1) div 2 * 0x10000"
    by (simp add: int_word_sint)
qed

lemma half_words:
  fixes S :: int
  assumes "- 0x10000 \<le> S" "S < 0x20000"
  shows "bit (word_of_int S :: u32) 15 \<longleftrightarrow>
      S < 0 \<and> - 0x8000 \<le> S \<or> 0x8000 \<le> S \<and> S < 0x10000 \<or> 0x18000 \<le> S" (is ?A)
    and "bit (word_of_int S :: u32) 16 \<longleftrightarrow> S < 0 \<or> 0x10000 \<le> S" (is ?B)
    and "sint (word_of_int S :: u16) = (if S < - 0x8000 then S + 0x10000 else if S < 0x8000 then S
       else if S < 0x18000 then S - 0x10000 else S - 0x20000)" (is ?C)
proof -
  consider "S < - 0x8000" | "- 0x8000 \<le> S" "S < 0" | "0 \<le> S" "S < 0x8000" | "0x8000 \<le> S" "S < 0x10000"
    | "0x10000 \<le> S" "S < 0x18000" | "0x18000 \<le> S" by linarith
  then have "?A \<and> ?B \<and> ?C"
  proof cases
    case 1 then show ?thesis using half_words_window [of "-2" S] assms by simp
  next
    case 2 then show ?thesis using half_words_window [of "-1" S] by simp
  next
    case 3 then show ?thesis using half_words_window [of 0 S] by simp
  next
    case 4 then show ?thesis using half_words_window [of 1 S] by simp
  next
    case 5 then show ?thesis using half_words_window [of 2 S] by simp
  next
    case 6 then show ?thesis using half_words_window [of 3 S] assms by simp
  qed
  then show ?A ?B ?C by blast+
qed

lemma sint_u16: "sint w = (if uint w < 0x8000 then uint w else uint w - 0x10000)" for w :: u16
  using half_words(3) [of "uint w"] uint_lt2p [of w] uint_ge_0 [of w] by simp

lemma bit15_u16: "bit w 15 \<longleftrightarrow> 0x8000 \<le> uint w" for w :: u16
proof -
  have "bit w 15 \<longleftrightarrow> sint w < 0" using bit_last_iff [of w] by simp
  then show ?thesis using uint_lt2p [of w] by (simp add: sint_u16)
qed

text \<open>The overflow expression, for an addition and for a subtraction.\<close>

lemma uint_u16_range: "0 \<le> uint w" "uint w < 0x10000" for w :: u16
  using uint_lt2p [of w] by simp_all

lemma add_overflow:
  fixes x y :: u16
  assumes S: "S = uint x + uint y + c" "0 \<le> c" "c \<le> 1"
  shows "((bit x 15 \<noteq> bit y 15) \<noteq> (bit (word_of_int S :: u32) 15 \<noteq> bit (word_of_int S :: u32) 16))
     \<longleftrightarrow> sint (word_of_int S :: u16) \<noteq> sint x + sint y + c"
proof -
  have r: "- 0x10000 \<le> S" "S < 0x20000"
    using S uint_u16_range [of x] uint_u16_range [of y] by linarith+
  show ?thesis
    unfolding half_words [OF r] sint_u16 [of x] sint_u16 [of y] bit15_u16
    using S uint_u16_range [of x] uint_u16_range [of y]
    by (cases "uint x < 0x8000"; cases "uint y < 0x8000"; cases "S < - 0x8000"; cases "S < 0";
        cases "S < 0x8000"; cases "S < 0x10000"; cases "S < 0x18000"; simp only: simp_thms if_True if_False;
        linarith)
qed

lemma sub_overflow:
  fixes x y :: u16
  assumes S: "S = uint x - uint y - c" "0 \<le> c" "c \<le> 1"
  shows "((bit x 15 \<noteq> bit y 15) \<noteq> (bit (word_of_int S :: u32) 15 \<noteq> bit (word_of_int S :: u32) 16))
     \<longleftrightarrow> sint (word_of_int S :: u16) \<noteq> sint x - sint y - c"
proof -
  have r: "- 0x10000 \<le> S" "S < 0x20000"
    using S uint_u16_range [of x] uint_u16_range [of y] by linarith+
  show ?thesis
    unfolding half_words [OF r] sint_u16 [of x] sint_u16 [of y] bit15_u16
    using S uint_u16_range [of x] uint_u16_range [of y]
    by (cases "uint x < 0x8000"; cases "uint y < 0x8000"; cases "S < - 0x8000"; cases "S < 0";
        cases "S < 0x8000"; cases "S < 0x10000"; cases "S < 0x18000"; simp only: simp_thms if_True if_False;
        linarith)
qed


section \<open>Flags after an operation\<close>

definition plain_flags :: "adsp2181 \<Rightarrow> bool" where
  "plain_flags s \<longleftrightarrow> clear_linked s \<and> mstat s AND MSTAT_STICKYV = 0"

lemma plain_clear: "plain_flags s \<Longrightarrow> k < 4 \<Longrightarrow> \<not> bit (astat_clear s) k"
proof -
  assume p: "plain_flags s" and k: "k < 4"
  have "astat_clear s = NOT (mask 4)"
    using p by (simp add: plain_flags_def clear_linked_def mask_numeral)
  then show ?thesis using k by (simp add: bit_simps)
qed

lemma plain_flags_cong:
  "astat_clear t = astat_clear s \<Longrightarrow> mstat t = mstat s \<Longrightarrow> plain_flags t = plain_flags s"
  by (simp add: plain_flags_def clear_linked_def)

lemma calc_bits:
  assumes "plain_flags s" "k < 4"
  shows "bit (astat (CALC_NZ r s)) k \<longleftrightarrow> bit (CALC_N r) k \<or> bit (CALC_Z r) k"
    "bit (astat (CALC_NZVC x d r s)) k \<longleftrightarrow>
       bit (CALC_N r) k \<or> bit (CALC_Z r) k \<or> bit (CALC_V x d r) k \<or> bit (CALC_C r) k"
    "bit (astat (CALC_NZVC_SUB x d r s)) k \<longleftrightarrow>
       bit (CALC_N r) k \<or> bit (CALC_Z r) k \<or> bit (CALC_V x d r) k \<or> bit (CALC_C_SUB r) k"
  using plain_clear [OF assms]
  by (simp_all add: CALC_NZ_def CALC_NZVC_def CALC_NZVC_SUB_def set_astat_def bit_or_iff bit_and_iff)

lemma low_half:
  "(ucast (word_of_int S :: u32) :: u16) = word_of_int S"
  "bit (word_of_int S :: u32) 15 \<longleftrightarrow> sint (word_of_int S :: u16) < 0"
proof -
  show u: "(ucast (word_of_int S :: u32) :: u16) = word_of_int S" by (simp add: ucast_down_wi is_down)
  have "bit (word_of_int S :: u32) 15 = bit (word_of_int S :: u16) 15" by (simp add: bit_word_of_int_iff)
  then show "bit (word_of_int S :: u32) 15 \<longleftrightarrow> sint (word_of_int S :: u16) < 0"
    using bit_last_iff [of "word_of_int S :: u16"] by simp
qed

text \<open>The exact integer result \<open>S\<close> determines all four flags.\<close>

definition flags_of :: "int \<Rightarrow> bool \<Rightarrow> bool \<Rightarrow> adsp2181 \<Rightarrow> bool" where
  "flags_of S v c s \<longleftrightarrow> (bit (astat s) 0 \<longleftrightarrow> (word_of_int S :: u16) = 0)
     \<and> (bit (astat s) 1 \<longleftrightarrow> sint (word_of_int S :: u16) < 0)
     \<and> (bit (astat s) 2 \<longleftrightarrow> v) \<and> (bit (astat s) 3 \<longleftrightarrow> c)"

lemma add_flags:
  fixes x y :: u16
  assumes "plain_flags s" "S = uint x + uint y + c" "0 \<le> c" "c \<le> 1"
  shows "flags_of S ((sint (word_of_int S :: u16) \<noteq> sint x + sint y + c) \<noteq> (bit d 15 \<noteq> bit y 15))
     (0x10000 \<le> S) (CALC_NZVC (ucast x) d (word_of_int S) s)"
proof -
  have "0 \<le> S" "S < 0x20000" using assms uint_u16_range [of x] uint_u16_range [of y] by linarith+
  then have "bit (word_of_int S :: u32) 16 \<longleftrightarrow> 0x10000 \<le> S" using half_words(2) [of S] by auto
  then show ?thesis
    using add_overflow [OF assms(2-4)] assms(1)
    by (auto simp: flags_of_def calc_bits bit_flags low_half bit_unsigned_iff)
qed

lemma sub_flags:
  fixes x y :: u16
  assumes "plain_flags s" "S = uint x - uint y - c" "0 \<le> c" "c \<le> 1"
  shows "flags_of S (sint (word_of_int S :: u16) \<noteq> sint x - sint y - c) (0 \<le> S)
     (CALC_NZVC_SUB (ucast x) (ucast y) (word_of_int S) s)"
proof -
  have "- 0x10000 \<le> S" "S < 0x10000" using assms uint_u16_range [of x] uint_u16_range [of y] by linarith+
  then have "\<not> bit (word_of_int S :: u32) 16 \<longleftrightarrow> 0 \<le> S" using half_words(2) [of S] by auto
  then show ?thesis
    using sub_overflow [OF assms(2-4)] assms(1)
    by (auto simp: flags_of_def calc_bits bit_flags low_half bit_unsigned_iff)
qed


section \<open>Addition and subtraction instructions\<close>

definition clamp16 :: "int \<Rightarrow> int" where
  "clamp16 v = (if v < - 0x8000 then - 0x8000 else if 0x8000 \<le> v then 0x7fff else v)"

text \<open>What the AR forms store: the low half, or the clamped exact value in saturation mode.\<close>

definition ar_result :: "adsp2181 \<Rightarrow> int \<Rightarrow> u16" where
  "ar_result s E = (if mstat s AND MSTAT_SATURATE \<noteq> 0 then word_of_int (clamp16 E) else word_of_int E)"

lemma GET_C_bit: "drop_bit 3 (GET_C s) = of_bool (bit (astat s) 3)"
proof (cases "bit (astat s) 3")
  case True
  have "astat s AND 2 ^ 3 = - 1 AND 2 ^ 3"
    using True by (intro bit_word_eqI) (simp only: and_pow_bit, simp)
  then have "astat s AND 8 = 8" by simp
  then show ?thesis using True by (simp add: GET_C_def)
next
  case False
  then have "astat s AND 8 = 0" using bit_numeral_masks(2) [of "astat s"] by auto
  then show ?thesis using False by (simp add: GET_C_def)
qed

lemma calc_frame [simp]:
  "mstat (CALC_NZVC x d r s) = mstat s" "core (CALC_NZVC x d r s) = core s"
  "mstat (CALC_NZVC_SUB x d r s) = mstat s" "core (CALC_NZVC_SUB x d r s) = core s"
  by (simp_all add: CALC_NZVC_def CALC_NZVC_SUB_def set_astat_def)

lemma saturate_exact:
  assumes f: "flags_of S (sint (word_of_int S :: u16) \<noteq> E) c s1"
    and E: "(word_of_int E :: u16) = word_of_int S" "- 0x18000 \<le> E" "E < 0x18000"
    and c: "E < - 0x8000 \<longrightarrow> c" "0x8000 \<le> E \<longrightarrow> \<not> c"
  shows "ucast (alu_saturate (word_of_int S) s1) = ar_result s1 E"
proof -
  have v: "astat s1 AND VFLAG \<noteq> 0 \<longleftrightarrow> sint (word_of_int S :: u16) \<noteq> E"
    and g: "GET_C s1 \<noteq> 0 \<longleftrightarrow> c"
    using f by (simp_all add: flags_of_def GET_C_def bit_numeral_masks)
  have "sint (word_of_int E :: u16) = E \<longleftrightarrow> - 0x8000 \<le> E \<and> E < 0x8000"
    by (simp only: sint_sbintrunc' signed_take_bit_int_eq_self_iff) simp
  then have o: "sint (word_of_int S :: u16) \<noteq> E \<longleftrightarrow> E < - 0x8000 \<or> 0x8000 \<le> E"
    unfolding E(1) by auto
  show ?thesis
  proof (cases "mstat s1 AND MSTAT_SATURATE \<noteq> 0 \<and> (E < - 0x8000 \<or> 0x8000 \<le> E)")
    case True
    then have "alu_saturate (word_of_int S) s1 = (if c then - 32768 else 32767)"
      by (simp only: alu_saturate_def v g o) simp
    moreover have "clamp16 E = (if c then - 32768 else 32767)"
      using True c by (cases "E < - 0x8000") (simp_all add: clamp16_def)
    ultimately show ?thesis using True by (simp add: ar_result_def)
  next
    case False
    then have "alu_saturate (word_of_int S) s1 = word_of_int S"
      by (simp only: alu_saturate_def v g o) auto
    moreover have "ar_result s1 E = word_of_int S"
      using False E(1) by (auto simp: ar_result_def clamp16_def)
    ultimately show ?thesis using low_half(1) [of S] by simp
  qed
qed

lemma signed_ranges:
  fixes A B c :: int
  assumes "0 \<le> c" "c \<le> 1" "0 \<le> A" "A < 0x10000" "0 \<le> B" "B < 0x10000"
    and "a = (if A < 0x8000 then A else A - 0x10000)" "b = (if B < 0x8000 then B else B - 0x10000)"
  shows "- 0x18000 \<le> a + b + c \<and> a + b + c < 0x18000 \<and> - 0x18000 \<le> a - b - c \<and> a - b - c < 0x18000"
    "a + b + c < - 0x8000 \<Longrightarrow> 0x10000 \<le> A + B + c" "0x8000 \<le> a + b + c \<Longrightarrow> A + B + c < 0x10000"
    "a - b - c < - 0x8000 \<Longrightarrow> 0 \<le> A - B - c" "0x8000 \<le> a - b - c \<Longrightarrow> A - B - c < 0"
  using assms by (simp_all split: if_splits)

text \<open>
  C1. \<open>AR = X + Y\<close>: with overflow not sticky, AR receives the sum modulo \<open>2^16\<close>, or the exact signed
  sum clamped to 16 bits in saturation mode; AZ and AN describe the sum, AC is the unsigned carry
  and AV says that the signed sum does not fit.
\<close>

theorem alu_add_correct:
  assumes "plain_flags s" "alu_n op = 3"
    and "x = alu_xreg (core s) (op_x op)" "y = alu_yreg (core s) (op_y op)"
  shows "ar (core (alu_op_ar s op)) = ar_result s (sint x + sint y)
     \<and> flags_of (sint x + sint y) (sint (x + y) \<noteq> sint x + sint y) (0x10000 \<le> uint x + uint y)
         (alu_op_ar s op)"
proof -
  define S where "S = uint x + uint y + 0"
  define t where "t = CALC_NZVC (ucast x) (ucast y) (word_of_int S) s"
  have w: "(word_of_int (sint x + sint y) :: u16) = word_of_int S" "word_of_int S = x + y"
    by (simp_all add: S_def)
  have r: "(ucast x + ucast y :: u32) = word_of_int S" by (simp add: S_def)
  have op: "alu_op_ar s op = upd_core (\<lambda>c. c\<lparr>ar := ucast (alu_saturate (word_of_int S) t)\<rparr>) t"
    unfolding alu_op_ar_def assms(2) assms(3,4) [symmetric] alu_switch_def Let_def r t_def by simp
  have f: "flags_of S (sint (word_of_int S :: u16) \<noteq> sint x + sint y) (0x10000 \<le> S) t"
    using add_flags [OF assms(1) S_def, of "ucast y"] by (simp add: t_def bit_unsigned_iff)
  have "ucast (alu_saturate (word_of_int S) t) = ar_result t (sint x + sint y)"
    using signed_ranges [OF _ _ uint_u16_range uint_u16_range sint_u16 sint_u16, of 0 x y]
    by (intro saturate_exact [OF f w(1)]) (auto simp: S_def)
  then show ?thesis
    using f by (simp add: op flags_of_def ar_result_def t_def w S_def)
qed

text \<open>
  The subtractions are the functions 6 (\<open>X - Y + C - 1\<close>), 7 (\<open>X - Y\<close>), 9 (\<open>Y - X\<close>) and 10 (\<open>Y - X + C - 1\<close>):
  what is taken from what, and the borrow of the forms with carry.
\<close>

definition sub_borrow :: "adsp2181 \<Rightarrow> nat \<Rightarrow> int" where
  "sub_borrow s n = (if n \<in> {6, 10} \<and> \<not> bit (astat s) 3 then 1 else 0)"

definition sub_exact :: "adsp2181 \<Rightarrow> nat \<Rightarrow> u16 \<Rightarrow> u16 \<Rightarrow> int" where
  "sub_exact s n x y = (if n \<le> 7 then sint x - sint y else sint y - sint x) - sub_borrow s n"

definition sub_status :: "adsp2181 \<Rightarrow> nat \<Rightarrow> u16 \<Rightarrow> u16 \<Rightarrow> adsp2181 \<Rightarrow> bool" where
  "sub_status s n x y t \<longleftrightarrow>
     flags_of (sub_exact s n x y) (\<not> (- 0x8000 \<le> sub_exact s n x y \<and> sub_exact s n x y < 0x8000))
       (if n \<le> 7 then uint y + sub_borrow s n \<le> uint x else uint x + sub_borrow s n \<le> uint y) t"

lemma sub_step:
  fixes x y :: u16
  assumes "plain_flags s" "0 \<le> b" "b \<le> 1" "S = uint x - uint y - b" "E = sint x - sint y - b"
    and "t = CALC_NZVC_SUB (ucast x) (ucast y) (word_of_int S) s"
  shows "ucast (alu_saturate (word_of_int S) t) = ar_result s E" "(word_of_int E :: u16) = word_of_int S"
    "flags_of E (\<not> (- 0x8000 \<le> E \<and> E < 0x8000)) (uint y + b \<le> uint x) t"
proof -
  have w: "(word_of_int E :: u16) = word_of_int S" by (simp add: assms(4,5))
  have f: "flags_of S (sint (word_of_int S :: u16) \<noteq> E) (0 \<le> S) t"
    using sub_flags [OF assms(1,4,2,3)] by (simp add: assms(5,6))
  have "ucast (alu_saturate (word_of_int S) t) = ar_result t E"
    using signed_ranges [OF assms(2,3) uint_u16_range uint_u16_range sint_u16 sint_u16, of x y]
    by (intro saturate_exact [OF f w]) (auto simp: assms(4,5))
  then show "ucast (alu_saturate (word_of_int S) t) = ar_result s E" by (simp add: ar_result_def assms(6))
  have "sint (word_of_int S :: u16) \<noteq> E \<longleftrightarrow> \<not> (- 0x8000 \<le> E \<and> E < 0x8000)"
    unfolding w [symmetric] by (simp only: sint_sbintrunc' signed_take_bit_int_eq_self_iff) simp
  then show "flags_of E (\<not> (- 0x8000 \<le> E \<and> E < 0x8000)) (uint y + b \<le> uint x) t"
    using f unfolding flags_of_def w by (simp add: assms(4) algebra_simps)
  show "(word_of_int E :: u16) = word_of_int S" by (rule w)
qed

lemma sub_switch:
  assumes "plain_flags s" "n \<in> {6, 7, 9, 10}"
  obtains S t where "alu_switch n (ucast x) (ucast y) s = (word_of_int S, t)" "core t = core s"
    "ucast (alu_saturate (word_of_int S) t) = ar_result s (sub_exact s n x y)"
    "(word_of_int S :: u16) = word_of_int (sub_exact s n x y)" "sub_status s n x y t"
proof -
  define b where "b = sub_borrow s n"
  have b: "0 \<le> b" "b \<le> 1" by (simp_all add: b_def sub_borrow_def)
  define p q where "p = (if n \<le> 7 then x else y)" and "q = (if n \<le> 7 then y else x)"
  define S where "S = uint p - uint q - b"
  define t where "t = CALC_NZVC_SUB (ucast p) (ucast q) (word_of_int S) s"
  have E: "sub_exact s n x y = sint p - sint q - b" by (simp add: sub_exact_def p_def q_def b_def)
  have "alu_switch n (ucast x) (ucast y) s = (word_of_int S, t)"
    using assms(2) by (auto simp: alu_switch_def Let_def t_def S_def p_def q_def b_def sub_borrow_def GET_C_bit)
  moreover have "core t = core s" by (simp add: t_def)
  moreover have "sub_status s n x y t"
    using sub_step(3) [OF assms(1) b S_def E t_def] by (cases "n \<le> 7") (simp_all add: sub_status_def p_def q_def b_def)
  ultimately show thesis using sub_step(1,2) [OF assms(1) b S_def E t_def] by (intro that) simp_all
qed

lemma alu_const_16: "ucast (ucast (alu_const op) :: u16) = alu_const op"
proof -
  have "\<forall>c \<in> set alu_constants. ucast (ucast c :: u16) = c" by (simp add: alu_constants_def)
  moreover have "unat ((drop_bit 5 op AND 0x07) OR (drop_bit 8 op AND 0x18)) < length alu_constants"
  proof -
    have "(drop_bit 5 op AND 0x07) OR (drop_bit 8 op AND 0x18) = ((drop_bit 5 op AND 0x07) OR (drop_bit 8 op AND 0x18)) AND 0x1f"
      by (simp add: bit.conj_disj_distrib2 and.assoc)
    also have "unat \<dots> < 32" by (rule unat_and_less) simp
    finally show ?thesis by (simp add: alu_constants_def)
  qed
  ultimately show ?thesis by (simp add: alu_const_def)
qed

lemma sub_status_upd: "sub_status s n x y (upd_core f t) = sub_status s n x y t"
  by (simp add: sub_status_def flags_of_def)

text \<open>
  C10. The four subtractions in their five forms, with overflow not sticky.  \<open>X - Y\<close>, \<open>Y - X\<close> and the two
  with carry, which borrow one more when AC is clear, set AZ and AN by the difference, AV when the
  exact signed difference does not fit and AC to the complement of the borrow.  AR receives the
  difference modulo \<open>2^16\<close>, or clamped in saturation mode; AF always the difference modulo \<open>2^16\<close>;
  without a destination no register changes.  Y is a register or one of the constants.
\<close>

theorem alu_sub_correct:
  assumes "plain_flags s" "n = alu_n op" "n \<in> {6, 7, 9, 10}"
    and "x = alu_xreg (core s) (op_x op)" "y = alu_yreg (core s) (op_y op)" "k = ucast (alu_const op)"
  shows "ar (core (alu_op_ar s op)) = ar_result s (sub_exact s n x y) \<and> sub_status s n x y (alu_op_ar s op) \<and>
    ar (core (alu_op_ar_const s op)) = ar_result s (sub_exact s n x k) \<and> sub_status s n x k (alu_op_ar_const s op) \<and>
    af (core (alu_op_af s op)) = word_of_int (sub_exact s n x y) \<and> sub_status s n x y (alu_op_af s op) \<and>
    af (core (alu_op_af_const s op)) = word_of_int (sub_exact s n x k) \<and> sub_status s n x k (alu_op_af_const s op) \<and>
    core (alu_op_none s op) = core s \<and> sub_status s n x y (alu_op_none s op)"
proof -
  have k: "ucast k = alu_const op" by (simp add: assms(6) alu_const_16)
  obtain S t where 1: "alu_switch n (ucast x) (ucast y) s = (word_of_int S, t)" "core t = core s"
    "ucast (alu_saturate (word_of_int S) t) = ar_result s (sub_exact s n x y)"
    "(word_of_int S :: u16) = word_of_int (sub_exact s n x y)" "sub_status s n x y t"
    using sub_switch [OF assms(1,3)] by blast
  obtain R u where 2: "alu_switch n (ucast x) (alu_const op) s = (word_of_int R, u)" "core u = core s"
    "ucast (alu_saturate (word_of_int R) u) = ar_result s (sub_exact s n x k)"
    "(word_of_int R :: u16) = word_of_int (sub_exact s n x k)" "sub_status s n x k u"
    using sub_switch [OF assms(1,3), of x k] unfolding k by blast
  note fold_defs = alu_op_ar_def alu_op_ar_const_def alu_op_af_def alu_op_af_const_def alu_op_none_def
    assms(2,4,5) [symmetric] 1(1) 2(1) Let_def prod.case
  show ?thesis unfolding fold_defs using 1 2 low_half(1) [of S] low_half(1) [of R] by (simp add: sub_status_upd)
qed

text \<open>
  \<open>X + Y + C\<close>: the sum and the carry are right, but AV is the complement of the signed overflow
  whenever the carry is set and Y is 0x7fff or 0xffff, because the carry is added into Y before the
  operand signs are compared.
\<close>

theorem alu_add_carry_flags:
  fixes x y :: u16
  assumes "plain_flags s" "c = of_bool (bit (astat s) 3)"
  shows "(ucast (fst (alu_switch 2 (ucast x) (ucast y) s)) :: u16) = x + y + word_of_int c
     \<and> flags_of (uint x + uint y + c)
         ((\<not> (- 0x8000 \<le> sint x + sint y + c \<and> sint x + sint y + c < 0x8000))
            \<noteq> (c = 1 \<and> (y = 0x7fff \<or> y = 0xffff)))
         (0x10000 \<le> uint x + uint y + c) (snd (alu_switch 2 (ucast x) (ucast y) s))"
proof -
  define S where "S = uint x + uint y + c"
  have c: "0 \<le> c" "c \<le> 1" using assms(2) by simp_all
  define d :: u32 where "d = word_of_int (uint y + c)"
  have d: "ucast y + drop_bit 3 (GET_C s) = d" "ucast x + d = (word_of_int S :: u32)"
    by (simp_all add: d_def S_def GET_C_bit assms(2))
  have op: "alu_switch 2 (ucast x) (ucast y) s = (word_of_int S, CALC_NZVC (ucast x) d (word_of_int S) s)"
    by (simp add: alu_switch_def Let_def d)
  have "y = 0x7fff \<longleftrightarrow> uint y = 0x7fff" "y = 0xffff \<longleftrightarrow> uint y = 0xffff"
    by (simp_all add: word_uint_eq_iff)
  then have "bit d 15 \<noteq> bit y 15 \<longleftrightarrow> c = 1 \<and> (y = 0x7fff \<or> y = 0xffff)"
    using half_words(1) [of "uint y + c"] uint_u16_range [of y] c by (auto simp: d_def bit15_u16)
  moreover have "sint (word_of_int S :: u16) \<noteq> sint x + sint y + c \<longleftrightarrow>
      \<not> (- 0x8000 \<le> sint x + sint y + c \<and> sint x + sint y + c < 0x8000)"
  proof -
    have "(word_of_int S :: u16) = word_of_int (sint x + sint y + c)" by (simp add: S_def)
    then show ?thesis by (simp only: sint_sbintrunc' signed_take_bit_int_eq_self_iff) simp
  qed
  ultimately show ?thesis
    using add_flags [OF assms(1) S_def c, of d] low_half(1) [of S] unfolding op by (simp add: S_def)
qed

lemma plain_flags_calc [simp]: "plain_flags (CALC_NZVC x d r s) = plain_flags s"
  by (rule plain_flags_cong) (simp_all add: CALC_NZVC_def set_astat_def)

text \<open>
  Double precision addition.  \<open>X + Y\<close> on the low halves followed by \<open>X + Y + C\<close> on the high halves
  yields the 32-bit sum modulo \<open>2^32\<close>, and the final AC is the carry out of the 32-bit addition.
\<close>

theorem double_precision_add:
  fixes xl xh yl yh :: u16
  assumes "plain_flags s" "(lo, s1) = alu_switch 3 (ucast xl) (ucast yl) s"
    and "(hi, s2) = alu_switch 2 (ucast xh) (ucast yh) s1"
    and "X = uint xh * 0x10000 + uint xl" "Y = uint yh * 0x10000 + uint yl"
  shows "uint (ucast hi :: u16) * 0x10000 + uint (ucast lo :: u16) = (X + Y) mod 0x100000000
     \<and> (bit (astat s2) 3 \<longleftrightarrow> 0x100000000 \<le> X + Y)"
proof -
  define L where "L = uint xl + uint yl + 0"
  define c :: int where "c = of_bool (0x10000 \<le> L)"
  have r: "ucast xl + ucast yl = (word_of_int L :: u32)" by (simp add: L_def)
  have 1: "lo = word_of_int L" "s1 = CALC_NZVC (ucast xl) (ucast yl) (word_of_int L) s"
    using assms(2) r by (simp_all add: alu_switch_def Let_def)
  have p: "plain_flags s1" using assms(1) by (simp add: 1)
  have c: "c = of_bool (bit (astat s1) 3)"
    using add_flags [OF assms(1) L_def, of "ucast yl"] by (simp add: 1 c_def flags_of_def)
  define H where "H = uint xh + uint yh + c"
  have h: "(ucast hi :: u16) = word_of_int H" "bit (astat s2) 3 \<longleftrightarrow> 0x10000 \<le> H"
    using alu_add_carry_flags [OF p c, of xh yh] assms(3) [symmetric] by (simp_all add: H_def flags_of_def)
  have l: "(ucast lo :: u16) = word_of_int L" unfolding 1 by (rule low_half)
  have rng: "0 \<le> L" "L < 0x20000" "0 \<le> H" "H < 0x20000" "0 \<le> c" "c \<le> 1"
    using uint_u16_range [of xl] uint_u16_range [of yl] uint_u16_range [of xh] uint_u16_range [of yh]
    by (simp_all add: L_def H_def c_def)
  have L: "L mod 0x10000 = L - c * 0x10000"
    using rng mod_window(1) [of 0 "0x10000" L] mod_window(1) [of 1 "0x10000" L] by (simp add: c_def)
  define g :: int where "g = of_bool (0x10000 \<le> H)"
  have H: "H mod 0x10000 = H - g * 0x10000"
    using rng mod_window(1) [of 0 "0x10000" H] mod_window(1) [of 1 "0x10000" H] by (simp add: g_def)
  have XY: "X + Y = H * 0x10000 + L - c * 0x10000"
    by (simp add: assms(4,5) H_def L_def algebra_simps)
  have b: "0 \<le> L - c * 0x10000" "L - c * 0x10000 < 0x10000" using rng L by (metis pos_mod_bound pos_mod_sign zero_less_numeral)+
  have "(X + Y) mod 0x100000000 = X + Y - g * 0x100000000"
    by (rule mod_window(1)) (use XY b rng in \<open>auto simp: g_def\<close>)
  moreover have "uint (ucast hi :: u16) = H - g * 0x10000" "uint (ucast lo :: u16) = L - c * 0x10000"
    by (simp_all add: h(1) l uint_word_of_int H L)
  moreover have "0x100000000 \<le> X + Y \<longleftrightarrow> 0x10000 \<le> H" using XY b by linarith
  ultimately show ?thesis using h(2) XY by simp
qed

section \<open>All sixteen results\<close>

lemma ucast_down_arith:
  fixes a b :: u32
  shows "(ucast (a + b) :: u16) = ucast a + ucast b" "(ucast (a - b) :: u16) = ucast a - ucast b"
    "(ucast (- a) :: u16) = - ucast a"
  using low_half(1) [of "uint a + uint b"] low_half(1) [of "uint a - uint b"] low_half(1) [of "- uint a"]
  by simp_all

text \<open>
  The sixteen ALU functions.  For 16-bit operands the value every form computes is, modulo \<open>2^16\<close>,
  the operation the instruction set lists at that code.
\<close>

theorem alu_results:
  fixes x y :: u16
  assumes "n < 16" "c = (if bit (astat s) 3 then 1 else 0)"
  shows "(ucast (fst (alu_switch n (ucast x) (ucast y) s)) :: u16) =
    [y, y + 1, x + y + c, x + y, NOT y, - y, x - y + c - 1, x - y, y - 1, y - x, y - x + c - 1,
     NOT x, x AND y, x OR y, x XOR y, if sint x < 0 then - x else x] ! n"
proof -
  have "n \<in> {0, 1, 2, 3, 4, 5, 6, 7, 8, 9, 10, 11, 12, 13, 14, 15}"
    using assms(1) unfolding insert_iff empty_iff by presburger
  moreover have "(ucast (ucast w XOR 0xffff :: u32) :: u16) = NOT w" for w :: u16
  proof -
    have "(ucast (ucast w XOR mask 16 :: u32) :: u16) = NOT w"
      by (rule bit_word_eqI) (auto simp: bit_simps)
    then show ?thesis by (simp add: mask_numeral)
  qed
  moreover have "(ucast x AND (0x8000 :: u32) \<noteq> 0) = (sint x < 0)"
    using and_power_test [of 15 "ucast x :: u32"] bit_last_iff [of x] by (simp add: bit_simps)
  moreover have "(ucast (ucast x AND ucast y :: u32) :: u16) = x AND y"
    "(ucast (ucast x OR ucast y :: u32) :: u16) = x OR y"
    "(ucast (ucast x XOR ucast y :: u32) :: u16) = x XOR y"
    by (rule bit_word_eqI; auto simp: bit_simps)+
  ultimately show ?thesis
    using assms(2)
    by (elim insertE emptyE) (simp_all add: alu_switch_def Let_def GET_C_bit ucast_down_arith)
qed

section \<open>Instances\<close>

text \<open>A machine out of saturation mode or in it, with two operands loaded.\<close>

definition alu_state :: "u32 \<Rightarrow> u16 \<Rightarrow> u16 \<Rightarrow> adsp2181" where
  "alu_state m x y = adsp2181_zero\<lparr>astat_clear := NOT 15, mstat := m,
     core := adspcore_zero\<lparr>ax0 := x, ay0 := y\<rparr>\<rparr>"

lemma alu_state_sel [simp]:
  "mstat (alu_state m x y) = m" "astat (alu_state m x y) = 0"
  "alu_xreg (core (alu_state m x y)) 0 = x" "alu_yreg (core (alu_state m x y)) 0 = y"
  by (simp_all add: alu_state_def alu_xreg_def alu_yreg_def zero_defs)

lemma alu_state_plain: "m AND 4 = 0 \<Longrightarrow> plain_flags (alu_state m x y)"
  by (simp add: plain_flags_def clear_linked_def alu_state_def zero_defs)

theorem alu_add_correct_witness:
  "ar (core (alu_op_ar (alu_state 8 0x7fff 1) 0x6000)) = 0x7fff
   \<and> bit (astat (alu_op_ar (alu_state 8 0x7fff 1) 0x6000)) 2"
  using alu_add_correct [OF alu_state_plain, of 8 "0x6000" "0x7fff" "0x7fff" 1 1]
  by (simp add: ar_result_def clamp16_def flags_of_def)

theorem alu_sub_correct_witness:
  "ar (core (alu_op_ar (alu_state 0 3 5) 0xe000)) = 0xfffe
   \<and> \<not> bit (astat (alu_op_ar (alu_state 0 3 5) 0xe000)) 3"
  using alu_sub_correct [where s = "alu_state 0 3 5" and op = "0xe000", OF alu_state_plain refl _ refl refl refl]
  by (simp add: ar_result_def sub_status_def sub_exact_def sub_borrow_def flags_of_def)

theorem alu_add_carry_flags_witness:
  "bit (astat (snd (alu_switch 2 (ucast (5 :: u16)) (ucast (0xffff :: u16)) (alu_state 0 0 0\<lparr>astat := 8\<rparr>)))) 2
   \<and> (- 0x8000 :: int) \<le> sint (5 :: u16) + sint (0xffff :: u16) + 1
   \<and> sint (5 :: u16) + sint (0xffff :: u16) + 1 < 0x8000"
proof -
  have "plain_flags (alu_state 0 0 0\<lparr>astat := 8\<rparr>)"
    using alu_state_plain [of 0 0 0] plain_flags_cong [of "alu_state 0 0 0\<lparr>astat := 8\<rparr>" "alu_state 0 0 0"]
    by simp
  from alu_add_carry_flags [OF this refl, of 5 "0xffff"] show ?thesis
    by (simp add: flags_of_def)
qed

theorem double_precision_add_witness:
  "let (lo, s1) = alu_switch 3 (ucast (0xffff :: u16)) (ucast (1 :: u16)) (alu_state 0 0 0);
       (hi, s2) = alu_switch 2 (ucast (1 :: u16)) (ucast (2 :: u16)) s1
   in uint (ucast hi :: u16) * 0x10000 + uint (ucast lo :: u16) = 0x40000 \<and> \<not> bit (astat s2) 3"
  using double_precision_add [OF alu_state_plain [of 0 0 0] prod.collapse prod.collapse refl refl,
      of 1 2 "0xffff" 1]
  by (simp add: case_prod_beta)

theorem alu_results_witness:
  "(ucast (fst (alu_switch 15 (ucast (0xfffb :: u16)) (ucast (0 :: u16)) (alu_state 0 0 0))) :: u16) = 5"
  using alu_results [of 15 0 "alu_state 0 0 0" "0xfffb" 0] by simp

end
