(* ===== verification/Division.thy ===== *)
theory Division
  imports Arithmetic
begin

text \<open>
  The division primitive.  One DIVQ is a step of non-restoring division; sixteen of them divide the
  32-bit value in AF and AY0 by twice the X operand.
\<close>

section \<open>One step\<close>

definition divq_x :: "adsp2181 \<Rightarrow> u32 \<Rightarrow> u16" where
  "divq_x s op = alu_xreg (core s) (op_x op)"

lemma or_bit_add: "push_bit 1 r OR (of_bool b) = push_bit 1 r + (of_bool b :: u32)" for r :: u32
proof (rule disjunctive_add_eq_or [symmetric])
  show "push_bit 1 r AND (of_bool b :: u32) = 0"
    by (rule bit_word_eqI) (simp only: bit_and_iff bit_push_bit_iff bit_of_bool_iff bit_0_eq bot_apply, auto)
qed

lemma drop15_u16: "drop_bit 15 (ucast a :: u32) = of_bool (bit a 15)" for a :: u16
proof (rule bit_word_eqI)
  fix n
  show "bit (drop_bit 15 (ucast a :: u32)) n = bit (of_bool (bit a 15) :: u32) n"
    by (cases "n = 0") (auto simp: bit_simps dest: bit_imp_le_length)
qed

lemma drop15_and1: "drop_bit 15 t AND 1 = of_bool (bit t 15)" for t :: u32
  by (rule bit_word_eqI) (simp only: bit_and_iff bit_drop_bit_eq comp_apply bit_1_iff bit_of_bool_iff, auto)

lemma twice_plus: "(ucast (push_bit 1 r OR of_bool b :: u32) :: u16) = 2 * ucast r + of_bool b"
proof -
  have "push_bit 1 r = r + r" by simp
  then show ?thesis unfolding or_bit_add by (cases b) (simp_all only: ucast_down_arith mult_2, simp_all)
qed

definition divq_r :: "adsp2181 \<Rightarrow> u32 \<Rightarrow> u32" where
  "divq_r s op = (if bit (astat s) 5 then ucast (af (core s)) + ucast (divq_x s op)
     else ucast (af (core s)) - ucast (divq_x s op))"

definition divq_q :: "adsp2181 \<Rightarrow> u32 \<Rightarrow> bool" where
  "divq_q s op \<longleftrightarrow> bit (divq_r s op) 15 \<noteq> bit (divq_x s op) 15"

lemma DIVQ_fields:
  "af (core (DIVQ s op)) = 2 * ucast (divq_r s op) + of_bool (bit (ay0 (core s)) 15)"
  "ay0 (core (DIVQ s op)) = 2 * ay0 (core s) + of_bool (\<not> divq_q s op)"
  "bit (astat (DIVQ s op)) 5 \<longleftrightarrow> divq_q s op" "divq_x (DIVQ s op) op' = divq_x s op'"
proof -
  define r where "r = divq_r s op"
  define t where "t = r XOR ucast (divq_x s op)"
  have q: "astat s AND QFLAG \<noteq> 0 \<longleftrightarrow> bit (astat s) 5" using and_power_test [of 5 "astat s"] by simp
  have D: "DIVQ s op = upd_core (\<lambda>c. c\<lparr>af := ucast (push_bit 1 r OR drop_bit 15 (ucast (ay0 c))),
        ay0 := ucast (push_bit 1 (ucast (ay0 c)) OR (drop_bit 15 (NOT t) AND 1))\<rparr>)
      (set_astat (\<lambda>a. (a AND NOT QFLAG) OR (drop_bit 10 t AND QFLAG)) s)"
    unfolding DIVQ_def Let_def q t_def r_def divq_r_def divq_x_def ..
  have t15: "bit t 15 \<longleftrightarrow> divq_q s op"
    by (auto simp: t_def r_def divq_q_def bit_xor_iff bit_unsigned_iff)
  define A B :: u16 where "A = ucast (push_bit 1 r OR drop_bit 15 (ucast (ay0 (core s))))"
    and "B = ucast (push_bit 1 (ucast (ay0 (core s))) OR (drop_bit 15 (NOT t) AND 1))"
  have C: "core (DIVQ s op) = (core s)\<lparr>af := A, ay0 := B\<rparr>"
    unfolding D A_def B_def by (simp add: set_astat_def)
  have "A = 2 * ucast r + of_bool (bit (ay0 (core s)) 15)"
    unfolding A_def drop15_u16 twice_plus ..
  then show "af (core (DIVQ s op)) = 2 * ucast (divq_r s op) + of_bool (bit (ay0 (core s)) 15)"
    by (simp add: C r_def)
  have "B = 2 * ay0 (core s) + of_bool (bit (NOT t) 15)"
    unfolding B_def drop15_and1 twice_plus by simp
  then show "ay0 (core (DIVQ s op)) = 2 * ay0 (core s) + of_bool (\<not> divq_q s op)"
    by (simp add: C bit_not_iff t15)
  show "bit (astat (DIVQ s op)) 5 \<longleftrightarrow> divq_q s op"
    unfolding D using and_pow_bit [of "drop_bit 10 t" 5 5]
    by (simp add: set_astat_def bit_or_iff bit_and_iff bit_not_iff bit_drop_bit_eq t15)
  show "divq_x (DIVQ s op) op' = divq_x s op'"
    by (simp add: C divq_x_def alu_xreg_def mr0_def mr1_def mr2_def sr0_def sr1_def)
qed

section \<open>The non-restoring invariant\<close>

text \<open>
  \<open>T\<close> is the value the divisor is tried against: the register AF holds it, or holds it minus twice
  the divisor after a step that went below zero (AQ set).
\<close>

definition div_inv :: "u32 \<Rightarrow> int \<Rightarrow> int \<Rightarrow> adsp2181 \<Rightarrow> bool" where
  "div_inv op X T s \<longleftrightarrow> uint (divq_x s op) = X \<and> 0 \<le> T \<and> T < 2 * X
     \<and> af (core s) = word_of_int (T - (if bit (astat s) 5 then 2 * X else 0))"

lemma div_step:
  assumes inv: "div_inv op X T s" and X: "0 < X" "X < 0x8000"
  shows "div_inv op X (2 * (if X \<le> T then T - X else T) + of_bool (bit (ay0 (core s)) 15)) (DIVQ s op)"
    "ay0 (core (DIVQ s op)) = 2 * ay0 (core s) + of_bool (X \<le> T)"
proof -
  have x: "divq_x s op = word_of_int X" "uint (divq_x s op) = X"
    using inv by (auto simp: div_inv_def)
  have r: "(ucast (divq_r s op) :: u16) = word_of_int (T - X)"
    using inv by (simp add: divq_r_def ucast_down_arith div_inv_def x(1))
  have "bit (divq_r s op) 15 = bit (ucast (divq_r s op) :: u16) 15" by (simp add: bit_unsigned_iff)
  also have "\<dots> \<longleftrightarrow> sint (word_of_int (T - X) :: u16) < 0"
    unfolding r using bit_last_iff [of "word_of_int (T - X) :: u16"] by simp
  also have "sint (word_of_int (T - X) :: u16) = T - X"
    using half_words(3) [of "T - X"] inv X by (simp add: div_inv_def)
  finally have q: "divq_q s op \<longleftrightarrow> T < X"
    using X x(2) by (simp add: divq_q_def bit15_u16)
  show "ay0 (core (DIVQ s op)) = 2 * ay0 (core s) + of_bool (X \<le> T)"
    by (simp add: DIVQ_fields q not_less)
  have "af (core (DIVQ s op)) = 2 * word_of_int (T - X) + of_bool (bit (ay0 (core s)) 15)"
    by (simp add: DIVQ_fields r)
  then show "div_inv op X (2 * (if X \<le> T then T - X else T) + of_bool (bit (ay0 (core s)) 15)) (DIVQ s op)"
    using inv X by (auto simp: div_inv_def DIVQ_fields q algebra_simps)
qed

text \<open>After \<open>n\<close> steps: \<open>Q\<close> is the quotient so far, AY0 holds the rest of the low word above it.\<close>

lemma div_steps:
  assumes "div_inv op X hi s" "ay0 (core s) = word_of_int lo" "0 \<le> lo" "lo < 0x10000"
    and X: "0 < X" "X < 0x8000" and "n \<le> 16"
  shows "\<exists>Q. 0 \<le> Q \<and> Q < 2 ^ n
    \<and> div_inv op X (hi * 2 ^ n + lo div 2 ^ (16 - n) - 2 * X * Q) (((\<lambda>s. DIVQ s op) ^^ n) s)
    \<and> ay0 (core (((\<lambda>s. DIVQ s op) ^^ n) s)) = word_of_int (lo * 2 ^ n + Q)"
  using assms(7)
proof (induction n)
  case 0
  then show ?case using assms by (intro exI [of _ 0]) simp
next
  case (Suc n)
  define t where "t = ((\<lambda>s. DIVQ s op) ^^ n) s"
  obtain Q where Q: "0 \<le> Q" "Q < 2 ^ n"
    "div_inv op X (hi * 2 ^ n + lo div 2 ^ (16 - n) - 2 * X * Q) t"
    "ay0 (core t) = word_of_int (lo * 2 ^ n + Q)"
    using Suc by (auto simp: t_def)
  define T where "T = hi * 2 ^ n + lo div 2 ^ (16 - n) - 2 * X * Q"
  define b :: int where "b = lo div 2 ^ (15 - n) mod 2"
  have n: "n \<le> 15" using Suc.prems by simp
  have top: "(of_bool (bit (ay0 (core t)) 15) :: int) = b"
  proof -
    have "(lo * 2 ^ n + Q) div 2 ^ 15 = lo div 2 ^ (15 - n)"
    proof -
      have "(lo * 2 ^ n + Q) div (2 ^ n * 2 ^ (15 - n)) = (lo * 2 ^ n + Q) div 2 ^ n div 2 ^ (15 - n)"
        by (rule zdiv_zmult2_eq) simp
      moreover have "(2 :: int) ^ n * 2 ^ (15 - n) = 2 ^ 15" using n by (simp flip: power_add)
      moreover have "(lo * 2 ^ n + Q) div 2 ^ n = lo" using Q by simp
      ultimately show ?thesis by simp
    qed
    then show ?thesis unfolding Q(4) b_def
      by (simp only: bit_word_of_int_iff bit_iff_odd [of "lo * 2 ^ n + Q"]) (simp add: odd_iff_mod_2_eq_one mod2_eq_if)
  qed
  have shift: "lo div 2 ^ (15 - n) = 2 * (lo div 2 ^ (16 - n)) + b"
  proof -
    have "16 - n = Suc (15 - n)" using n by simp
    then have "lo div 2 ^ (16 - n) = lo div 2 ^ (15 - n) div 2" 
      by (simp only: power_Suc2) (simp add: zdiv_zmult2_eq)
    then show ?thesis by (simp add: b_def)
  qed
  define Q' where "Q' = 2 * Q + of_bool (X \<le> T)"
  have T': "2 * (if X \<le> T then T - X else T) + b = hi * 2 ^ Suc n + lo div 2 ^ (16 - Suc n) - 2 * X * Q'"
    using shift by (simp add: T_def Q'_def algebra_simps)
  have "div_inv op X (hi * 2 ^ Suc n + lo div 2 ^ (16 - Suc n) - 2 * X * Q') (DIVQ t op)"
    using div_step(1) [OF Q(3) X] unfolding top T_def [symmetric] T' .
  moreover have "ay0 (core (DIVQ t op)) = word_of_int (lo * 2 ^ Suc n + Q')"
    using div_step(2) [OF Q(3) X] unfolding T_def [symmetric] Q(4) by (simp add: Q'_def algebra_simps)
  moreover have "0 \<le> Q' \<and> Q' < 2 ^ Suc n" using Q by (simp add: Q'_def)
  ultimately show ?case by (auto simp: t_def)
qed

text \<open>
  C6. Sixteen DIVQ instructions divide.  With AQ clear, a divisor \<open>X\<close> below \<open>2^15\<close> and a dividend
  \<open>D = AF * 2^16 + AY0\<close> with \<open>AF < 2X\<close>, they leave \<open>D div (2X)\<close> in AY0 and
  \<open>D mod (2X)\<close> in AF, minus \<open>2X\<close> if AQ is then set.
\<close>

theorem divq_divides:
  fixes op :: u32
  assumes "X = uint (alu_xreg (core s) (op_x op))" "0 < X" "X < 0x8000"
    and "\<not> bit (astat s) 5" "uint (af (core s)) < 2 * X"
    and "D = uint (af (core s)) * 0x10000 + uint (ay0 (core s))"
    and "s' = ((\<lambda>s. DIVQ s op) ^^ 16) s"
  shows "uint (ay0 (core s')) = D div (2 * X)
     \<and> af (core s') = word_of_int (D mod (2 * X) - (if bit (astat s') 5 then 2 * X else 0))"
proof -
  have "div_inv op X (uint (af (core s))) s"
    using assms by (simp add: div_inv_def divq_x_def)
  then obtain Q where Q: "0 \<le> Q" "Q < 0x10000"
    "div_inv op X (D - 2 * X * Q) s'" "ay0 (core s') = word_of_int (uint (ay0 (core s)) * 0x10000 + Q)"
    using div_steps [of op X "uint (af (core s))" s "uint (ay0 (core s))" 16] assms(2,3)
      uint_u16_range [of "ay0 (core s)"]
    by (auto simp: assms(6,7))
  have r: "0 \<le> D - 2 * X * Q" "D - 2 * X * Q < 2 * X" using Q(3) by (auto simp: div_inv_def)
  then have d: "D div (2 * X) = Q" by (intro int_div_pos_eq [where r = "D - 2 * X * Q"]) auto
  then have m: "D mod (2 * X) = D - 2 * X * Q" by (simp add: minus_mult_div_eq_mod [symmetric])
  have "ay0 (core s') = word_of_int Q"
  proof -
    have "(word_of_int (c * 0x10000) :: u16) = 0" for c
      by (simp only: word_uint_eq_iff uint_word_of_int) simp
    then have "(word_of_int (c * 0x10000 + Q) :: u16) = word_of_int Q" for c
      by (simp only: of_int_add add_0)
    then show ?thesis unfolding Q(4) .
  qed
  then have "uint (ay0 (core s')) = Q" using Q(1,2) by (simp add: uint_word_of_int)
  then show ?thesis using Q(3) d m by (simp add: div_inv_def)
qed

lemma alu_state_fields [simp]:
  "af (core (alu_state m x y)) = 0" "ay0 (core (alu_state m x y)) = y"
  by (simp_all add: alu_state_def zero_defs)

theorem divq_divides_witness:
  "uint (ay0 (core (((\<lambda>s. DIVQ s 0) ^^ 16) (alu_state 0 50 1000)))) = 10"
  using divq_divides [of 50 "alu_state 0 50 1000" 0 1000]
  by simp

end
