(* ===== verification/Multiplier.thy ===== *)
theory Multiplier
  imports Wellformed
begin

text \<open>
  The multiplier/accumulator against integer arithmetic: products and accumulation modulo
  \<open>2^40\<close>, the MV flag, rounding to nearest even, and saturation of MR.
\<close>

section \<open>Forty-bit values\<close>

lemma sint_sign_extend_mr40: "sint (sign_extend_mr40 r) = signed_take_bit 39 (sint r)"
proof (rule bit_eqI)
  fix n
  show "bit (sint (sign_extend_mr40 r)) n = bit (signed_take_bit 39 (sint r)) n"
    by (cases "n = 39") (auto simp: bit_sint_iff bit_sign_extend_mr40 bit_signed_take_bit_iff min_def)
qed

lemma signed_take_bit_64_40: "signed_take_bit 39 (sint (word_of_int E :: u64)) = signed_take_bit 39 E"
  by (simp add: sint_sbintrunc')

text \<open>Bits 31 to 39 agree exactly when the 40-bit value fits in 32 bits.\<close>

lemma mv_test:
  "(let t = signed_drop_bit 31 r AND 0x1ff in t \<noteq> 0 \<and> t \<noteq> 0x1ff) \<longleftrightarrow>
     \<not> (- (2 ^ 31) \<le> signed_take_bit 39 (sint r) \<and> signed_take_bit 39 (sint r) < 2 ^ 31)"
  for r :: u64
proof -
  define v where "v = signed_take_bit 39 (sint r)"
  define t where "t = signed_drop_bit 31 r AND mask 9"
  have bt: "bit t n \<longleftrightarrow> n < 9 \<and> bit r (31 + n)" for n
    by (auto simp: t_def bit_simps bit_signed_drop_bit_iff)
  have bv: "bit v n \<longleftrightarrow> bit r (min n 39)" for n
    by (auto simp: v_def bit_signed_take_bit_iff bit_sint_iff min_def)
  have t0: "t = 0 \<longleftrightarrow> (\<forall>n<9. \<not> bit r (31 + n))" by (auto simp: bit_eq_iff bt)
  have t1: "t = mask 9 \<longleftrightarrow> (\<forall>n<9. bit r (31 + n))"
  proof
    assume "t = mask 9"
    then have "bit t n = (n < 9)" for n by (auto simp: bit_mask_iff)
    then show "\<forall>n<9. bit r (31 + n)" using bt by blast
  next
    assume "\<forall>n<9. bit r (31 + n)"
    then show "t = mask 9" by (intro bit_word_eqI) (auto simp: bt bit_mask_iff)
  qed
  have "signed_take_bit 31 v = v \<longleftrightarrow> (\<forall>n<9. bit r (31 + n) = bit r 31)"
  proof
    assume e: "signed_take_bit 31 v = v"
    show "\<forall>n<9. bit r (31 + n) = bit r 31"
    proof (intro allI impI)
      fix n :: nat assume "n < 9"
      moreover have "bit v (31 + n) = bit v 31"
        using arg_cong [OF e, where f = "\<lambda>w. bit w (31 + n)"] by (simp add: bit_signed_take_bit_iff)
      ultimately show "bit r (31 + n) = bit r 31" by (simp add: bv)
    qed
  next
    assume a: "\<forall>n<9. bit r (31 + n) = bit r 31"
    show "signed_take_bit 31 v = v"
    proof (rule bit_eqI)
      fix n
      have "bit r (min n 39) = bit r 31" if "31 \<le> n"
        using that a [rule_format, of "min n 39 - 31"] by (auto simp: min_def)
      then show "bit (signed_take_bit 31 v) n = bit v n"
        by (auto simp: bit_signed_take_bit_iff bv min_def)
    qed
  qed
  then have "- (2 ^ 31) \<le> v \<and> v < 2 ^ 31 \<longleftrightarrow> (\<forall>n<9. bit r (31 + n) = bit r 31)"
    by (simp only: signed_take_bit_int_eq_self_iff)
  then have "t \<noteq> 0 \<and> t \<noteq> mask 9 \<longleftrightarrow> \<not> (- (2 ^ 31) \<le> v \<and> v < 2 ^ 31)"
    using t0 t1 by (metis (no_types, lifting) add_0_right zero_less_numeral)
  then show ?thesis by (simp add: t_def v_def Let_def mask_numeral)
qed

section \<open>Products and accumulation\<close>

definition ext_int :: "bool \<Rightarrow> u16 \<Rightarrow> int" where
  "ext_int sg w = (if sg then sint w else uint w)"

definition mac_exact :: "adsp2181 \<Rightarrow> mac_acc \<Rightarrow> int \<Rightarrow> int \<Rightarrow> int" where
  "mac_exact s acc a b =
     (let p = a * b * (if mstat s AND MSTAT_INTEGER \<noteq> 0 then 1 else 2)
      in case acc of Acc_set \<Rightarrow> p | Acc_add \<Rightarrow> sint (mr (core s)) + p
         | Acc_sub \<Rightarrow> sint (mr (core s)) - p)"

lemma mac_ext_int: "mac_ext sg w = word_of_int (ext_int sg w)"
  by (simp add: mac_ext_def ext_int_def)

lemma mac_shift_mode: "push_bit (mac_shift s) 1 = (word_of_int (if mstat s AND MSTAT_INTEGER \<noteq> 0 then 1 else 2) :: u64)"
proof -
  have *: "mstat s AND 0x10 = (if bit (mstat s) 4 then 0x10 else 0)"
  proof -
    have "mstat s AND push_bit 4 1 = push_bit 4 (of_bool (bit (mstat s) 4))"
      by (rule bit_word_eqI) (auto simp: bit_simps bit_1_iff simp del: push_bit_of_1)
    then show ?thesis by simp
  qed
  show ?thesis by (simp add: mac_shift_def *)
qed

lemma mac_result_exact:
  assumes "mac_arms ! n = (xs, ys, acc, rnd)"
  shows "mac_result s n (word_of_int a) (word_of_int b) =
     (if rnd then mac_round_mode s (word_of_int (mac_exact s acc a b)) else word_of_int (mac_exact s acc a b))"
proof -
  have "word_of_int a * word_of_int b * push_bit (mac_shift s) 1 =
    (word_of_int (a * b * (if mstat s AND MSTAT_INTEGER \<noteq> 0 then 1 else 2)) :: u64)"
    by (simp only: mac_shift_mode of_int_mult)
  moreover have "mr (core s) = word_of_int (sint (mr (core s)))" by simp
  ultimately show ?thesis
    unfolding mac_result_def assms mac_exact_def Let_def prod.case
    by (cases acc) (simp_all only: mac_acc.case of_int_add of_int_diff)
qed

lemma mac_flag_bit: "bit (astat (mac_flag r s)) 6 \<longleftrightarrow>
     \<not> (- (2 ^ 31) \<le> signed_take_bit 39 (sint r) \<and> signed_take_bit 39 (sint r) < 2 ^ 31)"
  unfolding mv_test [symmetric]
  by (simp add: mac_flag_def Let_def set_flag_if_def clr_flag_def set_astat_def bit_or_iff bit_and_iff bit_not_iff)

lemma no_round_arms: "4 \<le> n \<Longrightarrow> n < 16 \<Longrightarrow> \<not> snd (snd (snd (mac_arms ! n)))"
proof -
  have "list_all (\<lambda>n. \<not> snd (snd (snd (mac_arms ! n)))) [4..<16]" by code_simp
  then show "4 \<le> n \<Longrightarrow> n < 16 \<Longrightarrow> \<not> snd (snd (snd (mac_arms ! n)))"
    unfolding list_all_iff by (metis atLeastLessThan_iff set_upt)
qed

text \<open>
  C2. Multiply and accumulate.  Every MR instruction without rounding computes
  \<open>X * Y\<close>, \<open>MR + X * Y\<close> or \<open>MR - X * Y\<close> on the signed or unsigned readings its code names, doubled in
  fractional mode, modulo \<open>2^40\<close> in two's complement; MV says that the 40-bit result exceeds 32 bits.
\<close>

theorem mac_op_mr_correct:
  assumes "4 \<le> alu_n op" "mac_arms ! alu_n op = (xs, ys, acc, rnd)"
    and "E = mac_exact s acc (ext_int xs (mac_xreg (core s) (op_x op))) (ext_int ys (mac_yreg (core s) (op_y op)))"
  shows "sint (mr (core (mac_op_mr s op))) = signed_take_bit 39 E
     \<and> (bit (astat (mac_op_mr s op)) 6 \<longleftrightarrow>
          \<not> (- (2 ^ 31) \<le> signed_take_bit 39 E \<and> signed_take_bit 39 E < 2 ^ 31))"
proof -
  have "alu_n op < 16" by (rule unat_and_less) simp
  then have "\<not> rnd" using no_round_arms [OF assms(1)] assms(2) by simp
  then have "mac_op_mr s op = upd_core (\<lambda>c. c\<lparr>mr := sign_extend_mr40 (word_of_int E)\<rparr>) (mac_flag (word_of_int E) s)"
    using assms(1) unfolding mac_op_mr_def Let_def assms(2) prod.case mac_ext_int
      mac_result_exact [OF assms(2)] assms(3) [symmetric] by simp
  then show ?thesis
    by (simp only: mac_flag_bit upd_apply upd_core_frame signed_take_bit_64_40) 
       (simp add: sint_sign_extend_mr40 signed_take_bit_64_40)
qed

section \<open>Rounding\<close>

lemma clear_bit16:
  "(word_of_int k :: u64) AND NOT 0x10000 = word_of_int (k - (if odd (k div 0x10000) then 0x10000 else 0))"
proof -
  have b: "bit (word_of_int k :: u64) 16 \<longleftrightarrow> odd (k div 0x10000)"
    by (simp only: bit_word_of_int_iff bit_iff_odd [of k]) simp
  define w :: u64 where "w = word_of_int k"
  have "(w AND push_bit 16 1) + (w AND NOT (push_bit 16 1)) = w"
    by (subst disjunctive_add_eq_or) (auto simp: bit_eq_iff bit_simps simp del: push_bit_of_1)
  moreover have "w AND push_bit 16 1 = push_bit 16 (of_bool (bit w 16))"
    by (rule bit_word_eqI) (auto simp: bit_simps bit_1_iff simp del: push_bit_of_1)
  ultimately have "w AND NOT 0x10000 = w - (if bit w 16 then 0x10000 else 0)"
    by (auto simp: algebra_simps split: if_splits)
  then show ?thesis using b by (simp add: w_def)
qed

definition round_int :: "adsp2181 \<Rightarrow> int \<Rightarrow> int" where
  "round_int s E = E + 0x8000 -
     (if data s 0x3ff3 AND 0x4000 = 0 \<and> E mod 0x10000 = 0x8000 \<and> odd ((E + 0x8000) div 0x10000)
      then 0x10000 else 0)"

lemma mac_round_mode_int: "mac_round_mode s (word_of_int E) = word_of_int (round_int s E)"
proof -
  have "(word_of_int E AND 0xffff = (0x8000 :: u64)) \<longleftrightarrow> E mod 0x10000 = 0x8000"
  proof -
    have "word_of_int E AND 0xffff = (take_bit 16 (word_of_int E) :: u64)"
      by (simp add: take_bit_eq_mask mask_numeral)
    then have "uint (word_of_int E AND 0xffff :: u64) = take_bit 16 (take_bit 64 E)"
      by (simp only: unsigned_take_bit_eq uint_word_of_int_eq len_bit0 len_num1) simp
    then have "uint (word_of_int E AND 0xffff :: u64) = E mod 0x10000"
      by (simp add: take_bit_take_bit) (simp add: take_bit_eq_mod)
    then show ?thesis by (simp add: word_uint_eq_iff)
  qed
  moreover have "word_of_int E + 0x8000 = (word_of_int (E + 0x8000) :: u64)" by simp
  ultimately show ?thesis
    unfolding mac_round_mode_def Let_def round_int_def by (simp only: clear_bit16) auto
qed

lemma round_int_nearest_even:
  assumes "data s 0x3ff3 AND 0x4000 = 0" "q = round_int s E div 0x10000"
  shows "\<bar>E - q * 0x10000\<bar> \<le> 0x8000 \<and> (\<bar>E - q * 0x10000\<bar> = 0x8000 \<longrightarrow> even q)"
proof -
  define k f where "k = E div 0x10000" and "f = E mod 0x10000"
  have E: "E = k * 0x10000 + f" "0 \<le> f" "f < 0x10000" by (simp_all add: k_def f_def)
  have d: "(k * 0x10000 + g) div 0x10000 = k + g div 0x10000" for g by simp
  have "(f + 0x8000) div 0x10000 = (if f < 0x8000 then 0 else 1)"
    using E(2,3) int_div_pos_eq [of "f + 0x8000" "0x10000" 1 "f - 0x8000"] by auto
  then have up: "(E + 0x8000) div 0x10000 = (if f < 0x8000 then k else k + 1)"
    using d [of "f + 0x8000"] by (simp add: E(1) add.assoc)
  have "q = (if f < 0x8000 \<or> f = 0x8000 \<and> even k then k else k + 1)"
  proof (cases "f = 0x8000 \<and> even k")
    case True
    then have "round_int s E = k * 0x10000" using assms(1) up by (simp add: round_int_def E(1) f_def [symmetric])
    then show ?thesis using True assms(2) by simp
  next
    case False
    then have "round_int s E = E + 0x8000"
      using assms(1) up E by (auto simp: round_int_def f_def [symmetric])
    then show ?thesis using False assms(2) up by auto
  qed
  then show ?thesis using E by (auto simp: algebra_simps)
qed

lemma round_arms: "n \<in> {1, 2, 3} \<Longrightarrow> mac_arms ! n = (xs, ys, acc, rnd) \<Longrightarrow> rnd"
  by (auto simp: mac_arms_def)

text \<open>
  C8. Rounding.  The MR instructions with rounding store the exact value rounded at bit 16, modulo
  \<open>2^40\<close>; unless biased rounding is selected in data memory 0x3ff3, the part above bit 16 is the
  nearest integer to the exact value divided by \<open>2^16\<close>, ties going to the even one.
\<close>

theorem mac_op_mr_round:
  assumes "alu_n op \<in> {1, 2, 3}" "mac_arms ! alu_n op = (xs, ys, acc, rnd)"
    and "E = mac_exact s acc (ext_int xs (mac_xreg (core s) (op_x op))) (ext_int ys (mac_yreg (core s) (op_y op)))"
    and "data s 0x3ff3 AND 0x4000 = 0" "q = round_int s E div 0x10000"
  shows "sint (mr (core (mac_op_mr s op))) = signed_take_bit 39 (round_int s E)
     \<and> \<bar>E - q * 0x10000\<bar> \<le> 0x8000 \<and> (\<bar>E - q * 0x10000\<bar> = 0x8000 \<longrightarrow> even q)"
proof -
  have "rnd" using assms(1,2) by (rule round_arms)
  then have "mac_op_mr s op = upd_core (\<lambda>c. c\<lparr>mr := sign_extend_mr40 (word_of_int (round_int s E))\<rparr>)
      (mac_flag (word_of_int (round_int s E)) s)"
    using assms(1) unfolding mac_op_mr_def Let_def assms(2) prod.case mac_ext_int
      mac_result_exact [OF assms(2)] assms(3) [symmetric] mac_round_mode_int by auto
  then have "sint (mr (core (mac_op_mr s op))) = signed_take_bit 39 (round_int s E)"
    by (simp add: sint_sign_extend_mr40 signed_take_bit_64_40)
  then show ?thesis using round_int_nearest_even [OF assms(4,5)] by blast
qed

section \<open>Saturation\<close>

definition clamp32 :: "int \<Rightarrow> int" where
  "clamp32 v = (if v < - (2 ^ 31) then - (2 ^ 31) else if 2 ^ 31 \<le> v then 2 ^ 31 - 1 else v)"

lemma bit_put_mr:
  "bit (mr (normalize_mr (set_mr0 a (set_mr1 b (set_mr2 d c))))) n \<longleftrightarrow> n < 64 \<and>
     (let k = (if n < 40 then n else 39) in
      if k < 16 then bit a k else if k < 32 then bit b (k - 16) else bit d (k - 32))"
  unfolding normalize_mr_def
  by (auto simp: bit_sign_extend_mr40 set_mr0_def set_mr1_def set_mr2_def put16_mask bit_simps Let_def
      dest: bit_imp_le_length)

lemma u16_bits:
  "bit (0x8000 :: u16) k \<longleftrightarrow> k = 15" "bit (0xffff :: u16) k \<longleftrightarrow> k < 16" "bit (0x7fff :: u16) k \<longleftrightarrow> k < 15"
proof -
  have "(0x8000 :: u16) = push_bit 15 1" "(0xffff :: u16) = mask 16" "(0x7fff :: u16) = mask 15"
    by (simp_all add: mask_numeral)
  then show "bit (0x8000 :: u16) k \<longleftrightarrow> k = 15" "bit (0xffff :: u16) k \<longleftrightarrow> k < 16" "bit (0x7fff :: u16) k \<longleftrightarrow> k < 15"
    by (simp_all only: bit_mask_iff bit_push_bit_iff bit_1_iff) auto
qed

lemma saturated_mr:
  "mr (normalize_mr (set_mr0 0x0000 (set_mr1 0x8000 (set_mr2 0xffff c)))) = NOT (mask 31)"
  "mr (normalize_mr (set_mr0 0xffff (set_mr1 0x7fff (set_mr2 0x0000 c)))) = mask 31"
  by (rule bit_word_eqI; simp only: bit_put_mr u16_bits bit_not_iff bit_mask_iff Let_def bit_0_eq
      bot_apply; auto)+

text \<open>A state whose MV describes its MR, as every MAC instruction with MR as destination leaves it.\<close>

lemma saturate_after:
  assumes "t = upd_core (\<lambda>c. c\<lparr>mr := sign_extend_mr40 (word_of_int V)\<rparr>) (mac_flag (word_of_int V) s)"
  shows "sint (mr (core (saturate_mr t))) = clamp32 (signed_take_bit 39 V)"
proof -
  define v where "v = signed_take_bit 39 V"
  have t: "sint (mr (core t)) = v" "bit (astat t) 6 \<longleftrightarrow> \<not> (- (2 ^ 31) \<le> v \<and> v < 2 ^ 31)"
    by (simp_all only: assms v_def mac_flag_bit upd_apply upd_core_frame signed_take_bit_64_40)
      (simp add: sint_sign_extend_mr40 signed_take_bit_64_40)
  have m: "astat t AND MVFLAG \<noteq> 0 \<longleftrightarrow> bit (astat t) 6" using and_power_test [of 6 "astat t"] by simp
  have "mr2 (core t) AND 0x80 \<noteq> 0 \<longleftrightarrow> bit (mr (core t)) 39"
    using and_power_test [of 7 "mr2 (core t)"] by (simp add: mr2_def bit_simps)
  also have "\<dots> \<longleftrightarrow> bit (sint (mr (core t))) 39" by (simp add: bit_sint_iff)
  also have "\<dots> \<longleftrightarrow> v < 0" unfolding t(1) v_def by (simp add: bit_signed_take_bit_iff)
  finally have n: "mr2 (core t) AND 0x80 \<noteq> 0 \<longleftrightarrow> v < 0" .
  have c: "sint (NOT (mask 31) :: u64) = - (2 ^ 31)" "sint (mask 31 :: u64) = 2 ^ 31 - 1"
    using signed_take_bit_int_eq_self [of 63 "- (2 ^ 31)"] signed_take_bit_int_eq_self [of 63 "2 ^ 31 - 1"]
      sint_sbintrunc' [of "- (2 ^ 31)", where 'a = 64] sint_sbintrunc' [of "2 ^ 31 - 1", where 'a = 64]
    by (simp_all add: mask_numeral not_eq_complement)
  show ?thesis
    using t m n by (auto simp: saturate_mr_def saturated_mr clamp32_def c simp flip: v_def)
qed

text \<open>The exact value of an arm, rounded where the arm rounds.\<close>

definition mac_value :: "adsp2181 \<Rightarrow> mac_acc \<Rightarrow> bool \<Rightarrow> int \<Rightarrow> int \<Rightarrow> int" where
  "mac_value s acc rnd x y = (if rnd then round_int s (mac_exact s acc x y) else mac_exact s acc x y)"

text \<open>
  C7. \<open>IF MV SAT MR\<close>.  Run after any multiply, multiply-accumulate or squaring instruction with MR as its
  destination, rounding or not, it leaves MR at the 40-bit result clamped to the range of a signed
  32-bit number.
\<close>

theorem mac_then_saturate:
  assumes "alu_n op \<noteq> 0" "mac_arms ! alu_n op = (xs, ys, acc, rnd)"
    and "x = ext_int xs (mac_xreg (core s) (op_x op))" "y = ext_int ys (mac_yreg (core s) (op_y op))"
  shows "sint (mr (core (saturate_mr (mac_op_mr s op)))) = clamp32 (signed_take_bit 39 (mac_value s acc rnd x y)) \<and>
    sint (mr (core (saturate_mr (mac_op_mr_xop s op)))) = clamp32 (signed_take_bit 39 (mac_value s acc rnd x x))"
proof -
  have v: "mac_result s (alu_n op) (word_of_int x) (word_of_int z) = word_of_int (mac_value s acc rnd x z)" for z
    by (simp add: mac_result_exact [OF assms(2)] mac_value_def mac_round_mode_int)
  then show ?thesis using assms(1)
    by (intro conjI saturate_after)
      (simp_all only: mac_op_mr_def mac_op_mr_xop_def Let_def assms(2) prod.case mac_ext_int assms(3,4) [symmetric] v if_False)
qed

section \<open>Instances\<close>

definition mac_state :: "u16 \<Rightarrow> u16 \<Rightarrow> u64 \<Rightarrow> adsp2181" where
  "mac_state x y m = adsp2181_zero\<lparr>core := adspcore_zero\<lparr>mx0 := x, my0 := y, mr := m\<rparr>\<rparr>"

lemma mac_state_sel [simp]:
  "mac_xreg (core (mac_state x y m)) 0 = x" "mac_yreg (core (mac_state x y m)) 0 = y"
  "mr (core (mac_state x y m)) = m" "mstat (mac_state x y m) = 0" "data (mac_state x y m) = (\<lambda>_. 0)"
  by (simp_all add: mac_state_def mac_xreg_def mac_yreg_def zero_defs)

theorem mac_op_mr_correct_witness:
  "sint (mr (core (mac_op_mr (mac_state 0x4000 0xc000 5) 0x10000))) = 5 - 0x20000000"
  using mac_op_mr_correct [where op = "0x10000" and s = "mac_state 0x4000 0xc000 5"
      and xs = True and ys = True and acc = Acc_add and rnd = False, OF _ _ refl]
  by (simp add: mac_arms_def mac_exact_def ext_int_def)

theorem mac_op_mr_round_witness:
  "sint (mr (core (mac_op_mr (mac_state 1 0x4000 7) 0x2000))) = 0"
  using mac_op_mr_round [where op = "0x2000" and s = "mac_state 1 0x4000 7"
      and xs = True and ys = True and acc = Acc_set and rnd = True, OF _ _ refl _ refl]
  by (simp add: mac_arms_def mac_exact_def ext_int_def round_int_def)

theorem mac_then_saturate_witness:
  "sint (mr (core (saturate_mr (mac_op_mr (mac_state 0x7fff 0x7fff 0x7fffffff) 0x10000)))) = 0x7fffffff"
  using mac_then_saturate [where op = "0x10000" and s = "mac_state 0x7fff 0x7fff 0x7fffffff"
      and xs = True and ys = True and acc = Acc_add and rnd = False, OF _ _ refl refl]
  by (simp add: mac_arms_def mac_value_def mac_exact_def ext_int_def clamp32_def)

end
