(* ===== verification/Host.thy ===== *)
theory Host
  imports Wellformed
begin

text \<open>
  The host side of \<^verbatim>\<open>adsp2181_core.c\<close>: creation and reset, bounded runs, the IDMA port and
  boot hold, interrupts and serial ports, injected calls, and the instrumentation switches.
  Every function takes the processor state (the C functions return at once on a null handle) and
  yields the new one; those that execute instructions yield an option, \<open>None\<close> being undefined
  behaviour of an executed shift.
\<close>

section \<open>Creation and reset\<close>

definition reset_dag :: "adsp2181 \<Rightarrow> adsp2181" where
  "reset_dag s = fold (\<lambda>k s. let s1 = wr_l k s (dag_l s k) in wr_i k s1 (dag_i s1 k)) [0..<8] s"

definition reset_ins :: "instr_state \<Rightarrow> instr_state" where
  "reset_ins n = n\<lparr>stop_dm_armed := False, stop_dm_hit := False, stop_dm_group := 1,
     stop_dm_left := 1, latch_dm_armed := False, latch_dm_have := False, latch_dm_count := 0,
     yield_on_stop := False, continue_non_idle := False\<rparr>"

definition adsp2181_reset :: "adsp2181 \<Rightarrow> adsp2181" where
  "adsp2181_reset s =
     (let s1 = reset_dag (s\<lparr>core := (core s)\<lparr>czero := 0\<rparr>, alt := (alt s)\<lparr>czero := 0\<rparr>\<rparr>);
          s2 = s1\<lparr>pc := 0, ppc := 0xffffffff, cntr_valid := False, loop_end := 0xffff,
                 loop_condition := 0,
                 astat_clear := NOT (CFLAG OR VFLAG OR NFLAG OR ZFLAG), mstat := 0, sstat := 0x55,
                 idle := False, pmovlay := 0, dmovlay := 0, sport_rx := (\<lambda>_. 0),
                 sport_tx := (\<lambda>_. 0), sport_tx_written := (\<lambda>_. 0)\<rparr>;
          s3 = update_mstat (upd_ins reset_ins s2);
          s4 = s3\<lparr>pc_sp := 0, cntr_sp := 0, stat_sp := 0, loop_sp := 0, inject_valid := False,
                 imask := 0, icntl := 0, interrupts_enabled := True\<rparr>;
          s5 = upd_ins (\<lambda>n. n\<lparr>pcsp_window_min := 0xff, pcsp_window_max := 0, watch_gate := True\<rparr>) s4;
          s6 = upd_ins (\<lambda>n. n\<lparr>coverage_on := True\<rparr>) (s5\<lparr>stack_over_warned := 0\<rparr>)
      in s6\<lparr>irq_state := (\<lambda>_. False), irq_latch := (\<lambda>_. False)\<rparr>)"

definition adsp2181_create :: adsp2181 where
  "adsp2181_create =
     adsp2181_reset (adsp2181_zero\<lparr>chip_type := 5, mstat_mask := 0x7f, imask_mask := 0x3ff\<rparr>)"

definition adsp2181_set_callbacks ::
  "adsp2181 \<Rightarrow> (nat \<Rightarrow> event list \<Rightarrow> u32) option \<Rightarrow> bool \<Rightarrow> bool \<Rightarrow> adsp2181" where
  "adsp2181_set_callbacks s r t f = s\<lparr>sport_rx_callback := r, sport_tx_callback := t, timer_fired := f\<rparr>"

section \<open>Running\<close>

definition adsp2181_run :: "adsp2181 \<Rightarrow> int \<Rightarrow> (int \<times> adsp2181) option" where
  "adsp2181_run s cyc =
     (if cyc \<le> 0 \<or> idma_boot_hold s then Some (0, s)
      else map_option (\<lambda>s'. (cyc - icount s', s')) (execute (s\<lparr>icount := cyc\<rparr>)))"

section \<open>The IDMA port and host accesses\<close>

definition adsp2181_set_idma_boot_hold :: "adsp2181 \<Rightarrow> bool \<Rightarrow> adsp2181" where
  "adsp2181_set_idma_boot_hold s on =
     s\<lparr>idma_boot_hold := on, idma_boot_mode := (if on then True else idma_boot_mode s)\<rparr>"

definition adsp2181_idma_addr_write :: "adsp2181 \<Rightarrow> u16 \<Rightarrow> adsp2181" where
  "adsp2181_idma_addr_write s address =
     (let s1 = (if idma_addr s AND 0x4000 = 0 \<and> idma_offs s \<and> idma_pending_write s
                then WWORD_PGM s (ucast (idma_addr s AND 0x3fff)) (push_bit 8 (ucast (idma_cache s)))
                else s)
      in s1\<lparr>idma_addr := address, idma_offs := False, idma_pending_write := False\<rparr>)"

definition idma_release :: "u16 \<Rightarrow> adsp2181 \<Rightarrow> adsp2181" where
  "idma_release pm_addr s =
     (if idma_boot_mode s then
        if pm_addr = 0 then
          if idma_boot_hold s then s\<lparr>idma_boot_hold := False, pc := 0, ppc := 0xffffffff\<rparr> else s
        else s\<lparr>idma_boot_hold := True\<rparr>
      else s)"

definition adsp2181_idma_data_write :: "adsp2181 \<Rightarrow> u16 \<Rightarrow> adsp2181" where
  "adsp2181_idma_data_write s value =
     (if idma_addr s AND 0x4000 \<noteq> 0 then
        WWORD_DATA (s\<lparr>idma_addr := idma_addr s + 1\<rparr>) (ucast (idma_addr s AND 0x3fff)) value
      else if \<not> idma_offs s then
        s\<lparr>idma_cache := value, idma_offs := True, idma_pending_write := True\<rparr>
      else
        (let pm_addr = idma_addr s AND 0x3fff;
             s1 = WWORD_PGM s (ucast pm_addr)
                    (push_bit 8 (ucast (idma_cache s)) OR ucast (value AND 0xff));
             s2 = s1\<lparr>idma_addr := idma_addr s1 + 1, idma_offs := False, idma_pending_write := False\<rparr>
         in idma_release pm_addr s2))"

definition adsp2181_idma_data_read :: "adsp2181 \<Rightarrow> u16 \<times> adsp2181" where
  "adsp2181_idma_data_read s =
     (if idma_addr s AND 0x4000 \<noteq> 0 then
        RWORD_DATA (s\<lparr>idma_addr := idma_addr s + 1\<rparr>) (ucast (idma_addr s AND 0x3fff))
      else if \<not> idma_offs s then
        (ucast (drop_bit 8 (RWORD_PGM s (ucast (idma_addr s AND 0x3fff)))),
         s\<lparr>idma_offs := True, idma_pending_write := False\<rparr>)
      else
        (ucast (RWORD_PGM s (ucast (idma_addr s AND 0x3fff)) AND 0xff),
         s\<lparr>idma_addr := idma_addr s + 1, idma_offs := False\<rparr>))"

definition adsp2181_host_write :: "adsp2181 \<Rightarrow> u16 \<Rightarrow> u16 \<Rightarrow> adsp2181" where
  "adsp2181_host_write s addr value =
     (if addr AND 0x4000 \<noteq> 0 then WWORD_DATA s (ucast (addr AND 0x3fff)) value
      else WWORD_PGM s (ucast (addr AND 0x3fff)) (push_bit 8 (ucast value)))"

definition adsp2181_host_read :: "adsp2181 \<Rightarrow> u16 \<Rightarrow> u16 \<times> adsp2181" where
  "adsp2181_host_read s addr =
     (if addr AND 0x4000 \<noteq> 0 then RWORD_DATA s (ucast (addr AND 0x3fff))
      else (ucast (drop_bit 8 (RWORD_PGM s (ucast (addr AND 0x3fff)))), s))"

definition adsp2181_read_pm :: "adsp2181 \<Rightarrow> u16 \<Rightarrow> u32" where
  "adsp2181_read_pm s addr = RWORD_PGM s (ucast addr)"

section \<open>Instrumentation switches\<close>

abbreviation (input) cell :: "u16 \<Rightarrow> u32" where "cell addr \<equiv> ucast addr AND 0x3fff"

definition adsp2181_watch_dm_limited :: "adsp2181 \<Rightarrow> u16 \<Rightarrow> u32 \<Rightarrow> adsp2181" where
  "adsp2181_watch_dm_limited s addr limit =
     upd_ins (\<lambda>n. n\<lparr>watch_dm := (watch_dm n)(cell addr := True),
       watch_dm_left := (watch_dm_left n)(cell addr := limit),
       watch_dm_wonly := (watch_dm_wonly n)(cell addr := False), exec_history_enabled := True\<rparr>) s"

definition adsp2181_watch_dm_writes :: "adsp2181 \<Rightarrow> u16 \<Rightarrow> u32 \<Rightarrow> adsp2181" where
  "adsp2181_watch_dm_writes s addr limit =
     upd_ins (\<lambda>n. n\<lparr>watch_dm := (watch_dm n)(cell addr := True),
       watch_dm_left := (watch_dm_left n)(cell addr := limit),
       watch_dm_wonly := (watch_dm_wonly n)(cell addr := True), exec_history_enabled := True\<rparr>) s"

definition adsp2181_watch_dm :: "adsp2181 \<Rightarrow> u16 \<Rightarrow> bool \<Rightarrow> adsp2181" where
  "adsp2181_watch_dm s addr on =
     upd_ins (\<lambda>n. n\<lparr>watch_dm := (watch_dm n)(cell addr := on),
       watch_dm_left := (watch_dm_left n)(cell addr := 0),
       watch_dm_wonly := (watch_dm_wonly n)(cell addr := False),
       exec_history_enabled := (if on then True else exec_history_enabled n)\<rparr>) s"

definition adsp2181_watch_pm :: "adsp2181 \<Rightarrow> u16 \<Rightarrow> bool \<Rightarrow> adsp2181" where
  "adsp2181_watch_pm s addr on = upd_ins (\<lambda>n. n\<lparr>watch_pm := (watch_pm n)(cell addr := on)\<rparr>) s"

definition adsp2181_watch_gate :: "adsp2181 \<Rightarrow> bool \<Rightarrow> adsp2181" where
  "adsp2181_watch_gate s on = upd_ins (\<lambda>n. n\<lparr>watch_gate := on\<rparr>) s"

definition adsp2181_pcsp_window :: "adsp2181 \<Rightarrow> u32 \<times> adsp2181" where
  "adsp2181_pcsp_window s =
     (let s1 = note_pcsp s; lo = pcsp_window_min (ins s1); hi = pcsp_window_max (ins s1)
      in (push_bit 8 (ucast lo) OR ucast hi,
          upd_ins (\<lambda>n. n\<lparr>pcsp_window_min := of_nat (pc_sp s), pcsp_window_max := of_nat (pc_sp s)\<rparr>) s1))"

definition adsp2181_pin_pm :: "adsp2181 \<Rightarrow> u16 \<Rightarrow> u32 \<Rightarrow> bool \<Rightarrow> adsp2181" where
  "adsp2181_pin_pm s addr v on =
     upd_ins (\<lambda>n. n\<lparr>pin_pm := (pin_pm n)(cell addr := on),
       pin_pm_value := (pin_pm_value n)(cell addr := v AND 0xffffff),
       pin_pm_hits := (pin_pm_hits n)(cell addr := 0)\<rparr>) s"

definition adsp2181_force_pm_fetch :: "adsp2181 \<Rightarrow> u16 \<Rightarrow> u32 \<Rightarrow> bool \<Rightarrow> adsp2181" where
  "adsp2181_force_pm_fetch s addr v on =
     upd_ins (\<lambda>n. n\<lparr>force_pm_fetch := (force_pm_fetch n)(cell addr := on),
       force_pm_fetch_value := (force_pm_fetch_value n)(cell addr := v AND 0xffffff)\<rparr>) s"

definition adsp2181_pin_dm :: "adsp2181 \<Rightarrow> u16 \<Rightarrow> u16 \<Rightarrow> bool \<Rightarrow> adsp2181" where
  "adsp2181_pin_dm s addr v on =
     upd_ins (\<lambda>n. n\<lparr>pin_dm := (pin_dm n)(cell addr := on),
       pin_dm_value := (pin_dm_value n)(cell addr := v),
       pin_dm_hits := (pin_dm_hits n)(cell addr := 0)\<rparr>) s"

definition adsp2181_pin_dm_hits :: "adsp2181 \<Rightarrow> u16 \<Rightarrow> u32" where
  "adsp2181_pin_dm_hits s addr = pin_dm_hits (ins s) (cell addr)"

definition adsp2181_pin_pm_hits :: "adsp2181 \<Rightarrow> u16 \<Rightarrow> u32" where
  "adsp2181_pin_pm_hits s addr = pin_pm_hits (ins s) (cell addr)"

definition adsp2181_stop_on_dm_write_n :: "adsp2181 \<Rightarrow> u16 \<Rightarrow> int \<Rightarrow> bool \<Rightarrow> adsp2181" where
  "adsp2181_stop_on_dm_write_n s addr grp on =
     (let g = (if grp > 0 then of_int grp else 1) in
      upd_ins (\<lambda>n. n\<lparr>stop_dm_addr := addr AND 0x3fff, stop_dm_group := g, stop_dm_left := g,
        stop_dm_armed := on, stop_dm_hit := False\<rparr>) s)"

definition adsp2181_stop_on_dm_write :: "adsp2181 \<Rightarrow> u16 \<Rightarrow> bool \<Rightarrow> adsp2181" where
  "adsp2181_stop_on_dm_write s addr on = adsp2181_stop_on_dm_write_n s addr 1 on"

definition adsp2181_yield_on_stop :: "adsp2181 \<Rightarrow> bool \<Rightarrow> adsp2181" where
  "adsp2181_yield_on_stop s on = upd_ins (\<lambda>n. n\<lparr>yield_on_stop := on\<rparr>) s"

definition adsp2181_continue_non_idle :: "adsp2181 \<Rightarrow> bool \<Rightarrow> adsp2181" where
  "adsp2181_continue_non_idle s on = upd_ins (\<lambda>n. n\<lparr>continue_non_idle := on\<rparr>) s"

definition adsp2181_latch_dm_write :: "adsp2181 \<Rightarrow> u16 \<Rightarrow> bool \<Rightarrow> adsp2181" where
  "adsp2181_latch_dm_write s addr on =
     upd_ins (\<lambda>n. n\<lparr>latch_dm_addr := addr AND 0x3fff, latch_dm_armed := on,
       latch_dm_have := False, latch_dm_count := 0\<rparr>) s"

definition adsp2181_latched_dm_writes :: "adsp2181 \<Rightarrow> u32" where
  "adsp2181_latched_dm_writes s = latch_dm_count (ins s)"

definition adsp2181_latched_dm_write :: "adsp2181 \<Rightarrow> int" where
  "adsp2181_latched_dm_write s =
     (if \<not> latch_dm_have (ins s) then - 1 else uint (latch_dm_value (ins s)))"

definition adsp2181_stop_dm_hit :: "adsp2181 \<Rightarrow> bool \<times> adsp2181" where
  "adsp2181_stop_dm_hit s = (stop_dm_hit (ins s), upd_ins (\<lambda>n. n\<lparr>stop_dm_hit := False\<rparr>) s)"

definition adsp2181_watch_exec :: "adsp2181 \<Rightarrow> u16 \<Rightarrow> bool \<Rightarrow> adsp2181" where
  "adsp2181_watch_exec s addr on =
     upd_ins (\<lambda>n. n\<lparr>watch_exec := (watch_exec n)(cell addr := on),
       watch_exec_left := (watch_exec_left n)(cell addr := 0),
       exec_history_enabled := (if on then True else exec_history_enabled n)\<rparr>) s"

definition adsp2181_watch_exec_limited :: "adsp2181 \<Rightarrow> u16 \<Rightarrow> u32 \<Rightarrow> adsp2181" where
  "adsp2181_watch_exec_limited s addr limit =
     upd_ins (\<lambda>n. n\<lparr>watch_exec := (watch_exec n)(cell addr := True),
       watch_exec_left := (watch_exec_left n)(cell addr := limit), exec_history_enabled := True\<rparr>) s"

definition adsp2181_watch_irqs :: "adsp2181 \<Rightarrow> bool \<Rightarrow> adsp2181" where
  "adsp2181_watch_irqs s on = upd_ins (\<lambda>n. n\<lparr>watch_irqs := on\<rparr>) s"

definition adsp2181_coverage_clear :: "adsp2181 \<Rightarrow> adsp2181" where
  "adsp2181_coverage_clear s = upd_ins (\<lambda>n. n\<lparr>coverage := (\<lambda>_. 0)\<rparr>) s"

definition adsp2181_coverage_gate :: "adsp2181 \<Rightarrow> bool \<Rightarrow> adsp2181" where
  "adsp2181_coverage_gate s on = upd_ins (\<lambda>n. n\<lparr>coverage_on := on\<rparr>) s"

definition adsp2181_coverage_count :: "adsp2181 \<Rightarrow> u16 \<Rightarrow> u64" where
  "adsp2181_coverage_count s p = coverage (ins s) (cell p)"

definition adsp2181_dm_census :: "adsp2181 \<Rightarrow> bool \<Rightarrow> adsp2181" where
  "adsp2181_dm_census s on = upd_ins (\<lambda>n. n\<lparr>dm_census_on := on\<rparr>) s"

definition adsp2181_dm_census_clear :: "adsp2181 \<Rightarrow> adsp2181" where
  "adsp2181_dm_census_clear s = upd_ins (\<lambda>n. n\<lparr>dm_census := (\<lambda>_. 0)\<rparr>) s"

definition adsp2181_dm_census_count :: "adsp2181 \<Rightarrow> u16 \<Rightarrow> u64" where
  "adsp2181_dm_census_count s addr = dm_census (ins s) (cell addr)"

definition adsp2181_trace_budget :: "adsp2181 \<Rightarrow> int \<Rightarrow> adsp2181" where
  "adsp2181_trace_budget s k = upd_ins (\<lambda>n. n\<lparr>trace_budget := k\<rparr>) s"

section \<open>Register accessors\<close>

definition adsp2181_pc :: "adsp2181 \<Rightarrow> u16" where
  "adsp2181_pc s = ucast (pc s AND 0x3fff)"

definition adsp2181_i :: "adsp2181 \<Rightarrow> int \<Rightarrow> u16" where
  "adsp2181_i s index =
     (if 0 \<le> index \<and> index < 8 then ucast (dag_i s (nat index) AND 0x3fff) else 0)"

definition adsp2181_set_pc :: "adsp2181 \<Rightarrow> u16 \<Rightarrow> adsp2181" where
  "adsp2181_set_pc s a = s\<lparr>pc := ucast a AND 0x3fff, idle := False\<rparr>"

definition adsp2181_set_imask :: "adsp2181 \<Rightarrow> u16 \<Rightarrow> adsp2181" where
  "adsp2181_set_imask s m = s\<lparr>imask := m AND 0x3ff\<rparr>"

definition adsp2181_set_flagin :: "adsp2181 \<Rightarrow> bool \<Rightarrow> adsp2181" where
  "adsp2181_set_flagin s b = s\<lparr>flagin := b\<rparr>"

definition adsp2181_set_ar :: "adsp2181 \<Rightarrow> u16 \<Rightarrow> adsp2181" where
  "adsp2181_set_ar s v = upd_core (\<lambda>c. c\<lparr>ar := v\<rparr>) s"

definition adsp2181_set_sr1 :: "adsp2181 \<Rightarrow> u16 \<Rightarrow> adsp2181" where
  "adsp2181_set_sr1 s v = upd_core (set_sr1 v) s"

section \<open>Snapshots\<close>

definition irq_word :: "(nat \<Rightarrow> bool) \<Rightarrow> u32" where
  "irq_word f = fold (\<lambda>k w. w OR push_bit k (of_bool (f k))) [0..<9] 0"

definition take_sport_snapshot :: "adsp2181 \<Rightarrow> u32 list" where
  "take_sport_snapshot s =
     [pc s AND 0x3fff, ppc s AND 0x3fff, of_bool (idle s), ucast (cycles (ins s)),
      ucast (drop_bit 32 (cycles (ins s))), irq_word (irq_state s), irq_word (irq_latch s),
      ucast (imask s), ucast (icntl s), of_bool (interrupts_enabled s), of_nat (pc_sp s),
      of_nat (stat_sp s), of_nat (loop_sp s), of_nat (cntr_sp s), astat s, mstat s, sstat s,
      of_int (icount s), ucast (sport_rx s 0), ucast (sport_tx s 0),
      of_bool (sport_tx_written s 0 \<noteq> 0)]"

definition adsp2181_sport_snapshot :: "adsp2181 \<Rightarrow> bool \<Rightarrow> nat \<Rightarrow> u32 list option" where
  "adsp2181_sport_snapshot s after words =
     (if words < 21 then None
      else Some (if after then sport_return_snapshot (ins s) else sport_entry_snapshot (ins s)))"

section \<open>Injected calls\<close>

definition discard_stale_synthetic_returns :: "adsp2181 \<Rightarrow> u16 \<Rightarrow> adsp2181" where
  "discard_stale_synthetic_returns s return_pc =
     (if \<not> idle s \<or> \<not> inject_valid s then s
      else if pc_sp s \<le> inject_pc_sp s then s
      else if pc_stack s (inject_pc_sp s) AND 0x3fff \<noteq> ucast (return_pc AND 0x3fff) then s
      else
        (let s1 = s\<lparr>pc_sp := inject_pc_sp s,
                   cntr_sp := (if cntr_sp s > inject_cntr_sp s then inject_cntr_sp s else cntr_sp s),
                   stat_sp := (if stat_sp s > inject_stat_sp s then inject_stat_sp s else stat_sp s),
                   loop_sp := (if loop_sp s > inject_loop_sp s then inject_loop_sp s else loop_sp s)\<rparr>;
             w = (if pc_sp s1 = 0 then sstat s1 OR PC_EMPTY else sstat s1)
         in s1\<lparr>sstat := w AND NOT PC_OVER, stack_over_warned := 0\<rparr>))"

definition adsp2181_call :: "adsp2181 \<Rightarrow> u16 \<Rightarrow> u16 \<Rightarrow> adsp2181" where
  "adsp2181_call s entry return_pc =
     (let s1 = discard_stale_synthetic_returns s return_pc;
          s2 = s1\<lparr>inject_pc_sp := pc_sp s1, inject_cntr_sp := cntr_sp s1, inject_stat_sp := stat_sp s1,
                 inject_loop_sp := loop_sp s1, inject_return := return_pc AND 0x3fff,
                 inject_valid := True\<rparr>;
          s3 = pc_stack_push_val s2 (ucast (return_pc AND 0x3fff))
      in s3\<lparr>pc := ucast (entry AND 0x3fff), idle := False\<rparr>)"

section \<open>Interrupt lines and the serial ports\<close>

text \<open>
  A receive callback sees the port and what the callbacks of its host were told before (its static
  variables are a function of that history).
\<close>

definition sport_receive :: "nat \<Rightarrow> adsp2181 \<Rightarrow> adsp2181" where
  "sport_receive port s =
     (case sport_rx_callback s of None \<Rightarrow> s
      | Some f \<Rightarrow> emit (Ev_rx port)
          (s\<lparr>sport_rx := (sport_rx s)(port := ucast (f port (out s)))\<rparr>))"

definition adsp2181_set_irq :: "adsp2181 \<Rightarrow> int \<Rightarrow> bool \<Rightarrow> adsp2181" where
  "adsp2181_set_irq s irq asserted =
     (if irq < 0 \<or> irq \<ge> int ADSP2181_IRQ_COUNT then s
      else
        (let k = nat irq;
             s1 = (if asserted \<and> \<not> irq_state s k then
                     (let s0 = s\<lparr>irq_latch := (irq_latch s)(k := True)\<rparr> in
                      if k = ADSP2181_SPORT0_RX then sport_receive 0 s0
                      else if k = ADSP2181_SPORT1_RX \<or> k = ADSP2181_SPORT1_TX then sport_receive 1 s0
                      else s0)
                   else s)
         in check_irqs (s1\<lparr>irq_state := (irq_state s1)(k := asserted)\<rparr>)))"

definition adsp2181_sport1_frame :: "adsp2181 \<Rightarrow> u16 \<Rightarrow> int \<Rightarrow> (u32 \<times> adsp2181) option" where
  "adsp2181_sport1_frame s receive_word cyc =
     (if cyc \<le> 0 then Some (0, s)
      else
        (let s1 = s\<lparr>sport_rx := (sport_rx s)(1 := receive_word),
                   sport_tx_written := (sport_tx_written s)(1 := 0)\<rparr>;
             s2 = adsp2181_set_irq s1 (int ADSP2181_SPORT1_TX) True;
             s3 = adsp2181_set_irq s2 (int ADSP2181_SPORT1_TX) False
         in map_option (\<lambda>(_, s4). (ucast (sport_tx s4 1) OR
                (if sport_tx_written s4 1 \<noteq> 0 then 0x10000 else 0), s4)) (adsp2181_run s3 cyc)))"

text \<open>One serial-port service: latch the edge, let it be taken, release the line, execute.\<close>

definition sport0_service :: "int \<Rightarrow> adsp2181 \<Rightarrow> adsp2181 option" where
  "sport0_service cyc s =
     (let s1 = check_irqs (s\<lparr>irq_latch := (irq_latch s)(ADSP2181_SPORT0_RX := True),
                            irq_state := (irq_state s)(ADSP2181_SPORT0_RX := True)\<rparr>)
      in execute (s1\<lparr>irq_state := (irq_state s1)(ADSP2181_SPORT0_RX := False), icount := cyc\<rparr>))"

definition snapshot_entry :: "adsp2181 \<Rightarrow> adsp2181" where
  "snapshot_entry s = upd_ins (\<lambda>n. n\<lparr>sport_entry_snapshot := take_sport_snapshot s\<rparr>) s"

definition snapshot_return :: "adsp2181 \<Rightarrow> adsp2181" where
  "snapshot_return s = upd_ins (\<lambda>n. n\<lparr>sport_return_snapshot := take_sport_snapshot s\<rparr>) s"

text \<open>The loop over the 32 timeslots of a frame, the dispatch slot last.\<close>

fun tdm_slots :: "nat list \<Rightarrow> nat \<Rightarrow> nat \<Rightarrow> u32 \<Rightarrow> u32 \<Rightarrow> u16 \<Rightarrow> u16 \<Rightarrow> int \<Rightarrow> u16 \<times> adsp2181
    \<Rightarrow> (u16 \<times> adsp2181) option" where
  "tdm_slots [] _ _ _ _ _ _ _ (tx, s) = Some (tx, s)"
| "tdm_slots (slot # rest) active_slot dispatch_slot task_dispatch task_isr active_word idle_word cyc (tx, s) =
     (let selected = (slot = dispatch_slot);
          s1 = WWORD_PGM s 0x02b9 (if selected then task_dispatch else 0);
          s2 = WWORD_PGM s1 0x00b5 task_isr;
          s3 = s2\<lparr>sport_rx := (sport_rx s2)(0 := if slot = active_slot then active_word else idle_word)\<rparr>;
          s4 = (if selected
                then snapshot_entry (s3\<lparr>sport_tx_written := (sport_tx_written s3)(0 := 0)\<rparr>) else s3)
      in case sport0_service cyc s4 of None \<Rightarrow> None
         | Some s5 \<Rightarrow>
             tdm_slots rest active_slot dispatch_slot task_dispatch task_isr active_word idle_word cyc
               (if selected then (sport_tx s5 0, snapshot_return s5) else (tx, s5)))"

definition fill_tdm :: "u16 \<Rightarrow> adsp2181 \<Rightarrow> adsp2181" where
  "fill_tdm w s = fold (\<lambda>a s. WWORD_DATA s (of_nat a) w) [0x2e00..<0x2e40] s"

text \<open>\<open>full_tdm\<close> says whether \<^verbatim>\<open>EICON_SPORT_FULL_TDM\<close> is in the environment.\<close>

definition adsp2181_sport0_tdm_frame ::
  "bool \<Rightarrow> adsp2181 \<Rightarrow> int \<Rightarrow> int \<Rightarrow> u16 \<Rightarrow> u16 \<Rightarrow> int \<Rightarrow> (u16 \<times> adsp2181) option" where
  "adsp2181_sport0_tdm_frame full_tdm s active_slot dispatch_slot active_word idle_word cyc =
     (if active_slot < 0 \<or> active_slot \<ge> 32 \<or> dispatch_slot < 0 \<or> dispatch_slot \<ge> 32 \<or> cyc \<le> 0
      then Some (0, s)
      else
        (let task_dispatch = RWORD_PGM s 0x02b9;
             task_isr = RWORD_PGM s 0x00b5;
             s1 = WWORD_PGM (WWORD_PGM s 0x02b9 task_dispatch) 0x00b5 task_isr;
             s2 = s1\<lparr>sport_rx := (sport_rx s1)(0 := active_word),
                    sport_tx_written := (sport_tx_written s1)(0 := 0)\<rparr>;
             r = (if full_tdm then
                    tdm_slots (map (\<lambda>k. (nat dispatch_slot + k) mod 32) [1..<33]) (nat active_slot)
                      (nat dispatch_slot) task_dispatch task_isr active_word idle_word cyc (0, s2)
                  else
                    map_option (\<lambda>s4. (sport_tx s4 0, snapshot_return s4))
                      (sport0_service cyc (snapshot_entry (fill_tdm active_word s2))))
         in map_option (\<lambda>(tx, s5). (tx, WWORD_PGM (WWORD_PGM s5 0x02b9 task_dispatch) 0x00b5 task_isr)) r))"

section \<open>One modem sample\<close>

text \<open>What \<^verbatim>\<open>adsp2181_modem_sample\<close> saves around an injected continuation and puts back.\<close>

definition restore_volatile :: "adsp2181 \<Rightarrow> adsp2181 \<Rightarrow> adsp2181" where
  "restore_volatile a s =
     s\<lparr>core := core a, alt := alt a, dag_i := dag_i a, dag_m := dag_m a, dag_l := dag_l a,
       dag_lmask := dag_lmask a, dag_base := dag_base a, loop_stack := loop_stack a,
       cntr_stack := cntr_stack a, pc_stack := pc_stack a, stat_stack := stat_stack a,
       loop_end := loop_end a, loop_condition := loop_condition a, cntr := cntr a,
       cntr_valid := cntr_valid a, astat := astat a, sstat := sstat a, mstat := mstat a,
       mstat_prev := mstat_prev a, ppc := ppc a, px := px a, pc_sp := pc_sp a, cntr_sp := cntr_sp a,
       stat_sp := stat_sp a, loop_sp := loop_sp a\<rparr>"

definition adsp2181_modem_sample ::
  "bool \<Rightarrow> adsp2181 \<Rightarrow> u16 \<Rightarrow> u16 \<Rightarrow> int \<Rightarrow> u16 \<Rightarrow> u16 \<Rightarrow> (u16 \<times> adsp2181) option" where
  "adsp2181_modem_sample full_tdm s0 active_word idle_word cyc continuation return_pc =
     (case adsp2181_sport0_tdm_frame full_tdm s0 0 0 active_word idle_word cyc of None \<Rightarrow> None
      | Some (tx, s) \<Rightarrow>
          if idle s then
            (let s1 = pc_stack_push_val (discard_stale_synthetic_returns s return_pc)
                        (ucast (return_pc AND 0x3fff))
             in map_option (Pair tx)
                  (execute (s1\<lparr>pc := ucast (continuation AND 0x3fff), idle := False, icount := cyc\<rparr>)))
          else if (yield_on_stop (ins s) \<and> stop_dm_hit (ins s)) \<or> continue_non_idle (ins s) then
            (let s1 = pc_stack_push_val (upd_ins (\<lambda>n. n\<lparr>stop_dm_armed := False\<rparr>) s)
                        (ucast (return_pc AND 0x3fff))
             in map_option (\<lambda>s2. (tx,
                    (upd_ins (\<lambda>n. n\<lparr>stop_dm_armed := stop_dm_armed (ins s)\<rparr>) (restore_volatile s s2))
                    \<lparr>pc := ucast (ucast (pc s) :: u16), idle := False\<rparr>))
                  (execute (s1\<lparr>pc := ucast (continuation AND 0x3fff), icount := cyc\<rparr>)))
          else Some (tx, s))"

section \<open>The G.711 encoder loop\<close>

definition reverse_octet :: "u8 \<Rightarrow> u8" where
  "reverse_octet v0 =
     (let v1 = push_bit 1 (v0 AND 0x55) OR (drop_bit 1 v0 AND 0x55);
          v2 = push_bit 2 (v1 AND 0x33) OR (drop_bit 2 v1 AND 0x33)
      in push_bit 4 v2 OR drop_bit 4 v2)"

definition g711_encode_one :: "adsp2181 \<Rightarrow> u16 \<Rightarrow> u16 \<Rightarrow> u16 \<Rightarrow> int \<Rightarrow> (u8 \<times> adsp2181) option" where
  "g711_encode_one s sample entry return_pc cyc =
     (let s1 = pc_stack_push_val (upd_core (\<lambda>c. c\<lparr>ar := sample\<rparr>) s) (ucast (return_pc AND 0x3fff))
      in map_option (\<lambda>s2. (reverse_octet (ucast (sr1 (core s2))), s2))
           (execute (s1\<lparr>pc := ucast (entry AND 0x3fff), idle := False, icount := cyc\<rparr>)))"

fun g711_encode_samples :: "adsp2181 \<Rightarrow> u16 list \<Rightarrow> u16 \<Rightarrow> u16 \<Rightarrow> int \<Rightarrow> (u8 list \<times> adsp2181) option" where
  "g711_encode_samples s [] _ _ _ = Some ([], s)"
| "g711_encode_samples s (x # xs) entry return_pc cyc =
     (case g711_encode_one s x entry return_pc cyc of None \<Rightarrow> None
      | Some (c, s1) \<Rightarrow> map_option (\<lambda>(cs, s2). (c # cs, s2))
                         (g711_encode_samples s1 xs entry return_pc cyc))"

text \<open>The first component is the C result; the codes written are the second.\<close>

definition adsp2181_g711_encode_block ::
  "adsp2181 \<Rightarrow> u16 list \<Rightarrow> u16 \<Rightarrow> u16 \<Rightarrow> int \<Rightarrow> (int \<times> u8 list \<times> adsp2181) option" where
  "adsp2181_g711_encode_block s samples entry return_pc cyc =
     (if cyc \<le> 0 \<or> idma_boot_hold s then Some (- 1, [], s)
      else map_option (Pair 0) (g711_encode_samples s samples entry return_pc cyc))"

end
