(* ===== verification/Runs.thy ===== *)
theory Runs
  imports Host
begin

text \<open>
  Bounded runs.  Which instructions have no defined result, what \<^verbatim>\<open>adsp2181_run\<close> executes and
  returns, what the host can do between runs (the relation \<open>reachable\<close>), and the invariants of
  \<open>Wellformed\<close> carried over all of it.
\<close>

section \<open>Instructions without a defined result\<close>

text \<open>NORM (HI) with a shift count above 32, in the register and the immediate form.\<close>

definition norm_hazard :: "adsp2181 \<Rightarrow> u32 \<Rightarrow> bool" where
  "norm_hazard s op \<longleftrightarrow> shift_n op \<in> {8, 9} \<and>
     (let h = unat (drop_bit 16 op) in
      if h = 0x0f then 32 < sint (ucast op :: u8)
      else 0x0e \<le> h \<and> h \<le> 0x13 \<and> (h = 0x0e \<longrightarrow> fst (CONDITION s (op AND 15)))
        \<and> 32 < sint (ucast (se (core s)) :: u8))"

lemma se_sequencer [simp]:
  "se (core (snd (pc_stack_pop_val s))) = se (core s)" "se (core (cntr_stack_pop s)) = se (core s)"
  "se (core (loop_stack_pop s)) = se (core s)" "se (core (wr_inval s)) = se (core s)"
  "se (core (modify_address s k j)) = se (core s)"
  by (simp_all add: pc_stack_pop_val_def note_pcsp_def cntr_stack_pop_def loop_stack_pop_def
      wr_inval_def modify_address_def Let_def)

lemma se_reads [simp]:
  "se (core (snd (READ_REG s g r))) = se (core s)" "se (core (snd (CONDITION s c))) = se (core s)"
  by (simp_all add: READ_REG_def CONDITION_def Let_def)

lemma se_writes [simp]:
  "se (core (data_write_dag1 s op v)) = se (core s)" "se (core (data_write_dag2 s op v)) = se (core s)"
  "se (core (pgm_write_dag2 s op v)) = se (core s)"
  by (simp_all add: data_write_dag1_def data_write_dag2_def pgm_write_dag2_def Let_def case_prod_beta)

lemma exec_shift_None:
  "exec_shift_read rd s op = None \<longleftrightarrow> shift_op s op = None"
  "\<lbrakk>\<And>s v. se (core (wr s op v)) = se (core s)\<rbrakk> \<Longrightarrow>
     exec_shift_write wr s op = None \<longleftrightarrow> shift_op s op = None"
  by (simp_all add: exec_shift_read_def exec_shift_write_def case_prod_beta shift_op_None)


lemma exec_op_None: "exec_op s op = None \<longleftrightarrow> norm_hazard s op"
proof -
  define h where "h = unat (drop_bit 16 op)"
  have low: "exec_00_0f s op = None \<longleftrightarrow> norm_hazard s op" if h: "h < 0x10"
  proof -
    consider "h < 0x0e" | "h = 0x0e" | "h = 0x0f" using h by linarith
    then show ?thesis unfolding exec_00_0f_def norm_hazard_def h_def [symmetric] Let_def
      by cases ((simp split: if_split, presburger) | auto simp: case_prod_beta shift_op_None shift_op_imm_None)+
  qed
  have mid: "exec_10_1f s op = None \<longleftrightarrow> norm_hazard s op" if "0x10 \<le> h"
    using that by (auto simp: exec_10_1f_def norm_hazard_def h_def Let_def case_prod_beta
        exec_shift_None shift_op_None)
  show ?thesis using low mid unfolding exec_op_def h_def [symmetric] Let_def
    by (auto simp: norm_hazard_def h_def [symmetric])
qed

text \<open>
  C11. The only instruction without a defined result is NORM (HI) with a shift count above 32 (in SE,
  or in the instruction for the immediate form): the C code then shifts a 32-bit value by 32 or more
  places.  Every other instruction word, including every undocumented one, has a result.
\<close>

theorem exec_op_undefined: "exec_op s op = None \<longleftrightarrow> norm_hazard s op"
  by (rule exec_op_None)

section \<open>What a run executes\<close>

primrec steps :: "nat \<Rightarrow> adsp2181 \<Rightarrow> adsp2181 option" where
  "steps 0 s = Some s"
| "steps (Suc n) s = (case exec_step s of None \<Rightarrow> None | Some t \<Rightarrow> steps n t)"

lemma steps_cycles: "steps n s = Some s' \<Longrightarrow> cycles (ins s') = cycles (ins s) + of_nat n"
  by (induction n arbitrary: s) (auto split: option.splits dest!: exec_step_budget(2))

lemma steps_wiring: "steps n s = Some s' \<Longrightarrow> wiring s' = wiring s"
  by (induction n arbitrary: s) (auto split: option.splits dest!: exec_step_budget(3))

lemma exec_step_None: "exec_step s = None \<longleftrightarrow> norm_hazard (snd (fetch s)) (fst (fetch s))"
  by (simp add: exec_step_def case_prod_beta exec_op_None)

definition loop_outcome :: "adsp2181 \<Rightarrow> adsp2181 option \<Rightarrow> bool" where
  "loop_outcome s r \<longleftrightarrow> (case r of
     None \<Rightarrow> \<exists>n t. n < nat (icount s) \<and> steps n s = Some t \<and> exec_step t = None
   | Some s' \<Rightarrow> \<exists>n\<ge>1. n \<le> nat (icount s) \<and> steps n s = Some s'
       \<and> (icount s' = - 1 \<or> icount s' = 0 \<and> n = nat (icount s)))"

lemma loop_outcome_Suc:
  assumes "exec_step s = Some t" "loop_outcome t r" "icount t = icount s - 1"
  shows "loop_outcome s r"
proof (cases r)
  case None
  with assms obtain n u where "n < nat (icount t)" "steps n t = Some u" "exec_step u = None"
    by (auto simp: loop_outcome_def)
  with assms None show ?thesis by (auto simp: loop_outcome_def intro!: exI [of _ "Suc n"])
next
  case (Some s')
  with assms obtain n where "1 \<le> n" "n \<le> nat (icount t)" "steps n t = Some s'"
    "icount s' = - 1 \<or> icount s' = 0 \<and> n = nat (icount t)"
    by (auto simp: loop_outcome_def)
  with assms Some show ?thesis
    unfolding loop_outcome_def by (auto intro!: exI [of _ "Suc n"])
qed

lemma exec_loop_outcome: "0 < icount s \<Longrightarrow> loop_outcome s (exec_loop s)"
proof (induction s rule: exec_loop.induct)
  case (1 s)
  show ?case
  proof (cases "exec_step s")
    case None
    then show ?thesis using 1(2) by (subst exec_loop.simps) (auto simp: loop_outcome_def intro!: exI [of _ 0])
  next
    case (Some t)
    show ?thesis
    proof (cases "0 < icount t")
      case True
      then have c: "icount t = icount s - 1" using exec_step_budget(1) [OF Some] by simp
      have "loop_outcome t (exec_loop t)" using 1(1) Some True by blast
      then show ?thesis using c unfolding exec_loop.simps [of s] Some option.case if_P [OF True]
        by (rule loop_outcome_Suc [OF Some])
    next
      case False
      then have "icount t = - 1 \<or> icount t = 0 \<and> icount s = 1"
        using exec_step_budget(1) [OF Some] 1(2) by auto
      then show ?thesis using Some False 1(2)
        by (subst exec_loop.simps) (auto simp: loop_outcome_def intro!: exI [of _ "Suc 0"])
    qed
  qed
qed

lemma check_irqs_frame:
  "icount (check_irqs s) = icount s" "cycles (ins (check_irqs s)) = cycles (ins s)"
  "wiring (check_irqs s) = wiring s"
proof -
  have "budget s (check_irqs s)" by (rule budget.check_irqs_keeps) (simp add: budget_def)
  then show "cycles (ins (check_irqs s)) = cycles (ins s)" "wiring (check_irqs s) = wiring s"
    by (simp_all add: budget_def settings_def)
  have g: "icount (snd (generate_irq s k p)) = icount s" for s k p
    by (simp add: generate_irq_def Let_def pc_stack_push_eq)
  have "icount (try_irqs s ls) = icount s" for ls
  proof (induction s ls rule: try_irqs.induct)
    case (2 s which priority pending rest)
    then show ?case using g [of s which priority] by (cases "generate_irq s which priority") auto
  qed simp
  then show "icount (check_irqs s) = icount s" by (simp add: check_irqs_def)
qed

text \<open>
  C12. What \<^verbatim>\<open>adsp2181_run\<close> does.  On a core that is not held, with a positive budget, it takes a
  pending interrupt and then executes \<open>n\<close> instructions, at least one and at most the budget, advances
  the cycle counter by \<open>n\<close> and leaves host-side wiring alone; it returns the budget if all of it was
  used, or the budget plus one if an instruction (IDLE, a jump to itself, a stop on publish) ended
  the run.  It fails to return only at an instruction with no defined result.
\<close>

theorem run_executes:
  assumes "0 < cyc" "\<not> idma_boot_hold s" "r = check_irqs (s\<lparr>icount := cyc\<rparr>)"
  shows "(\<exists>n t. n < nat cyc \<and> steps n r = Some t \<and> norm_hazard (snd (fetch t)) (fst (fetch t))
            \<and> adsp2181_run s cyc = None)
       \<or> (\<exists>n\<ge>1. \<exists>s' k. n \<le> nat cyc \<and> steps n r = Some s' \<and> adsp2181_run s cyc = Some (k, s')
            \<and> (k = cyc \<and> n = nat cyc \<or> k = cyc + 1)
            \<and> cycles (ins s') = cycles (ins s) + of_nat n \<and> wiring s' = wiring s)"
proof -
  have c: "icount r = cyc" "cycles (ins r) = cycles (ins s)" "wiring r = wiring s"
    by (simp_all add: assms(3) check_irqs_frame)
  have run: "adsp2181_run s cyc = map_option (\<lambda>s'. (cyc - icount s', s')) (exec_loop r)"
    using assms by (simp add: adsp2181_run_def execute_def)
  have "loop_outcome r (exec_loop r)" using exec_loop_outcome [of r] assms(1) c(1) by simp
  then show ?thesis
  proof (cases "exec_loop r")
    case None
    with \<open>loop_outcome r (exec_loop r)\<close> show ?thesis
      using c by (auto simp: loop_outcome_def run exec_step_None)
  next
    case (Some s')
    then obtain n where n: "1 \<le> n" "n \<le> nat cyc" "steps n r = Some s'"
      "icount s' = - 1 \<or> icount s' = 0 \<and> n = nat cyc"
      using \<open>loop_outcome r (exec_loop r)\<close> c(1) by (auto simp: loop_outcome_def)
    then show ?thesis
      using c steps_cycles [OF n(3)] steps_wiring [OF n(3)] Some
      by (intro disjI2 exI [of _ n]) (auto simp: run)
  qed
qed

section \<open>The state after reset\<close>

lemma dag_fold_update:
  "\<exists>i l m b. fold (\<lambda>k s. let s1 = wr_l k s (dag_l s k) in wr_i k s1 (dag_i s1 k)) ks s =
     s\<lparr>dag_l := l, dag_lmask := m, dag_i := i, dag_base := b\<rparr>"
proof (induction ks arbitrary: s)
  case Nil
  have "s = s\<lparr>dag_l := dag_l s, dag_lmask := dag_lmask s, dag_i := dag_i s, dag_base := dag_base s\<rparr>" by simp
  then show ?case by (simp only: fold_simps) blast
next
  case (Cons k ks)
  obtain i l m b where "(let s1 = wr_l k s (dag_l s k) in wr_i k s1 (dag_i s1 k)) =
      s\<lparr>dag_l := l, dag_lmask := m, dag_i := i, dag_base := b\<rparr>"
    by (simp add: wr_l_def wr_i_def update_i_def update_l_def Let_def)
  then show ?case using Cons.IH [of "s\<lparr>dag_l := l, dag_lmask := m, dag_i := i, dag_base := b\<rparr>"]
    by auto
qed

lemma reset_dag_fields [simp]:
  "program (reset_dag s) = program s" "out (reset_dag s) = out s" "ins (reset_dag s) = ins s"
  "chip_type (reset_dag s) = chip_type s" "mstat_prev (reset_dag s) = mstat_prev s"
  "timer_fired (reset_dag s) = timer_fired s" "core (reset_dag s) = core s" "alt (reset_dag s) = alt s"
  "idma_boot_hold (reset_dag s) = idma_boot_hold s"
  using dag_fold_update [of "[0..<8]" s] unfolding reset_dag_def by auto

lemma reset_fields [simp]:
  "pc (adsp2181_reset s) = 0" "program (adsp2181_reset s) = program s"
  "imask (adsp2181_reset s) = 0" "interrupts_enabled (adsp2181_reset s)"
  "irq_state (adsp2181_reset s) = (\<lambda>_. False)" "irq_latch (adsp2181_reset s) = (\<lambda>_. False)"
  "loop_end (adsp2181_reset s) = 0xffff" "pmovlay (adsp2181_reset s) = 0" "dmovlay (adsp2181_reset s) = 0"
  "mstat (adsp2181_reset s) = 0" "pc_sp (adsp2181_reset s) = 0" "idle (adsp2181_reset s) = False"
  "chip_type (adsp2181_reset s) = chip_type s"
  "idma_boot_hold (adsp2181_reset s) = idma_boot_hold s"
  "settings (ins (adsp2181_reset s)) = settings (ins s)"
  by (simp_all add: adsp2181_reset_def update_mstat_def Let_def settings_def reset_ins_def)

lemma create_fields [simp]:
  "pc adsp2181_create = 0" "program adsp2181_create = (\<lambda>_. 0)" "imask adsp2181_create = 0"
  "irq_state adsp2181_create = (\<lambda>_. False)" "irq_latch adsp2181_create = (\<lambda>_. False)"
  "loop_end adsp2181_create = 0xffff" "pmovlay adsp2181_create = 0" "dmovlay adsp2181_create = 0"
  "mstat adsp2181_create = 0" "idle adsp2181_create = False" "chip_type adsp2181_create = 5"
  "idma_boot_hold adsp2181_create = False" "pc_sp adsp2181_create = 0"
  "settings (ins adsp2181_create) = (0, \<lambda>_. False, \<lambda>_. 0, \<lambda>_. False, \<lambda>_. 0, \<lambda>_. False, \<lambda>_. 0)"
  by (simp_all add: adsp2181_create_def) (simp_all add: zero_defs settings_def)

text \<open>A machine whose program is a single word at address 0.\<close>

definition one_word :: "u32 \<Rightarrow> adsp2181" where
  "one_word w = adsp2181_create\<lparr>program := (\<lambda>_. 0)(0 := w)\<rparr>"

lemma one_word_fields [simp]:
  "pc (one_word w) = 0" "loop_end (one_word w) = 0xffff" "idma_boot_hold (one_word w) = False"
  "irq_state (one_word w) = (\<lambda>_. False)" "irq_latch (one_word w) = (\<lambda>_. False)"
  "cycles (ins (one_word w)) = 0" "w AND 0xffffff = w \<Longrightarrow> RWORD_PGM (one_word w) 0 = w"
  using create_fields(14)
  by (simp_all add: one_word_def RWORD_PGM_def pm_cell_def pm_overlaid_def settings_def)

lemma check_irqs_none:
  "\<lbrakk>irq_state s = (\<lambda>_. False); irq_latch s = (\<lambda>_. False)\<rbrakk> \<Longrightarrow> check_irqs s = s"
  by (simp add: check_irqs_def irq_lines_def)

lemma fetch_word: "fst (fetch s) = RWORD_PGM s (pc s)"
  by (simp add: fetch_def Let_def RWORD_PGM_def pm_cell_def pm_overlaid_def)

lemma memories_disjoint:
  "RWORD_PGM (WWORD_DATA s x v) y = RWORD_PGM s y" "dm_cell (WWORD_PGM s x w) y = dm_cell s y"
proof -
  have "settings (ins (WWORD_DATA s x v)) = settings (ins s)" by simp
  then show "RWORD_PGM (WWORD_DATA s x v) y = RWORD_PGM s y"
    by (simp add: RWORD_PGM_def Let_def pm_cell_def pm_overlaid_def settings_def)
  show "dm_cell (WWORD_PGM s x w) y = dm_cell s y" by (simp add: dm_cell_def dm_overlaid_def)
qed

lemma run_one_defined:
  assumes "irq_state s = (\<lambda>_. False)" "irq_latch s = (\<lambda>_. False)" "\<not> idma_boot_hold s"
    and "\<And>t. \<not> norm_hazard t (RWORD_PGM s (pc s))"
  shows "\<exists>k s'. adsp2181_run s 1 = Some (k, s')"
proof -
  let ?r = "s\<lparr>icount := 1\<rparr>"
  have "RWORD_PGM ?r (pc s) = RWORD_PGM s (pc s)" by (simp add: RWORD_PGM_def Let_def pm_cell_def pm_overlaid_def)
  then have "exec_step ?r \<noteq> None" using assms(4) by (simp add: exec_step_None fetch_word)
  moreover have "check_irqs ?r = ?r" using assms by (intro check_irqs_none) simp_all
  ultimately show ?thesis using exec_loop_outcome [of ?r] assms(3)
    by (cases "exec_loop ?r") (auto simp: loop_outcome_def adsp2181_run_def execute_def)
qed

theorem run_executes_witness:
  "\<exists>s' k. steps 1 (one_word 0x028000\<lparr>icount := 1\<rparr>) = Some s' \<and> adsp2181_run (one_word 0x028000) 1 = Some (k, s')
     \<and> k \<in> {1, 2} \<and> cycles (ins s') = 1"
proof -
  let ?s = "one_word 0x028000"
  have r: "?s\<lparr>icount := 1\<rparr> = check_irqs (?s\<lparr>icount := 1\<rparr>)" by (simp add: check_irqs_none)
  have "RWORD_PGM (?s\<lparr>icount := 1\<rparr>) 0 = RWORD_PGM ?s 0"
    by (simp add: RWORD_PGM_def pm_cell_def pm_overlaid_def)
  then have "\<not> norm_hazard t (fst (fetch (?s\<lparr>icount := 1\<rparr>)))" for t
    by (simp add: fetch_word norm_hazard_def)
  then show ?thesis using run_executes [of 1 ?s, OF _ _ r] by (auto simp: le_Suc_eq)
qed

end
