(* ===== verification/Frames.thy ===== *)
theory Frames
  imports Runs
begin

text \<open>
  Serial-port frames.  The locale \<open>frame_invariant\<close> carries an instruction-set invariant over
  \<^verbatim>\<open>adsp2181_sport0_tdm_frame\<close>; with it the frame is shown to put back the two program words it
  patches, whatever the firmware does meanwhile.
\<close>

locale frame_invariant = step_invariant +
  assumes P_icount: "P s \<Longrightarrow> P (s\<lparr>icount := j\<rparr>)"
    and P_irq_state: "P s \<Longrightarrow> P (s\<lparr>irq_state := f\<rparr>)"
begin

lemmas frame_prims = prims P_icount P_irq_state check_irqs_keeps

lemma service_keeps: "\<lbrakk>P s; sport0_service c s = Some s'\<rbrakk> \<Longrightarrow> P s'"
  by (auto simp: sport0_service_def Let_def intro: execute_keeps [rotated] intro!: frame_prims)

lemma snapshots_keep: "P s \<Longrightarrow> P (snapshot_entry s)" "P s \<Longrightarrow> P (snapshot_return s)"
  unfolding snapshot_entry_def snapshot_return_def
  by (rule P_ins; simp add: quiet_def settings_def)+

lemma fill_tdm_keeps: "P s \<Longrightarrow> P (fill_tdm w s)"
proof -
  have "P s \<Longrightarrow> P (fold (\<lambda>a s. WWORD_DATA s (of_nat a) w) xs s)" for xs
    by (induction xs arbitrary: s) (simp_all add: frame_prims)
  then show "P s \<Longrightarrow> P (fill_tdm w s)" unfolding fill_tdm_def .
qed

lemma tdm_slots_keeps:
  "\<lbrakk>tdm_slots sl a d td ti aw iw c (tx, s) = Some (tx', s'); P s\<rbrakk> \<Longrightarrow> P s'"
proof (induction sl arbitrary: tx s)
  case (Cons slot rest)
  then show ?case
    by (auto simp: Let_def split: option.splits if_splits
        dest!: service_keeps [rotated] intro!: snapshots_keep frame_prims)
qed simp

text \<open>The frame before its last two stores keeps the invariant.\<close>

lemma tdm_frame_parts:
  assumes P: "P s" and f: "adsp2181_sport0_tdm_frame full s a d w v c = Some (tx, s')"
    and "0 \<le> a" "a < 32" "0 \<le> d" "d < 32" "0 < c"
  shows "\<exists>t. P t \<and> s' = WWORD_PGM (WWORD_PGM t 0x02b9 (RWORD_PGM s 0x02b9)) 0x00b5 (RWORD_PGM s 0x00b5)"
  using assms unfolding adsp2181_sport0_tdm_frame_def Let_def
  by (auto split: if_splits dest!: tdm_slots_keeps service_keeps [rotated]
      intro!: snapshots_keep fill_tdm_keeps frame_prims)

lemma tdm_frame_keeps: "\<lbrakk>P s; adsp2181_sport0_tdm_frame full s a d w v c = Some (tx, s')\<rbrakk> \<Longrightarrow> P s'"
  unfolding adsp2181_sport0_tdm_frame_def Let_def
  by (auto split: if_splits dest!: tdm_slots_keeps service_keeps [rotated]
      intro!: snapshots_keep fill_tdm_keeps frame_prims)

end

section \<open>The patched words\<close>

text \<open>Which program words are pinned or forced, and to what: only the host changes it.\<close>

definition holds_are :: "(u32 \<Rightarrow> u32 option) \<Rightarrow> adsp2181 \<Rightarrow> bool" where
  "holds_are h s \<longleftrightarrow> pm_held s = h"

lemma held_cong:
  "\<lbrakk>pin_pm (ins t) = pin_pm (ins s); pin_pm_value (ins t) = pin_pm_value (ins s);
    force_pm_fetch (ins t) = force_pm_fetch (ins s); force_pm_fetch_value (ins t) = force_pm_fetch_value (ins s)\<rbrakk>
     \<Longrightarrow> pm_held t = pm_held s"
  by (rule ext) (simp add: pm_held_def)

lemma holds_cong: "\<lbrakk>holds_are h s; settings (ins t) = settings (ins s)\<rbrakk> \<Longrightarrow> holds_are h t"
  using held_cong [of t s] by (simp add: holds_are_def settings_def)

lemma holds_count: "holds_are h s \<Longrightarrow> holds_are h (upd_ins (\<lambda>n. n\<lparr>cycles := k n\<rparr>) (s\<lparr>icount := j\<rparr>))"
  using held_cong [of "upd_ins (\<lambda>n. n\<lparr>cycles := k n\<rparr>) (s\<lparr>icount := j\<rparr>)" s] by (simp add: holds_are_def)

interpretation holds: frame_invariant "holds_are h" for h
  by unfold_locales
    (simp_all add: holds_count,
     (erule holds_cong; simp add: set_astat_def wr_i_def wr_m_def wr_l_def update_i_def update_l_def
        modify_address_def stat_restore_def case_prod_beta WWORD_IO_def Let_def)+)


lemma RWORD_PGM_24: "RWORD_PGM s x AND 0xffffff = RWORD_PGM s x"
  by (simp add: RWORD_PGM_def Let_def pm_cell_def and.assoc)

text \<open>
  C28. A TDM frame puts back the program it patches.  Around the services of a frame the words at PM
  0x2b9 and 0xb5 are replaced; when the frame returns they read as before, whatever the firmware
  executed in between, provided the host has not pinned or forced them.
\<close>

theorem tdm_frame_restores_program:
  assumes f: "adsp2181_sport0_tdm_frame full s a d w v c = Some (tx, s')"
    and "pm_held s 0x02b9 = None" "pm_held s 0x00b5 = None"
  shows "RWORD_PGM s' 0x02b9 = RWORD_PGM s 0x02b9 \<and> RWORD_PGM s' 0x00b5 = RWORD_PGM s 0x00b5"
proof (cases "0 \<le> a \<and> a < 32 \<and> 0 \<le> d \<and> d < 32 \<and> 0 < c")
  case True
  have "holds_are (pm_held s) s" by (simp add: holds_are_def)
  then obtain t where t: "holds_are (pm_held s) t"
    "s' = WWORD_PGM (WWORD_PGM t 0x02b9 (RWORD_PGM s 0x02b9)) 0x00b5 (RWORD_PGM s 0x00b5)"
    using holds.tdm_frame_parts [OF _ f] True by blast
  have "RWORD_PGM s' 0x02b9 = RWORD_PGM (WWORD_PGM t 0x02b9 (RWORD_PGM s 0x02b9)) 0x02b9"
    unfolding t(2) by (rule pm.rd_wr_other) simp
  also have "\<dots> = RWORD_PGM s 0x02b9"
    using t(1) assms(2) by (subst pm.rd_wr_same) (simp_all add: holds_are_def RWORD_PGM_24)
  finally show ?thesis
    using t assms(3) pm.rd_wr_same [of "0x00b5" "0x00b5" "WWORD_PGM t 0x02b9 (RWORD_PGM s 0x02b9)"]
    by (simp add: holds_are_def pm.held_wr RWORD_PGM_24)
next
  case False
  then show ?thesis using f by (auto simp: adsp2181_sport0_tdm_frame_def split: if_splits)
qed

lemma check_irqs_masked: "imask s = 0 \<Longrightarrow> check_irqs s = s"
proof -
  assume m: "imask s = 0"
  have "try_irqs s xs = s" for xs
    by (induction xs) (auto simp: generate_irq_def m)
  then show ?thesis by (simp add: check_irqs_def)
qed

lemma service_one_defined:
  assumes "imask s = 0" "\<And>t. \<not> norm_hazard t (RWORD_PGM s (pc s))"
  shows "\<exists>s'. sport0_service 1 s = Some s'"
proof -
  define r where "r = s\<lparr>irq_latch := (irq_latch s)(ADSP2181_SPORT0_RX := True),
      irq_state := (irq_state s)(ADSP2181_SPORT0_RX := False), icount := 1\<rparr>"
  have "sport0_service 1 s = exec_loop r"
    using assms(1) by (simp add: sport0_service_def Let_def check_irqs_masked execute_def r_def)
  moreover have "RWORD_PGM r (pc s) = RWORD_PGM s (pc s)" "pc r = pc s"
    by (simp_all add: r_def RWORD_PGM_def Let_def pm_cell_def pm_overlaid_def)
  then have "exec_step r \<noteq> None" using assms(2) by (simp add: exec_step_None fetch_word)
  ultimately show ?thesis using exec_loop_outcome [of r]
    by (cases "exec_loop r") (auto simp: loop_outcome_def r_def)
qed

lemma fill_tdm_frame:
  "RWORD_PGM (fill_tdm w s) x = RWORD_PGM s x" "imask (fill_tdm w s) = imask s" "pc (fill_tdm w s) = pc s"
proof -
  have "RWORD_PGM (fold (\<lambda>a s. WWORD_DATA s (of_nat a) w) xs s) x = RWORD_PGM s x
    \<and> imask (fold (\<lambda>a s. WWORD_DATA s (of_nat a) w) xs s) = imask s
    \<and> pc (fold (\<lambda>a s. WWORD_DATA s (of_nat a) w) xs s) = pc s" for xs
    by (induction xs arbitrary: s) (simp_all add: memories_disjoint)
  then show "RWORD_PGM (fill_tdm w s) x = RWORD_PGM s x" "imask (fill_tdm w s) = imask s"
    "pc (fill_tdm w s) = pc s" unfolding fill_tdm_def by blast+
qed

theorem tdm_frame_restores_program_witness:
  "\<exists>tx s'. adsp2181_sport0_tdm_frame False adsp2181_create 3 5 7 9 1 = Some (tx, s')
     \<and> RWORD_PGM s' 0x02b9 = 0 \<and> RWORD_PGM s' 0x00b5 = 0"
proof -
  have z: "RWORD_PGM adsp2181_create x = 0" "pm_held adsp2181_create = (\<lambda>_. None)" for x
    using create_fields(14)
    by (simp_all add: RWORD_PGM_def Let_def pm_cell_def pm_overlaid_def pm_held_def settings_def fun_eq_iff)
  define t where "t = WWORD_PGM (WWORD_PGM adsp2181_create 0x02b9 0) 0x00b5 0"
  define u where "u = t\<lparr>sport_rx := (sport_rx adsp2181_create)(0 := 7),
      sport_tx_written := (sport_tx_written adsp2181_create)(0 := 0)\<rparr>"
  have "RWORD_PGM t 0 = 0" unfolding t_def by (subst pm.rd_wr_other, simp)+ (rule z)
  moreover have "RWORD_PGM u 0 = RWORD_PGM t 0"
    by (simp add: u_def RWORD_PGM_def Let_def pm_cell_def pm_overlaid_def)
  moreover have "RWORD_PGM (snapshot_entry (fill_tdm 7 u)) 0 = RWORD_PGM (fill_tdm 7 u) 0"
    by (simp add: snapshot_entry_def RWORD_PGM_def Let_def pm_cell_def pm_overlaid_def)
  ultimately have "RWORD_PGM (snapshot_entry (fill_tdm 7 u)) 0 = 0" by (simp add: fill_tdm_frame)
  then obtain v where "sport0_service 1 (snapshot_entry (fill_tdm 7 u)) = Some v"
    using service_one_defined [of "snapshot_entry (fill_tdm 7 u)"]
    by (auto simp: snapshot_entry_def fill_tdm_frame u_def t_def norm_hazard_def)
  then obtain tx s' where f: "adsp2181_sport0_tdm_frame False adsp2181_create 3 5 7 9 1 = Some (tx, s')"
    by (auto simp: adsp2181_sport0_tdm_frame_def Let_def z t_def [symmetric] u_def [symmetric])
  show ?thesis using tdm_frame_restores_program [OF f] z f by simp
qed

end
