(* ===== verification/Reach.thy ===== *)
theory Reach
  imports Frames
begin

text \<open>
  Everything a host can do to a core: one constructor per function of
  \<^verbatim>\<open>adsp2181_core.h\<close> that changes state (and one for stores through the raw memory pointers it
  hands out), \<open>perform\<close> as their common interface, and the states such calls lead to.  The locales
  \<open>host_invariant\<close> and \<open>injected_invariant\<close> carry an instruction-set invariant over all of it.
\<close>

section \<open>The host's repertoire\<close>

text \<open>The instrumentation switches.\<close>

datatype switch_call =
    Watch_dm_limited u16 u32
  | Watch_dm_writes u16 u32
  | Watch_dm u16 bool
  | Watch_pm u16 bool
  | Watch_gate bool
  | Pcsp_window
  | Pin_pm u16 u32 bool
  | Force_pm_fetch u16 u32 bool
  | Pin_dm u16 u16 bool
  | Stop_on_dm_write u16 bool
  | Stop_on_dm_write_n u16 int bool
  | Yield_on_stop bool
  | Continue_non_idle bool
  | Latch_dm_write u16 bool
  | Stop_dm_hit
  | Watch_exec u16 bool
  | Watch_exec_limited u16 u32
  | Watch_irqs bool
  | Coverage_clear
  | Coverage_gate bool
  | Dm_census bool
  | Dm_census_clear
  | Trace_budget int

primrec flip :: "switch_call \<Rightarrow> adsp2181 \<Rightarrow> adsp2181" where
  "flip (Watch_dm_limited a n) s = adsp2181_watch_dm_limited s a n"
| "flip (Watch_dm_writes a n) s = adsp2181_watch_dm_writes s a n"
| "flip (Watch_dm a on) s = adsp2181_watch_dm s a on"
| "flip (Watch_pm a on) s = adsp2181_watch_pm s a on"
| "flip (Watch_gate on) s = adsp2181_watch_gate s on"
| "flip Pcsp_window s = snd (adsp2181_pcsp_window s)"
| "flip (Pin_pm a v on) s = adsp2181_pin_pm s a v on"
| "flip (Force_pm_fetch a v on) s = adsp2181_force_pm_fetch s a v on"
| "flip (Pin_dm a v on) s = adsp2181_pin_dm s a v on"
| "flip (Stop_on_dm_write a on) s = adsp2181_stop_on_dm_write s a on"
| "flip (Stop_on_dm_write_n a g on) s = adsp2181_stop_on_dm_write_n s a g on"
| "flip (Yield_on_stop on) s = adsp2181_yield_on_stop s on"
| "flip (Continue_non_idle on) s = adsp2181_continue_non_idle s on"
| "flip (Latch_dm_write a on) s = adsp2181_latch_dm_write s a on"
| "flip Stop_dm_hit s = snd (adsp2181_stop_dm_hit s)"
| "flip (Watch_exec a on) s = adsp2181_watch_exec s a on"
| "flip (Watch_exec_limited a n) s = adsp2181_watch_exec_limited s a n"
| "flip (Watch_irqs on) s = adsp2181_watch_irqs s on"
| "flip Coverage_clear s = adsp2181_coverage_clear s"
| "flip (Coverage_gate on) s = adsp2181_coverage_gate s on"
| "flip (Dm_census on) s = adsp2181_dm_census s on"
| "flip Dm_census_clear s = adsp2181_dm_census_clear s"
| "flip (Trace_budget n) s = adsp2181_trace_budget s n"

text \<open>Control, ports, interrupts and frames.\<close>

datatype port_call =
    Reset
  | Set_callbacks "(nat \<Rightarrow> event list \<Rightarrow> u32) option" bool bool
  | Run int
  | Set_idma_boot_hold bool
  | Idma_addr_write u16
  | Idma_data_write u16
  | Idma_data_read
  | Host_write u16 u16
  | Host_read u16
  | Poke "u32 \<Rightarrow> u32" "u32 \<Rightarrow> u16" "nat \<Rightarrow> u32 \<Rightarrow> u32" "nat \<Rightarrow> u32 \<Rightarrow> u16" "u32 \<Rightarrow> u16"
  | Set_pc u16
  | Set_imask u16
  | Set_flagin bool
  | Set_ar u16
  | Set_sr1 u16
  | Set_irq int bool
  | Sport1_frame u16 int
  | Sport0_tdm_frame bool int int u16 u16 int
  | G711_encode_block "u16 list" u16 u16 int

primrec drive :: "port_call \<Rightarrow> adsp2181 \<Rightarrow> adsp2181 option" where
  "drive Reset s = Some (adsp2181_reset s)"
| "drive (Set_callbacks r t f) s = Some (adsp2181_set_callbacks s r t f)"
| "drive (Run c) s = map_option snd (adsp2181_run s c)"
| "drive (Set_idma_boot_hold on) s = Some (adsp2181_set_idma_boot_hold s on)"
| "drive (Idma_addr_write a) s = Some (adsp2181_idma_addr_write s a)"
| "drive (Idma_data_write v) s = Some (adsp2181_idma_data_write s v)"
| "drive Idma_data_read s = Some (snd (adsp2181_idma_data_read s))"
| "drive (Host_write a v) s = Some (adsp2181_host_write s a v)"
| "drive (Host_read a) s = Some (snd (adsp2181_host_read s a))"
| "drive (Poke p d po ov i) s =
     Some (s\<lparr>program := p, data := d, program_overlay := po, data_overlay := ov, io := i\<rparr>)"
| "drive (Set_pc a) s = Some (adsp2181_set_pc s a)"
| "drive (Set_imask m) s = Some (adsp2181_set_imask s m)"
| "drive (Set_flagin b) s = Some (adsp2181_set_flagin s b)"
| "drive (Set_ar v) s = Some (adsp2181_set_ar s v)"
| "drive (Set_sr1 v) s = Some (adsp2181_set_sr1 s v)"
| "drive (Set_irq k b) s = Some (adsp2181_set_irq s k b)"
| "drive (Sport1_frame w c) s = map_option snd (adsp2181_sport1_frame s w c)"
| "drive (Sport0_tdm_frame f a d w v c) s = map_option snd (adsp2181_sport0_tdm_frame f s a d w v c)"
| "drive (G711_encode_block xs e r c) s = map_option (snd \<circ> snd) (adsp2181_g711_encode_block s xs e r c)"

text \<open>The calls that unwind an earlier injected call or restore saved registers.\<close>

datatype inject_call =
    Call u16 u16
  | Modem_sample bool u16 u16 int u16 u16

primrec inject :: "inject_call \<Rightarrow> adsp2181 \<Rightarrow> adsp2181 option" where
  "inject (Call e r) s = Some (adsp2181_call s e r)"
| "inject (Modem_sample f w v c k r) s = map_option snd (adsp2181_modem_sample f s w v c k r)"

datatype host_call = Switch switch_call | Port port_call | Inject inject_call

primrec perform :: "host_call \<Rightarrow> adsp2181 \<Rightarrow> adsp2181 option" where
  "perform (Switch c) s = Some (flip c s)"
| "perform (Port c) s = drive c s"
| "perform (Inject c) s = inject c s"

primrec injects :: "host_call \<Rightarrow> bool" where
  "injects (Switch _) = False"
| "injects (Port _) = False"
| "injects (Inject _) = True"

text \<open>
  \<open>reachable allow s\<close>: some sequence of calls leads from creation to \<open>s\<close>, with injecting ones only if
  \<open>allow\<close>.
\<close>

inductive reachable :: "bool \<Rightarrow> adsp2181 \<Rightarrow> bool" where
  created: "reachable allow adsp2181_create"
| called: "\<lbrakk>reachable allow s; injects c \<longrightarrow> allow; perform c s = Some s'\<rbrakk> \<Longrightarrow> reachable allow s'"

section \<open>Invariants of every host call\<close>

locale host_invariant = frame_invariant +
  assumes P_any_ins: "P s \<Longrightarrow> P (upd_ins g s)"
    and P_flagin: "P s \<Longrightarrow> P (s\<lparr>flagin := b\<rparr>)"
    and P_idma_addr: "P s \<Longrightarrow> P (s\<lparr>idma_addr := k\<rparr>)"
    and P_idma_cache: "P s \<Longrightarrow> P (s\<lparr>idma_cache := k\<rparr>)"
    and P_idma_offs: "P s \<Longrightarrow> P (s\<lparr>idma_offs := b\<rparr>)"
    and P_idma_pending: "P s \<Longrightarrow> P (s\<lparr>idma_pending_write := b\<rparr>)"
    and P_boot_hold: "P s \<Longrightarrow> P (s\<lparr>idma_boot_hold := b\<rparr>)"
    and P_boot_mode: "P s \<Longrightarrow> P (s\<lparr>idma_boot_mode := b\<rparr>)"
    and P_callbacks: "P s \<Longrightarrow> P (s\<lparr>sport_rx_callback := rc, sport_tx_callback := b, timer_fired := b'\<rparr>)"
    and P_poke: "P s \<Longrightarrow> P (s\<lparr>program := pm, data := dm, program_overlay := po, data_overlay := dv, io := q\<rparr>)"
    and P_reset: "P s \<Longrightarrow> P (adsp2181_reset s)"
    and P_create: "P adsp2181_create"
begin

lemmas host_prims = frame_prims P_any_ins P_flagin P_idma_addr P_idma_cache
  P_idma_offs P_idma_pending P_boot_hold P_boot_mode P_callbacks P_poke P_reset

lemma idma_keeps:
  "P s \<Longrightarrow> P (adsp2181_idma_addr_write s a)" "P s \<Longrightarrow> P (adsp2181_idma_data_write s v)"
  "P s \<Longrightarrow> P (snd (adsp2181_idma_data_read s))"
  by (simp_all add: adsp2181_idma_addr_write_def adsp2181_idma_data_write_def idma_release_def
      adsp2181_idma_data_read_def Let_def host_prims)

lemma host_port_keeps:
  "P s \<Longrightarrow> P (adsp2181_host_write s a v)" "P s \<Longrightarrow> P (snd (adsp2181_host_read s a))"
  by (simp_all add: adsp2181_host_write_def adsp2181_host_read_def host_prims)

lemma run_keeps: "\<lbrakk>P s; adsp2181_run s c = Some (k, s')\<rbrakk> \<Longrightarrow> P s'"
  by (auto simp: adsp2181_run_def split: if_splits intro: execute_keeps P_icount)

lemma set_irq_keeps: "P s \<Longrightarrow> P (adsp2181_set_irq s k b)"
  by (simp add: adsp2181_set_irq_def sport_receive_def Let_def host_prims split: option.split)

lemma sport1_frame_keeps: "\<lbrakk>P s; adsp2181_sport1_frame s w c = Some (v, s')\<rbrakk> \<Longrightarrow> P s'"
  by (auto simp: adsp2181_sport1_frame_def Let_def split: if_splits
      intro: run_keeps [rotated] intro!: set_irq_keeps host_prims)

lemma g711_keeps: "\<lbrakk>P s; g711_encode_samples s xs e r c = Some (cs, s')\<rbrakk> \<Longrightarrow> P s'"
proof (induction xs arbitrary: s cs)
  case (Cons x xs)
  from Cons.prems(2) obtain k s1 cs' where
    "g711_encode_one s x e r c = Some (k, s1)" "g711_encode_samples s1 xs e r c = Some (cs', s')"
    by (auto split: option.splits)
  moreover from this(1) have "P s1" using Cons.prems(1)
    by (auto simp: g711_encode_one_def Let_def intro: execute_keeps [rotated] intro!: host_prims P_core)
  ultimately show ?case by (intro Cons.IH)
qed simp

lemma set_imask_keeps: "P s \<Longrightarrow> P (adsp2181_set_imask s m)"
  unfolding adsp2181_set_imask_def by (rule P_imask) (simp_all add: word_and_less)

text \<open>The instrumentation switches touch the instrumentation only.\<close>

lemmas switch_defs = adsp2181_watch_dm_limited_def adsp2181_watch_dm_writes_def adsp2181_watch_dm_def
  adsp2181_watch_pm_def adsp2181_watch_gate_def adsp2181_pin_pm_def adsp2181_force_pm_fetch_def
  adsp2181_pin_dm_def adsp2181_stop_on_dm_write_def adsp2181_stop_on_dm_write_n_def
  adsp2181_yield_on_stop_def adsp2181_continue_non_idle_def adsp2181_latch_dm_write_def
  adsp2181_stop_dm_hit_def adsp2181_watch_exec_def adsp2181_watch_exec_limited_def
  adsp2181_watch_irqs_def adsp2181_coverage_clear_def adsp2181_coverage_gate_def
  adsp2181_dm_census_def adsp2181_dm_census_clear_def adsp2181_trace_budget_def

lemma pcsp_window_keeps: "P s \<Longrightarrow> P (snd (adsp2181_pcsp_window s))"
  by (simp add: adsp2181_pcsp_window_def Let_def quiet_note_pcsp P_any_ins)

lemma setters_keep:
  "P s \<Longrightarrow> P (adsp2181_set_callbacks s rc b b')" "P s \<Longrightarrow> P (adsp2181_set_idma_boot_hold s b)"
  "P s \<Longrightarrow> P (adsp2181_set_pc s a)" "P s \<Longrightarrow> P (adsp2181_set_flagin s b)"
  "P s \<Longrightarrow> P (adsp2181_set_ar s k)" "P s \<Longrightarrow> P (adsp2181_set_sr1 s k)"
  by (simp_all add: adsp2181_set_callbacks_def adsp2181_set_idma_boot_hold_def adsp2181_set_pc_def
      adsp2181_set_flagin_def adsp2181_set_ar_def adsp2181_set_sr1_def host_prims P_core)

lemma g711_block_keeps: "\<lbrakk>P s; adsp2181_g711_encode_block s xs e r c = Some (k, cs, s')\<rbrakk> \<Longrightarrow> P s'"
  by (auto simp: adsp2181_g711_encode_block_def split: if_splits intro: g711_keeps)

lemma flip_keeps: "P s \<Longrightarrow> P (flip c s)"
  by (cases c) (simp_all add: switch_defs Let_def P_any_ins pcsp_window_keeps)

lemma drive_keeps: "\<lbrakk>P s; drive c s = Some s'\<rbrakk> \<Longrightarrow> P s'"
  by (cases c)
    (auto intro: run_keeps sport1_frame_keeps tdm_frame_keeps g711_block_keeps
      simp: P_reset P_poke idma_keeps host_port_keeps set_irq_keeps set_imask_keeps setters_keep)

lemma plain_call_keeps: "\<lbrakk>P s; \<not> injects c; perform c s = Some s'\<rbrakk> \<Longrightarrow> P s'"
  by (cases c) (auto intro: flip_keeps drive_keeps)

lemma plain_reachable: "reachable allow s \<Longrightarrow> \<not> allow \<Longrightarrow> P s"
  by (induction rule: reachable.induct) (auto intro: P_create plain_call_keeps)

end

locale injected_invariant = host_invariant +
  assumes P_mark: "P s \<Longrightarrow> P (s\<lparr>inject_pc_sp := i1, inject_cntr_sp := i2, inject_stat_sp := i3,
        inject_loop_sp := i4, inject_return := k, inject_valid := b\<rparr>)"
    and P_unwind: "P s \<Longrightarrow> P (discard_stale_synthetic_returns s k)"
    and P_restore: "\<lbrakk>P a; P s\<rbrakk> \<Longrightarrow> P (restore_volatile a s)"
begin

lemma call_keeps: "P s \<Longrightarrow> P (adsp2181_call s e r)"
  by (simp add: adsp2181_call_def Let_def host_prims P_mark P_unwind)

lemma modem_sample_keeps: "\<lbrakk>P s; adsp2181_modem_sample f s w v c k r = Some (tx, s')\<rbrakk> \<Longrightarrow> P s'"
proof -
  assume P: "P s" and m: "adsp2181_modem_sample f s w v c k r = Some (tx, s')"
  then obtain tx1 s1 where s1: "adsp2181_sport0_tdm_frame f s 0 0 w v c = Some (tx1, s1)"
    by (auto simp: adsp2181_modem_sample_def split: option.splits)
  have P1: "P s1" by (rule tdm_frame_keeps [OF P s1])
  have x: "P t'" if "execute t = Some t'" "P t" for t t' using that by (rule execute_keeps [rotated])
  show "P s'" using m P1 unfolding adsp2181_modem_sample_def s1 option.case prod.case Let_def
    by (auto split: if_splits intro!: host_prims P_restore P_unwind dest!: x)
qed

lemma inject_keeps: "\<lbrakk>P s; inject c s = Some s'\<rbrakk> \<Longrightarrow> P s'"
  by (cases c) (auto intro: call_keeps modem_sample_keeps)

lemma any_reachable: "reachable allow s \<Longrightarrow> P s"
proof (induction rule: reachable.induct)
  case (called allow s c s')
  then show ?case
    by (cases c) (auto intro: flip_keeps drive_keeps inject_keeps)
qed (rule P_create)

end

section \<open>The two machine invariants, for every host\<close>

lemma ok_reset: "machine_ok s \<Longrightarrow> machine_ok (adsp2181_reset s)"
proof -
  assume ok: "machine_ok s"
  define s0 where "s0 = s\<lparr>core := (core s)\<lparr>czero := 0\<rparr>, alt := (alt s)\<lparr>czero := 0\<rparr>\<rparr>"
  have "machine_ok s0" using ok by (simp add: s0_def machine_ok_defs wf_core_def)
  then have "machine_ok (fold (\<lambda>k s. let s1 = wr_l k s (dag_l s k) in wr_i k s1 (dag_i s1 k)) ks s0)" for ks
    by (induction ks arbitrary: s0) (simp_all add: Let_def ok_dag)
  then have "machine_ok (reset_dag s0)" unfolding reset_dag_def .
  then show ?thesis
    unfolding adsp2181_reset_def s0_def [symmetric] Let_def
    by (simp add: update_mstat_def Let_def machine_ok_defs)
qed

lemma linked_reset: "linked (adsp2181_reset s)"
  by (simp add: adsp2181_reset_def update_mstat_def Let_def linked_defs)

lemma ok_create: "machine_ok adsp2181_create"
  unfolding adsp2181_create_def
  by (rule ok_reset)
    (simp add: machine_ok_defs wf_core_def zero_defs sign_extend_mr40_def sign_extend_14_def)

lemma ok_unwind: "machine_ok s \<Longrightarrow> machine_ok (discard_stale_synthetic_returns s k)"
  by (auto simp: discard_stale_synthetic_returns_def Let_def machine_ok_defs astat_bounds)

interpretation ok_host: injected_invariant machine_ok
  by unfold_locales
    (simp_all add: ok_reset ok_create ok_unwind, simp_all add: machine_ok_defs restore_volatile_def)

interpretation linked_host: host_invariant linked
  by unfold_locales
    (simp_all add: linked_reset adsp2181_create_def, simp_all add: linked_defs)



text \<open>
  C15. The derived registers.  On a core into which the host injects no calls, the EMPTY bits of SSTAT
  say exactly which stacks are empty, the cached loop end and condition are those of the top of the
  loop stack (or the reset values), and the mask of flags an ALU instruction clears follows the
  sticky-overflow mode.
\<close>

theorem reachable_linked: "reachable False s \<Longrightarrow> linked s"
  using linked_host.plain_reachable by blast

theorem reachable_linked_witness: "linked (adsp2181_set_irq adsp2181_create 3 True)"
  by (rule reachable_linked)
    (rule reachable.called [where c = "Port (Set_irq 3 True)", OF reachable.created], simp_all)

text \<open>A machine with one loop running inside an injected call that idled without returning.\<close>

definition abandoned_call :: adsp2181 where
  "abandoned_call = adsp2181_zero\<lparr>idle := True, inject_valid := True, pc_sp := 1, loop_sp := 1,
     pc_stack := (\<lambda>_. 0)(0 := 0x200), loop_stack := (\<lambda>_. 0x1234), loop_end := 0x123,
     loop_condition := 4, sstat := 0x14, astat_clear := NOT 15\<rparr>"

text \<open>
  The restriction to hosts that inject no calls is needed.  There is a well-linked machine on which
  discarding the stack entries of an abandoned injected call empties the loop stack but leaves its
  loop end armed and LOOP EMPTY clear.
\<close>

theorem discard_breaks_links:
  "\<exists>s. linked s \<and> (let s' = discard_stale_synthetic_returns s 0x200
     in loop_sp s' = 0 \<and> loop_end s' = 0x123 \<and> \<not> bit (sstat s') 6 \<and> \<not> linked s')"
proof (intro exI conjI)
  show "linked abandoned_call"
    by (simp add: abandoned_call_def linked_defs zero_defs)
  show "let s' = discard_stale_synthetic_returns abandoned_call 0x200
     in loop_sp s' = 0 \<and> loop_end s' = 0x123 \<and> \<not> bit (sstat s') 6 \<and> \<not> linked s'"
    by (simp add: abandoned_call_def discard_stale_synthetic_returns_def linked_defs zero_defs Let_def)
qed

end
