(* ===== verification/Ports.thy ===== *)
theory Ports
  imports Runs
begin

text \<open>
  The host's ways into memory: downloads and read-back through the IDMA port, the IDMA boot sequence,
  the whole-word host port, and pinned words.  The memory laws are those of the interpretations \<open>dm\<close>
  and \<open>pm\<close> of \<open>held_store\<close>.
\<close>

section \<open>Downloads of program words\<close>

definition pm_halves :: "u32 \<Rightarrow> u16 list" where
  "pm_halves w = [ucast (drop_bit 8 w), ucast (w AND 0xff)]"

definition idma_write_all :: "u16 list \<Rightarrow> adsp2181 \<Rightarrow> adsp2181" where
  "idma_write_all vs s = fold (\<lambda>v s. adsp2181_idma_data_write s v) vs s"

definition idma_download :: "adsp2181 \<Rightarrow> u16 \<Rightarrow> u32 list \<Rightarrow> adsp2181" where
  "idma_download s a ws = idma_write_all (concat (map pm_halves ws)) (adsp2181_idma_addr_write s a)"

primrec idma_upload :: "nat \<Rightarrow> adsp2181 \<Rightarrow> u16 list" where
  "idma_upload 0 s = []"
| "idma_upload (Suc n) s = (let (v, s') = adsp2181_idma_data_read s in v # idma_upload n s')"

text \<open>The memory laws see only memory, overlays and holds.\<close>

lemma RWORD_PGM_idma [simp]:
  "RWORD_PGM (s\<lparr>idma_addr := a\<rparr>) x = RWORD_PGM s x" "RWORD_PGM (s\<lparr>idma_offs := b\<rparr>) x = RWORD_PGM s x"
  "RWORD_PGM (s\<lparr>idma_pending_write := b\<rparr>) x = RWORD_PGM s x"
  "RWORD_PGM (s\<lparr>idma_cache := a\<rparr>) x = RWORD_PGM s x"
  "RWORD_PGM (s\<lparr>idma_boot_hold := b\<rparr>) x = RWORD_PGM s x"
  "RWORD_PGM (s\<lparr>pc := p\<rparr>) x = RWORD_PGM s x" "RWORD_PGM (s\<lparr>ppc := p\<rparr>) x = RWORD_PGM s x"
  by (simp_all add: RWORD_PGM_def Let_def pm_cell_def pm_overlaid_def)

lemma RWORD_PGM_release [simp]: "RWORD_PGM (idma_release a s) x = RWORD_PGM s x"
  by (simp add: idma_release_def)

lemma idma_release_frame [simp]:
  "idma_addr (idma_release a s) = idma_addr s" "idma_offs (idma_release a s) = idma_offs s"
  "ins (idma_release a s) = ins s" "idma_boot_mode (idma_release a s) = idma_boot_mode s"
  "idma_pending_write (idma_release a s) = idma_pending_write s"
  by (simp_all add: idma_release_def)

lemma pm_held_ins: "ins s = ins t \<Longrightarrow> pm_held s = pm_held t"
  by (simp add: pm_held_def fun_eq_iff)

lemma and_3fff_u16: "ucast (a AND 0x3fff) AND 0x3fff = (ucast (a AND 0x3fff) :: u32)" for a :: u16
proof -
  have "ucast (a AND mask 14) AND mask 14 = (ucast (a AND mask 14) :: u32)"
    by (rule bit_word_eqI) (auto simp: bit_simps)
  then show ?thesis by (simp add: mask_numeral)
qed

lemma pm_word_join:
  "push_bit 8 (ucast (ucast (drop_bit 8 w) :: u16)) OR ucast (ucast (w AND 0xff) AND 0xff :: u16) =
     (w AND 0xffffff :: u32)"
proof -
  have "push_bit 8 (ucast (ucast (drop_bit 8 w) :: u16)) OR ucast (ucast (w AND mask 8) AND mask 8 :: u16) =
     (w AND mask 24 :: u32)"
    by (rule bit_word_eqI) (rename_tac n, case_tac "n < 8", auto simp: bit_simps)
  then show ?thesis by (simp add: mask_numeral)
qed

text \<open>Two data writes store one program word.\<close>

definition store_word :: "adsp2181 \<Rightarrow> u32 \<Rightarrow> adsp2181" where
  "store_word s w = idma_write_all (pm_halves w) s"

lemma store_word_eq:
  assumes "idma_addr s AND 0x4000 = 0" "\<not> idma_offs s"
  shows "\<exists>t. store_word s w = idma_release (idma_addr s AND 0x3fff)
      (t\<lparr>idma_addr := idma_addr s + 1, idma_offs := False, idma_pending_write := False\<rparr>)
    \<and> t = WWORD_PGM (s\<lparr>idma_cache := ucast (drop_bit 8 w), idma_offs := True, idma_pending_write := True\<rparr>)
        (ucast (idma_addr s AND 0x3fff)) (w AND 0xffffff)"
  using assms pm_word_join [of w]
  by (simp add: store_word_def pm_halves_def idma_write_all_def adsp2181_idma_data_write_def Let_def)

lemma pm_held_cong [simp]:
  "pm_held (s\<lparr>idma_cache := a\<rparr>) = pm_held s" "pm_held (s\<lparr>idma_offs := b\<rparr>) = pm_held s"
  "pm_held (s\<lparr>idma_pending_write := b\<rparr>) = pm_held s" "pm_held (s\<lparr>idma_addr := a\<rparr>) = pm_held s"
  "pm_held (s\<lparr>idma_boot_hold := b\<rparr>) = pm_held s" "pm_held (s\<lparr>idma_boot_mode := b\<rparr>) = pm_held s"
  by (rule pm_held_ins, simp)+

lemma WWORD_PGM_held: "pm_held (WWORD_PGM s x v) = pm_held s"
  by (simp add: fun_eq_iff pm.held_wr)

lemma store_word_fields:
  assumes "idma_addr s AND 0x4000 = 0" "\<not> idma_offs s"
  shows "idma_addr (store_word s w) = idma_addr s + 1" "\<not> idma_offs (store_word s w)"
    "pm_held (store_word s w) = pm_held s" "idma_boot_mode (store_word s w) = idma_boot_mode s"
    "RWORD_PGM (store_word s w) x =
       (if x AND 0x3fff = ucast (idma_addr s AND 0x3fff)
        then case pm_held s x of None \<Rightarrow> w AND 0xffffff | Some p \<Rightarrow> p else RWORD_PGM s x)"
proof -
  obtain t where t: "store_word s w = idma_release (idma_addr s AND 0x3fff)
      (t\<lparr>idma_addr := idma_addr s + 1, idma_offs := False, idma_pending_write := False\<rparr>)"
    "t = WWORD_PGM (s\<lparr>idma_cache := ucast (drop_bit 8 w), idma_offs := True, idma_pending_write := True\<rparr>)
        (ucast (idma_addr s AND 0x3fff)) (w AND 0xffffff)"
    using store_word_eq [OF assms] by blast
  show "idma_addr (store_word s w) = idma_addr s + 1" "\<not> idma_offs (store_word s w)"
    "idma_boot_mode (store_word s w) = idma_boot_mode s"
    by (simp_all add: t)
  have "pm_held (store_word s w) = pm_held t" unfolding t(1) by (rule pm_held_ins) simp
  also have "\<dots> = pm_held s" unfolding t(2) by (simp add: WWORD_PGM_held)
  finally show "pm_held (store_word s w) = pm_held s" .
  have c: "ucast (idma_addr s AND 0x3fff) AND (0x3fff :: u32) = ucast (idma_addr s AND 0x3fff)"
    using and_3fff_u16 by simp
  show "RWORD_PGM (store_word s w) x =
       (if x AND 0x3fff = ucast (idma_addr s AND 0x3fff)
        then case pm_held s x of None \<Rightarrow> w AND 0xffffff | Some p \<Rightarrow> p else RWORD_PGM s x)"
  proof (cases "x AND 0x3fff = ucast (idma_addr s AND 0x3fff)")
    case True
    then show ?thesis
      using pm.rd_wr_same [of "ucast (idma_addr s AND 0x3fff)" x] c
      by (simp only: t if_True) (simp add: and.assoc split: option.split)
  next
    case False
    then show ?thesis using pm.rd_wr_other [of "ucast (idma_addr s AND 0x3fff)" x] c by (simp add: t)
  qed
qed

lemma of_nat_mask14: "n < 0x4000 \<Longrightarrow> (of_nat n :: 'b::len word) = of_nat n AND mask 14"
  by (simp only: take_bit_eq_mask [symmetric] take_bit_of_nat)
    (simp add: take_bit_nat_eq_self)

lemma idma_address:
  assumes "n < 0x4000"
  shows "(of_nat n :: u16) AND 0x4000 = 0" "ucast ((of_nat n :: u16) AND 0x3fff) = (of_nat n :: u32)"
    "(of_nat n :: u32) AND 0x3fff = of_nat n"
proof -
  note t = of_nat_mask14 [OF assms]
  have "\<not> bit (of_nat n :: u16) 14" by (subst t) (simp add: bit_simps)
  then show "(of_nat n :: u16) AND 0x4000 = 0"
    using and_power_test [of 14 "of_nat n :: u16"] by simp
  show w: "(of_nat n :: u32) AND 0x3fff = of_nat n"
    using t [where 'b = 32] by (simp add: mask_numeral)
  have "(of_nat n :: u16) AND 0x3fff = of_nat n" using t [where 'b = 16] by (simp add: mask_numeral)
  moreover have "ucast (of_nat n :: u16) = (of_nat n :: u32)"
    using assms by (simp add: unsigned_of_nat take_bit_nat_eq_self)
  ultimately show "ucast ((of_nat n :: u16) AND 0x3fff) = (of_nat n :: u32)" by simp
qed


lemma of_nat_u32_eq: "\<lbrakk>m < 0x4000; n < 0x4000\<rbrakk> \<Longrightarrow> (of_nat m :: u32) = of_nat n \<longleftrightarrow> m = n"
  by (simp add: word_of_nat_eq_iff take_bit_nat_eq_self)

text \<open>A block of words lands at consecutive addresses and nothing below it changes.\<close>

lemma store_words:
  assumes "idma_addr s = of_nat b" "\<not> idma_offs s" "b + length ws \<le> 0x4000"
    and "\<forall>i. b \<le> i \<and> i < b + length ws \<longrightarrow> pm_held s (of_nat i) = None"
    and "t = idma_write_all (concat (map pm_halves ws)) s"
  shows "idma_addr t = of_nat (b + length ws) \<and> \<not> idma_offs t \<and> pm_held t = pm_held s
    \<and> idma_boot_mode t = idma_boot_mode s
    \<and> (\<forall>i<length ws. RWORD_PGM t (of_nat (b + i)) = ws ! i AND 0xffffff)
    \<and> (\<forall>j<b. RWORD_PGM t (of_nat j) = RWORD_PGM s (of_nat j))"
  using assms
proof (induction ws arbitrary: s b)
  case Nil
  then show ?case by (simp add: idma_write_all_def)
next
  case (Cons w ws)
  have b: "b < 0x4000" using Cons.prems(3) by simp
  define u where "u = store_word s w"
  have a: "idma_addr s AND 0x4000 = 0" using idma_address(1) [OF b] Cons.prems(1) by simp
  note f = store_word_fields [OF a Cons.prems(2), of w, folded u_def]
  have rd: "RWORD_PGM u (of_nat j) = (if j = b then w AND 0xffffff else RWORD_PGM s (of_nat j))"
    if "j \<le> b" for j
    using that b idma_address [of j] idma_address [OF b] Cons.prems(1) f(5) [of "of_nat j"]
      of_nat_u32_eq [of j b] Cons.prems(4) by auto
  have "t = idma_write_all (concat (map pm_halves ws)) u"
    using Cons.prems(5) by (simp add: u_def store_word_def idma_write_all_def)
  moreover have "idma_addr u = of_nat (Suc b)" using f(1) Cons.prems(1) by (simp add: add.commute)
  ultimately have IH: "idma_addr t = of_nat (Suc b + length ws) \<and> \<not> idma_offs t \<and> pm_held t = pm_held u
    \<and> idma_boot_mode t = idma_boot_mode u
    \<and> (\<forall>i<length ws. RWORD_PGM t (of_nat (Suc b + i)) = ws ! i AND 0xffffff)
    \<and> (\<forall>j<Suc b. RWORD_PGM t (of_nat j) = RWORD_PGM u (of_nat j))"
    using Cons.prems(3,4) f(2,3) by (intro Cons.IH) auto
  have "RWORD_PGM t (of_nat (b + i)) = (w # ws) ! i AND 0xffffff" if "i < length (w # ws)" for i
    using that IH rd [of b] by (cases i) auto
  then show ?case using IH rd f(3,4) by simp
qed

text \<open>Reading back gives the two halves of each word.\<close>

lemma upload_words:
  "\<lbrakk>idma_addr s = of_nat b; \<not> idma_offs s; b + n \<le> 0x4000\<rbrakk> \<Longrightarrow>
     idma_upload (2 * n) s = concat (map (\<lambda>i. pm_halves (RWORD_PGM s (of_nat (b + i)))) [0..<n])"
proof (induction n arbitrary: s b)
  case (Suc n)
  define u where "u = s\<lparr>idma_pending_write := False, idma_addr := idma_addr s + 1, idma_offs := False\<rparr>"
  have b: "b < 0x4000" using Suc.prems by simp
  have "idma_upload (2 * Suc n) s = pm_halves (RWORD_PGM s (of_nat b)) @ idma_upload (2 * n) u"
    using Suc.prems(2) idma_address [OF b]
    by (simp add: adsp2181_idma_data_read_def pm_halves_def u_def Suc.prems(1))
  also have "idma_upload (2 * n) u =
      concat (map (\<lambda>i. pm_halves (RWORD_PGM u (of_nat (Suc b + i)))) [0..<n])"
    using Suc.prems by (intro Suc.IH) (simp_all add: u_def add.commute)
  finally show ?case by (simp add: upt_conv_Cons map_Suc_upt [symmetric] u_def comp_def add_ac del: upt_Suc)
qed simp

lemma pm_halves_24: "pm_halves (w AND 0xffffff) = pm_halves w"
proof -
  have "(ucast (drop_bit 8 (w AND mask 24)) :: u16) = ucast (drop_bit 8 w)"
    "((w AND mask 24) AND mask 8) = w AND mask 8"
    by (rule bit_word_eqI, auto simp: bit_simps)+
  then show ?thesis by (simp add: pm_halves_def mask_numeral)
qed

lemma addr_write_eq:
  "\<not> idma_offs s \<Longrightarrow>
     adsp2181_idma_addr_write s a = s\<lparr>idma_addr := a, idma_offs := False, idma_pending_write := False\<rparr>"
  by (simp add: adsp2181_idma_addr_write_def)

text \<open>
  C16. An IDMA download is what is read back.  Words written to program memory through the IDMA port
  from an address on (two 16-bit accesses each, none of the target words pinned or forced, no half
  word dangling) appear at consecutive addresses, leave everything below alone, and reading the same
  range through the port returns exactly the halves that were written.
\<close>

theorem idma_pm_round_trip:
  assumes "\<not> idma_offs s" "a + length ws \<le> 0x4000"
    and "\<forall>i. a \<le> i \<and> i < a + length ws \<longrightarrow> pm_held s (of_nat i) = None"
    and "s1 = idma_download s (of_nat a) ws"
  shows "idma_upload (2 * length ws) (adsp2181_idma_addr_write s1 (of_nat a)) = concat (map pm_halves ws)
    \<and> (\<forall>i<length ws. RWORD_PGM s1 (of_nat (a + i)) = ws ! i AND 0xffffff)
    \<and> (\<forall>j<a. RWORD_PGM s1 (of_nat j) = RWORD_PGM s (of_nat j))"
proof -
  define r where "r = adsp2181_idma_addr_write s (of_nat a)"
  have r: "idma_addr r = of_nat a" "\<not> idma_offs r" "pm_held r = pm_held s" "RWORD_PGM r x = RWORD_PGM s x" for x
    using assms(1) by (simp_all add: r_def addr_write_eq)
  have w: "idma_addr s1 = of_nat (a + length ws) \<and> \<not> idma_offs s1 \<and> pm_held s1 = pm_held r
    \<and> idma_boot_mode s1 = idma_boot_mode r
    \<and> (\<forall>i<length ws. RWORD_PGM s1 (of_nat (a + i)) = ws ! i AND 0xffffff)
    \<and> (\<forall>j<a. RWORD_PGM s1 (of_nat j) = RWORD_PGM r (of_nat j))"
    using assms r by (intro store_words) (simp_all add: idma_download_def r_def)
  define q where "q = adsp2181_idma_addr_write s1 (of_nat a)"
  have "idma_upload (2 * length ws) q = concat (map (\<lambda>i. pm_halves (RWORD_PGM q (of_nat (a + i)))) [0..<length ws])"
    using w assms(2) by (intro upload_words) (simp_all add: q_def addr_write_eq)
  also have "map (\<lambda>i. pm_halves (RWORD_PGM q (of_nat (a + i)))) [0..<length ws] = map pm_halves ws"
    using w by (intro nth_equalityI) (simp_all add: q_def addr_write_eq pm_halves_24)
  finally show ?thesis using w r(4) by (simp add: q_def)
qed

lemma reset_dag_offs: "idma_offs (reset_dag s) = idma_offs s"
  using dag_fold_update [of "[0..<8]" s] unfolding reset_dag_def by auto

lemma create_port [simp]: "idma_offs adsp2181_create = False" "pm_held adsp2181_create x = None"
    "dm_held adsp2181_create x = None"
proof -
  show "idma_offs adsp2181_create = False"
    by (simp add: adsp2181_create_def adsp2181_reset_def update_mstat_def Let_def reset_dag_offs) (simp add: zero_defs)
  show "pm_held adsp2181_create x = None" "dm_held adsp2181_create x = None"
    using create_fields(14) by (simp_all add: pm_held_def dm_held_def settings_def)
qed

theorem idma_pm_round_trip_witness:
  "idma_upload 4 (adsp2181_idma_addr_write (idma_download adsp2181_create 0x10 [0x123456, 0xabcdef]) 0x10) =
     [0x1234, 0x56, 0xabcd, 0xef]"
  using idma_pm_round_trip [of adsp2181_create "0x10" "[0x123456, 0xabcdef]" "idma_download adsp2181_create 0x10 [0x123456, 0xabcdef]"]
  by (simp add: pm_halves_def)

section \<open>The boot sequence\<close>

lemma store_word_boot:
  assumes "idma_addr s AND 0x4000 = 0" "\<not> idma_offs s" "idma_boot_mode s"
  shows "idma_addr s AND 0x3fff \<noteq> 0 \<Longrightarrow> idma_boot_hold (store_word s w)"
    "\<lbrakk>idma_addr s AND 0x3fff = 0; idma_boot_hold s\<rbrakk> \<Longrightarrow>
       \<not> idma_boot_hold (store_word s w) \<and> pc (store_word s w) = 0"
  using store_word_eq [OF assms(1,2), of w] assms(3) by (auto simp: idma_release_def)

lemma idma_address_0: "\<lbrakk>0 < n; n < 0x4000\<rbrakk> \<Longrightarrow> (of_nat n :: u16) AND 0x3fff \<noteq> 0"
  using of_nat_mask14 [of n, where 'b = 16]
  by (simp add: mask_numeral word_of_nat_eq_0_iff dvd_imp_le) (auto dest: dvd_imp_le)

lemma store_words_boot:
  assumes "idma_addr s = of_nat b" "\<not> idma_offs s" "0 < b" "b + length ws \<le> 0x4000"
    and "idma_boot_mode s" "idma_boot_hold s"
  shows "idma_boot_hold (idma_write_all (concat (map pm_halves ws)) s)"
  using assms
proof (induction ws arbitrary: s b)
  case (Cons w ws)
  have b: "b < 0x4000" using Cons.prems by simp
  have a: "idma_addr s AND 0x4000 = 0" "idma_addr s AND 0x3fff \<noteq> 0"
    using idma_address(1) [OF b] idma_address_0 [of b] b Cons.prems by simp_all
  have "idma_write_all (concat (map pm_halves (w # ws))) s =
      idma_write_all (concat (map pm_halves ws)) (store_word s w)"
    by (simp add: store_word_def idma_write_all_def)
  moreover have "idma_boot_hold (idma_write_all (concat (map pm_halves ws)) (store_word s w))"
    using Cons.prems store_word_fields [OF a(1), of w] store_word_boot(1) [OF a(1), of w] a(2)
    by (intro Cons.IH [of _ "Suc b"]) (simp_all add: add.commute)
  ultimately show ?case by simp
qed (simp add: idma_write_all_def)

text \<open>
  C17. The IDMA boot sequence.  A core put in boot hold executes nothing while an image is downloaded
  to program memory above address 0, whatever the image is; the final word at address 0 releases it
  with the program counter at 0, still in boot mode.
\<close>

theorem idma_boot_sequence:
  assumes "\<not> idma_offs s" "idma_boot_hold s" "idma_boot_mode s" "0 < a" "a + length ws \<le> 0x4000"
    and "\<forall>i. pm_held s (of_nat i) = None"
    and "s1 = idma_download s (of_nat a) ws" "s2 = idma_download s1 0 [w]"
  shows "(\<forall>c. adsp2181_run s1 c = Some (0, s1)) \<and> \<not> idma_boot_hold s2 \<and> pc s2 = 0 \<and> idma_boot_mode s2
    \<and> RWORD_PGM s2 0 = w AND 0xffffff"
proof -
  define r where "r = adsp2181_idma_addr_write s (of_nat a)"
  have r: "idma_addr r = of_nat a" "\<not> idma_offs r" "pm_held r = pm_held s" "idma_boot_hold r" "idma_boot_mode r"
    using assms by (simp_all add: r_def addr_write_eq)
  have s1: "\<not> idma_offs s1" "pm_held s1 = pm_held s" "idma_boot_mode s1" "idma_boot_hold s1"
    using store_words [OF r(1,2), of ws s1] store_words_boot [OF r(1,2), of ws] assms r
    by (simp_all add: idma_download_def r_def)
  define q where "q = adsp2181_idma_addr_write s1 0"
  have q: "idma_addr q AND 0x4000 = 0" "\<not> idma_offs q" "idma_addr q AND 0x3fff = 0" "idma_boot_mode q"
    "idma_boot_hold q" "pm_held q = pm_held s"
    using s1 by (simp_all add: q_def addr_write_eq)
  have s2: "s2 = store_word q w"
    by (simp add: assms(8) idma_download_def store_word_def q_def)
  show ?thesis
    using store_word_boot(2) [OF q(1,2,4,3,5), of w] store_word_fields(4,5) [OF q(1,2), of w] q
      s1(4) assms(6) [rule_format, of 0]
    by (simp add: s2 adsp2181_run_def)
qed

definition booting :: adsp2181 where
  "booting = adsp2181_set_idma_boot_hold adsp2181_create True"

lemma booting_fields [simp]:
  "idma_offs booting = False" "idma_boot_hold booting" "idma_boot_mode booting" "pm_held booting x = None"
  by (simp_all add: booting_def adsp2181_set_idma_boot_hold_def)

theorem idma_boot_sequence_witness:
  "let s1 = idma_download booting 1 [0x18000f, 0]; s2 = idma_download s1 0 [0x028000]
   in adsp2181_run s1 1000 = Some (0, s1) \<and> \<not> idma_boot_hold s2 \<and> pc s2 = 0"
  using idma_boot_sequence [OF _ _ _ _ _ _ refl refl, of booting 1 "[0x18000f, 0]" "0x028000"]
  unfolding Let_def by simp

section \<open>The whole-word host port\<close>

lemma high_word: "(ucast (drop_bit 8 (push_bit 8 (ucast v :: u32)) AND 0xffff) :: u16) = v" for v :: u16
proof -
  have "(ucast (drop_bit 8 (push_bit 8 (ucast v :: u32)) AND mask 16) :: u16) = v"
    by (rule bit_word_eqI) (auto simp: bit_simps)
  then show ?thesis by (simp add: mask_numeral)
qed

lemma port_address:
  fixes a b :: u16
  assumes "(ucast (a AND 0x3fff) :: u32) = ucast (b AND 0x3fff)"
    and "a AND 0x4000 \<noteq> 0 \<longleftrightarrow> b AND 0x4000 \<noteq> 0"
  shows "a AND 0x7fff = b AND 0x7fff"
proof -
  have e: "bit (ucast (a AND mask 14) :: u32) k = bit (ucast (b AND mask 14) :: u32) k" for k
    using assms(1) by (simp add: mask_numeral)
  have "bit a k = bit b k" if "k < 14" for k
    using that e [of k] by (simp add: bit_simps)
  moreover have "bit a 14 = bit b 14"
    using assms(2) and_power_test [of 14 a] and_power_test [of 14 b] by simp
  ultimately have "a AND mask 15 = b AND mask 15"
    by (intro bit_word_eqI) (auto simp: bit_simps less_Suc_eq numeral_eq_Suc)
  then show ?thesis by (simp add: mask_numeral)
qed

text \<open>
  The host port reads back what it wrote.  For every 16-bit port address whose word is neither
  pinned nor forced (bit 14 selects data memory, else the upper 16 bits of a program word), the value
  written is the value read, and reads of other words see no difference.
\<close>

theorem host_port_round_trip:
  assumes "pm_held s (ucast (a AND 0x3fff)) = None" "dm_held s (ucast (a AND 0x3fff)) = None"
  shows "fst (adsp2181_host_read (adsp2181_host_write s a v) a) = v
    \<and> (\<forall>b. b AND 0x7fff \<noteq> a AND 0x7fff \<longrightarrow>
         fst (adsp2181_host_read (adsp2181_host_write s a v) b) = fst (adsp2181_host_read s b))"
proof -
  let ?p = "\<lambda>x :: u16. ucast (x AND 0x3fff) :: u32"
  have eq: "a AND 0x7fff = b AND 0x7fff"
    if "?p a = ?p b" "a AND 0x4000 \<noteq> 0 \<longleftrightarrow> b AND 0x4000 \<noteq> 0" for b
    using that by (rule port_address)
  have "fst (adsp2181_host_read (adsp2181_host_write s a v) a) = v"
    using pm.rd_wr_same [of "?p a" "?p a" s] dm.rd_wr_same [of "?p a" "?p a" s v] assms
    by (simp add: adsp2181_host_read_def adsp2181_host_write_def high_word)
  moreover have "fst (adsp2181_host_read (adsp2181_host_write s a v) b) = fst (adsp2181_host_read s b)"
    if "b AND 0x7fff \<noteq> a AND 0x7fff" for b
  proof (cases "a AND 0x4000 \<noteq> 0 \<longleftrightarrow> b AND 0x4000 \<noteq> 0")
    case True
    then have "?p a AND 0x3fff \<noteq> ?p b AND 0x3fff" using that eq [of b] by (auto simp: and_3fff_u16)
    then show ?thesis using True pm.rd_wr_other [of "?p a" "?p b" s] dm.rd_wr_other [of "?p a" "?p b" s v]
      by (simp add: adsp2181_host_read_def adsp2181_host_write_def)
  next
    case False
    then show ?thesis
      by (auto simp: adsp2181_host_read_def adsp2181_host_write_def memories_disjoint)
  qed
  ultimately show ?thesis by blast
qed

theorem host_port_round_trip_witness:
  "fst (adsp2181_host_read (adsp2181_host_write adsp2181_create 0x4123 0xbeef) 0x4123) = 0xbeef"
  using host_port_round_trip [of adsp2181_create "0x4123" "0xbeef"] by simp

section \<open>Pinned words\<close>

text \<open>
  Words outside the overlay windows (data memory from 0x2000 up, program memory below 0x2000) that are
  pinned and hold their pinned value or still what they held at the start, \<open>d\<close> and \<open>m\<close>: a pin is applied when
  the word is stored to, not when it is set.
\<close>

definition pins :: "instr_state \<Rightarrow> (u32 \<Rightarrow> bool) \<times> (u32 \<Rightarrow> u16) \<times> (u32 \<Rightarrow> bool) \<times> (u32 \<Rightarrow> u32)" where
  "pins n = (pin_dm n, pin_dm_value n, pin_pm n, pin_pm_value n)"

definition pins_hold :: "(u32 \<Rightarrow> bool) \<times> (u32 \<Rightarrow> u16) \<times> (u32 \<Rightarrow> bool) \<times> (u32 \<Rightarrow> u32) \<Rightarrow> (u32 \<Rightarrow> u16) \<Rightarrow> (u32 \<Rightarrow> u32) \<Rightarrow>
    adsp2181 \<Rightarrow> bool" where
  "pins_hold p d m s \<longleftrightarrow> pins (ins s) = p
     \<and> (\<forall>x. x AND 0x3fff = x \<and> \<not> x < 0x2000 \<and> fst p x \<longrightarrow> data s x \<in> {fst (snd p) x, d x})
     \<and> (\<forall>x. x < 0x2000 \<and> fst (snd (snd p)) x \<longrightarrow>
           program s x AND 0xffffff \<in> {snd (snd (snd p)) x AND 0xffffff, m x AND 0xffffff})"

lemma pins_settings: "settings m = settings n \<Longrightarrow> pins m = pins n"
  by (simp add: settings_def pins_def)

lemma pins_hold_cong:
  "\<lbrakk>pins_hold p d m s; settings (ins t) = settings (ins s); data t = data s; program t = program s\<rbrakk> \<Longrightarrow>
     pins_hold p d m t"
  by (simp add: pins_hold_def pins_settings [of "ins t" "ins s"])

lemma sequencer_memory [simp]:
  "data (update_mstat s) = data s" "program (update_mstat s) = program s"
  "data (pc_stack_push_val s x) = data s" "program (pc_stack_push_val s x) = program s"
  "data (snd (pc_stack_pop_val s)) = data s" "program (snd (pc_stack_pop_val s)) = program s"
  "data (cntr_stack_push s) = data s" "program (cntr_stack_push s) = program s"
  "data (cntr_stack_pop s) = data s" "program (cntr_stack_pop s) = program s"
  "data (loop_stack_push s x) = data s" "program (loop_stack_push s x) = program s"
  "data (loop_stack_pop s) = data s" "program (loop_stack_pop s) = program s"
  "data (stat_stack_push s) = data s" "program (stat_stack_push s) = program s"
  by (simp_all add: update_mstat_def pc_stack_push_val_def pc_stack_pop_val_def note_pcsp_def
      warn_stack_over_def cntr_stack_push_def cntr_stack_pop_def loop_stack_push_def
      loop_stack_pop_def stat_stack_push_def Let_def)

lemma pins_write: "pins_hold p d m s \<Longrightarrow> pins_hold p d m (WWORD_DATA s x v)"
proof -
  assume h: "pins_hold p d m s"
  have p: "pins (ins (WWORD_DATA s x v)) = p"
    using h pins_settings [of "ins (WWORD_DATA s x v)" "ins s"] by (simp add: pins_hold_def)
  have e: "data t y = dm_cell t y" if "\<not> y < 0x2000" for t y
    using that by (simp add: dm_cell_def dm_overlaid_def)
  have "data (WWORD_DATA s x v) y \<in> {fst (snd p) y, d y}" if "y AND 0x3fff = y" "\<not> y < 0x2000" "fst p y" for y
    using h that
    by (cases "x AND 0x3fff = y") (auto simp: e dm_cell_WWORD_DATA dm_apply_pin_def pins_hold_def pins_def)
  then show ?thesis using h p by (simp add: pins_hold_def)
qed

lemma pins_write_pgm: "pins_hold p d m s \<Longrightarrow> pins_hold p d m (WWORD_PGM s x v)"
proof -
  assume h: "pins_hold p d m s"
  have p: "pins (ins (WWORD_PGM s x v)) = p"
    using h pins_settings [of "ins (WWORD_PGM s x v)" "ins s"] by (simp add: pins_hold_def)
  have e: "program t y AND 0xffffff = pm_cell t y" if "y < 0x2000" for t y
    using that by (auto simp: pm_cell_def pm_overlaid_def)
  have "program (WWORD_PGM s x v) y AND 0xffffff \<in> {snd (snd (snd p)) y AND 0xffffff, m y AND 0xffffff}"
    if "y < 0x2000" "fst (snd (snd p)) y" for y
    using h that
    by (cases "x AND 0x3fff = y") (auto simp: e pm_cell_WWORD_PGM pm_apply_pin_def pins_hold_def pins_def Let_def and.assoc)
  then show ?thesis using h p by (simp add: pins_hold_def)
qed

lemma pins_count: "pins_hold p d m s \<Longrightarrow> pins_hold p d m (upd_ins (\<lambda>n. n\<lparr>cycles := k n\<rparr>) (s\<lparr>icount := j\<rparr>))"
  by (simp add: pins_hold_def pins_def)

interpretation pins: step_invariant "pins_hold p d m" for p d m
  by unfold_locales
    (simp_all add: pins_write pins_write_pgm pins_count,
     (erule pins_hold_cong; simp add: set_astat_def wr_i_def wr_m_def wr_l_def update_i_def update_l_def
        modify_address_def stat_restore_def case_prod_beta WWORD_IO_def Let_def)+)


text \<open>The instruction \<open>DM(0x3000) = AX0\<close> against a pin on its target and one on itself.\<close>

definition pinned_machine :: adsp2181 where
  "pinned_machine = adsp2181_pin_pm (adsp2181_pin_dm
     (one_word 0x930000\<lparr>data := (\<lambda>_. 0)(0x3000 := 0xbeef)\<rparr>) 0x3000 0xbeef True) 0 0x930000 True"

lemma pinned_machine_fields [simp]:
  "pc pinned_machine = 0" "irq_state pinned_machine = (\<lambda>_. False)" "irq_latch pinned_machine = (\<lambda>_. False)"
  "idma_boot_hold pinned_machine = False" "RWORD_PGM pinned_machine 0 = 0x930000"
  "pin_dm (ins pinned_machine) = (\<lambda>_. False)(0x3000 := True)" "pin_dm_value (ins pinned_machine) 0x3000 = 0xbeef"
  "data pinned_machine = (\<lambda>_. 0)(0x3000 := 0xbeef)" "pin_pm (ins pinned_machine) = (\<lambda>_. False)(0 := True)"
  "pin_pm_value (ins pinned_machine) 0 = 0x930000" "program pinned_machine = (\<lambda>_. 0)(0 := 0x930000)"
  using create_fields(14)
  by (simp_all add: pinned_machine_def adsp2181_pin_pm_def adsp2181_pin_dm_def one_word_def RWORD_PGM_def
      Let_def pm_cell_def pm_overlaid_def settings_def)


end
