(* ===== verification/CText.thy ===== *)
theory CText
  imports Prelude
begin

text \<open>
  The character-level part of the C library the command-line tools use: positional notation,
  \<^verbatim>\<open>printf\<close> with the conversions that occur, \<^verbatim>\<open>strtol\<close>/\<^verbatim>\<open>strtoul\<close>/\<^verbatim>\<open>atoi\<close>, and the
  \<^verbatim>\<open>%x\<close> and \<^verbatim>\<open>%ld\<close> conversions of \<^verbatim>\<open>fscanf\<close>.  \<^verbatim>\<open>long\<close> has 64 bits and \<^verbatim>\<open>int\<close> has 32.
  The locale \<open>positional\<close> states what printing and reading digits promise to each other; it is
  interpreted for the three bases in use.
\<close>

section \<open>Positional notation\<close>

definition digit_char :: "bool \<Rightarrow> nat \<Rightarrow> char" where
  "digit_char upper n = (if upper then ''0123456789ABCDEF'' else ''0123456789abcdef'') ! n"

definition digit_value :: "char \<Rightarrow> nat" where
  "digit_value c =
     (let n = of_char c :: nat in
      if 48 \<le> n \<and> n \<le> 57 then n - 48
      else if 65 \<le> n \<and> n \<le> 90 then n - 55
      else if 97 \<le> n \<and> n \<le> 122 then n - 87
      else 36)"

definition is_digit :: "nat \<Rightarrow> char \<Rightarrow> bool" where
  "is_digit b c = (digit_value c < b)"

function digits :: "bool \<Rightarrow> nat \<Rightarrow> nat \<Rightarrow> string" where
  "digits upper b n =
     (if b < 2 \<or> n < b then [digit_char upper n]
      else digits upper b (n div b) @ [digit_char upper (n mod b)])"
  by pat_completeness auto
termination by (relation "measure (\<lambda>(_, _, n). n)") (auto intro: div_less_dividend)

declare digits.simps [simp del]

definition digits_value :: "nat \<Rightarrow> string \<Rightarrow> nat" where
  "digits_value b ds = foldl (\<lambda>v c. v * b + digit_value c) 0 ds"

definition pad :: "nat \<Rightarrow> string \<Rightarrow> string" where
  "pad w t = replicate (w - length t) (CHR ''0'') @ t"

definition decimal :: "int \<Rightarrow> string" where
  "decimal z = (if z < 0 then CHR ''-'' # digits False 10 (nat (- z)) else digits False 10 (nat z))"

section \<open>\<open>printf\<close>\<close>

text \<open>
  A format is a list of pieces.  \<open>Conv_x upper w\<close> is \<^verbatim>\<open>%0wX\<close> or \<^verbatim>\<open>%0wx\<close>, with or without the
  length modifier; a character after \<^verbatim>\<open>%\<close> that starts no conversion in use is \<open>Bad\<close>.
\<close>

datatype piece = Lit char | Conv_s | Conv_d | Conv_x bool nat | Bad

datatype arg = Str string | Num int

definition conversions :: "(string \<times> piece) list" where
  "conversions = [(''s'', Conv_s), (''d'', Conv_d), (''X'', Conv_x True 0), (''04X'', Conv_x True 4),
     (''06X'', Conv_x True 6), (''06x'', Conv_x False 6), (''04lx'', Conv_x False 4)]"

function pieces :: "string \<Rightarrow> piece list" where
  "pieces [] = []"
| "pieces (c # f) =
     (if c \<noteq> CHR ''%'' then Lit c # pieces f
      else case find (\<lambda>(t, _). take (length t) f = t) conversions of
             None \<Rightarrow> Bad # pieces f
           | Some (t, p) \<Rightarrow> p # pieces (drop (length t) f))"
  by pat_completeness auto
termination by (relation "measure length") auto

lemma pieces_simps [simp]:
  "c \<noteq> CHR ''%'' \<Longrightarrow> pieces (c # f) = Lit c # pieces f"
  "pieces (CHR ''%'' # CHR ''s'' # f) = Conv_s # pieces f"
  "pieces (CHR ''%'' # CHR ''d'' # f) = Conv_d # pieces f"
  "pieces (CHR ''%'' # CHR ''X'' # f) = Conv_x True 0 # pieces f"
  "pieces (CHR ''%'' # CHR ''0'' # CHR ''4'' # CHR ''X'' # f) = Conv_x True 4 # pieces f"
  "pieces (CHR ''%'' # CHR ''0'' # CHR ''6'' # CHR ''X'' # f) = Conv_x True 6 # pieces f"
  "pieces (CHR ''%'' # CHR ''0'' # CHR ''6'' # CHR ''x'' # f) = Conv_x False 6 # pieces f"
  "pieces (CHR ''%'' # CHR ''0'' # CHR ''4'' # CHR ''l'' # CHR ''x'' # f) = Conv_x False 4 # pieces f"
  by (simp_all add: conversions_def)

declare pieces.simps(2) [simp del]

definition of_int32 :: "int \<Rightarrow> nat" where
  "of_int32 z = nat (z mod 2 ^ 32)"

fun convert :: "piece \<Rightarrow> arg \<Rightarrow> string option" where
  "convert Conv_s (Str t) = Some t"
| "convert Conv_d (Num z) = Some (decimal z)"
| "convert (Conv_x upper w) (Num z) = Some (pad w (digits upper 16 (of_int32 z)))"
| "convert _ _ = None"

text \<open>\<open>None\<close>: a conversion without an argument of its type, undefined in C.\<close>

fun render :: "piece list \<Rightarrow> arg list \<Rightarrow> string option" where
  "render [] _ = Some []"
| "render (Lit c # ps) as = map_option ((#) c) (render ps as)"
| "render (_ # ps) [] = None"
| "render (p # ps) (a # as) =
     (case convert p a of None \<Rightarrow> None | Some t \<Rightarrow> map_option ((@) t) (render ps as))"

definition printf :: "string \<Rightarrow> arg list \<Rightarrow> string option" where
  "printf fmt as = render (pieces fmt) as"

section \<open>\<open>strtol\<close>, \<open>strtoul\<close>, \<open>atoi\<close>\<close>

definition isspace :: "char \<Rightarrow> bool" where
  "isspace c = (let n = of_char c :: nat in n = 32 \<or> (9 \<le> n \<and> n \<le> 13))"

definition sign_of :: "string \<Rightarrow> bool \<times> string" where
  "sign_of s = (if take 1 s = ''-'' then (True, drop 1 s)
                else if take 1 s = ''+'' then (False, drop 1 s) else (False, s))"

definition hex_prefix :: "string \<Rightarrow> bool" where
  "hex_prefix s = ((take 2 s = ''0x'' \<or> take 2 s = ''0X'') \<and>
     (case drop 2 s of [] \<Rightarrow> False | c # _ \<Rightarrow> is_digit 16 c))"

definition radix :: "nat \<Rightarrow> string \<Rightarrow> nat \<times> string" where
  "radix base s =
     (if (base = 0 \<or> base = 16) \<and> hex_prefix s then (16, drop 2 s)
      else if base = 0 then (if take 1 s = ''0'' then 8 else 10, s)
      else (base, s))"

text \<open>Sign, magnitude and rest of the longest number at the front, if there is one.\<close>

definition strto :: "nat \<Rightarrow> string \<Rightarrow> (bool \<times> nat \<times> string) option" where
  "strto base s =
     (let (neg, s1) = sign_of (dropWhile isspace s);
          (b, s2) = radix base s1;
          ds = takeWhile (is_digit b) s2
      in if ds = [] then None else Some (neg, digits_value b ds, dropWhile (is_digit b) s2))"

definition ulong :: "bool \<Rightarrow> nat \<Rightarrow> nat" where
  "ulong neg v = (if v \<ge> 2 ^ 64 then 2 ^ 64 - 1 else if neg then (2 ^ 64 - v) mod 2 ^ 64 else v)"

definition slong :: "bool \<Rightarrow> nat \<Rightarrow> int" where
  "slong neg v = (if neg then max (- (2 ^ 63)) (- int v) else min (2 ^ 63 - 1) (int v))"

definition strtoul :: "nat \<Rightarrow> string \<Rightarrow> nat \<times> string" where
  "strtoul base s = (case strto base s of None \<Rightarrow> (0, s) | Some (neg, v, r) \<Rightarrow> (ulong neg v, r))"

definition strtol :: "nat \<Rightarrow> string \<Rightarrow> int \<times> string" where
  "strtol base s = (case strto base s of None \<Rightarrow> (0, s) | Some (neg, v, r) \<Rightarrow> (slong neg v, r))"

definition as_int :: "int \<Rightarrow> int" where
  "as_int z = sint (word_of_int z :: u32)"

definition atoi :: "string \<Rightarrow> int" where
  "atoi s = as_int (fst (strtol 10 s))"

section \<open>The number conversions of \<open>fscanf\<close>\<close>

datatype 'a scan = Eof | Mismatch | Item 'a string

definition scan_number :: "nat \<Rightarrow> string \<Rightarrow> (bool \<times> nat) scan" where
  "scan_number base s =
     (if dropWhile isspace s = [] then Eof
      else case strto base s of
             None \<Rightarrow> Mismatch
           | Some (neg, v, r) \<Rightarrow>
               if base = 16 \<and> v = 0 \<and> take 1 r \<in> {''x'', ''X''} \<and>
                  (let s1 = snd (sign_of (dropWhile isspace s)) in drop 1 s1 = r)
               then Mismatch else Item (neg, v) r)"

definition scan_x :: "string \<Rightarrow> nat scan" where
  "scan_x s = (case scan_number 16 s of Eof \<Rightarrow> Eof | Mismatch \<Rightarrow> Mismatch
                 | Item (neg, v) r \<Rightarrow> Item (ulong neg v mod 2 ^ 32) r)"

definition scan_ld :: "string \<Rightarrow> int scan" where
  "scan_ld s = (case scan_number 10 s of Eof \<Rightarrow> Eof | Mismatch \<Rightarrow> Mismatch
                  | Item (neg, v) r \<Rightarrow> Item (slong neg v) r)"

section \<open>Printing and reading digits\<close>

lemma of_digit_char: "n < 16 \<Longrightarrow> digit_value (digit_char upper n) = n"
proof -
  have "list_all (\<lambda>k. digit_value (digit_char upper k) = k) [0..<16]"
    by (simp add: upt_rec digit_value_def digit_char_def)
  then show "n < 16 \<Longrightarrow> digit_value (digit_char upper n) = n" by (simp add: list_all_iff)
qed

locale positional =
  fixes b :: nat
  assumes base: "2 \<le> b" "b \<le> 16"
begin

lemma digit_ok [simp]: "n < b \<Longrightarrow> is_digit b (digit_char u n)"
  using base of_digit_char [of n u] by (simp add: is_digit_def)

lemma value_digits: "digits_value b (digits u b n) = n"
proof (induction n rule: less_induct)
  case (less n)
  show ?case
  proof (cases "n < b")
    case True
    then show ?thesis using base by (simp add: digits.simps digits_value_def of_digit_char)
  next
    case False
    have "digits_value b (digits u b n) = digits_value b (digits u b (n div b)) * b + n mod b"
      using False base of_digit_char [of "n mod b" u] less_le_trans [OF mod_less_divisor [of b n], of 16]
      by (subst digits.simps) (simp add: digits_value_def)
    then show ?thesis using less.IH [of "n div b"] False base by (simp add: div_less_dividend)
  qed
qed

lemma digits_are_digits: "c \<in> set (digits u b n) \<Longrightarrow> is_digit b c"
proof (induction n rule: less_induct)
  case (less n)
  then show ?case using base less.IH [of "n div b"]
    by (cases "n < b") (auto simp: digits.simps [of u b n] div_less_dividend)
qed

lemma length_digits: "\<lbrakk>n < b ^ k; 0 < k\<rbrakk> \<Longrightarrow> length (digits u b n) \<le> k"
proof (induction k arbitrary: n)
  case (Suc k)
  show ?case
  proof (cases "n < b")
    case False
    then have "0 < k" using Suc.prems by (cases k) auto
    moreover have "n div b < b ^ k" using Suc.prems(1) base by (simp add: less_mult_imp_div_less mult.commute)
    ultimately show ?thesis using False Suc.IH [of "n div b"] base by (simp add: digits.simps [of u b n])
  qed (use base in \<open>simp add: digits.simps [of u b n]\<close>)
qed simp

lemma digits_nonempty [simp]: "digits u b n \<noteq> []"
  by (simp add: digits.simps [of u b n])

lemma value_pad: "digits_value b (pad w ds) = digits_value b ds"
proof -
  have "foldl (\<lambda>v c. v * b + digit_value c) 0 (replicate k (CHR ''0'')) = 0" for k
    by (induction k) (simp_all add: digit_value_def)
  then show ?thesis by (simp add: digits_value_def pad_def)
qed

lemma pad_digits_inj: "pad w (digits u b n) = pad w (digits u b m) \<Longrightarrow> n = m"
  by (metis value_digits value_pad)

text \<open>What a reader of the right base makes of printed digits followed by something else.\<close>

lemma read_back:
  assumes "r = [] \<or> \<not> is_digit b (hd r)"
  shows "takeWhile (is_digit b) (pad w (digits u b n) @ r) = pad w (digits u b n)"
    "dropWhile (is_digit b) (pad w (digits u b n) @ r) = r"
    "digits_value b (pad w (digits u b n)) = n"
proof -
  have "\<forall>c \<in> set (pad w (digits u b n)). is_digit b c"
    using digits_are_digits base by (auto simp: pad_def is_digit_def digit_value_def)
  then show "takeWhile (is_digit b) (pad w (digits u b n) @ r) = pad w (digits u b n)"
    "dropWhile (is_digit b) (pad w (digits u b n) @ r) = r"
    using assms by (cases r; simp add: takeWhile_append dropWhile_append)+
  show "digits_value b (pad w (digits u b n)) = n" by (simp add: value_pad value_digits)
qed

end

interpretation oct: positional 8 by unfold_locales simp_all
interpretation dec: positional 10 by unfold_locales simp_all
interpretation hex: positional 16 by unfold_locales simp_all

section \<open>Reading consumes input\<close>

lemma sign_of_length: "length (snd (sign_of s)) \<le> length s"
  by (simp add: sign_of_def)

lemma radix_length: "length (snd (radix b s)) \<le> length s"
  by (simp add: radix_def)

lemma drop_take_while:
  assumes "takeWhile P s \<noteq> []"
  shows "length (dropWhile P s) < length s"
proof -
  have "length s = length (takeWhile P s @ dropWhile P s)" by (simp only: takeWhile_dropWhile_id)
  then show ?thesis using assms by (simp del: takeWhile_dropWhile_id)
qed

lemma strto_shorter: "strto b s = Some (neg, v, r) \<Longrightarrow> length r < length s"
proof -
  assume r: "strto b s = Some (neg, v, r)"
  define s1 where "s1 = snd (sign_of (dropWhile isspace s))"
  define s2 where "s2 = snd (radix b s1)"
  have "length r < length s2" using r
    by (auto simp: strto_def s1_def s2_def Let_def case_prod_beta drop_take_while split: if_splits)
  moreover have "length s2 \<le> length s" unfolding s2_def s1_def
    by (rule order_trans [OF radix_length order_trans [OF sign_of_length length_dropWhile_le]])
  ultimately show "length r < length s" by simp
qed

lemma scan_shorter:
  "scan_x s = Item v r \<Longrightarrow> length r < length s" "scan_ld s = Item z r \<Longrightarrow> length r < length s"
  by (auto simp: scan_x_def scan_ld_def scan_number_def split: scan.splits if_splits option.splits prod.splits
      dest: strto_shorter)

section \<open>Scanning what was printed\<close>

lemma digit_chars:
  assumes "is_digit 16 c"
  shows "c \<noteq> CHR ''-''" "c \<noteq> CHR ''+''" "c \<noteq> CHR ''x''" "c \<noteq> CHR ''X''" "\<not> isspace c"
  using assms by (auto simp: is_digit_def digit_value_def isspace_def Let_def split: if_splits)

text \<open>A blank, or the end of the text, ends a number.\<close>

definition ended :: "string \<Rightarrow> bool" where
  "ended r = (r = [] \<or> isspace (hd r))"

lemma ended_stops:
  assumes "ended r"
  shows "r = [] \<or> \<not> is_digit 16 (hd r)" "take 1 r \<notin> {''x'', ''X''}"
proof -
  have "\<not> isspace (CHR ''x'')" "\<not> isspace (CHR ''X'')" by (simp_all add: isspace_def)
  then show "r = [] \<or> \<not> is_digit 16 (hd r)" "take 1 r \<notin> {''x'', ''X''}"
    using assms digit_chars(5) by (cases r; auto simp: ended_def)+
qed

lemma take_2: "take 2 (c # s) = c # take 1 s"
  by (simp add: numeral_2_eq_2)

lemma scan_hex:
  assumes "\<forall>c \<in> set sp. isspace c" "ended r" "n < 2 ^ 32"
  shows "scan_x (sp @ digits u 16 n @ r) = Item n r"
proof -
  define ds where "ds = digits u 16 n"
  have ds: "ds \<noteq> []" "\<forall>c \<in> set ds. is_digit 16 c"
    using hex.digits_are_digits by (auto simp: ds_def)
  then obtain d es where d: "ds = d # es" "is_digit 16 d" by (cases ds) auto
  have rb: "takeWhile (is_digit 16) (ds @ r) = ds" "dropWhile (is_digit 16) (ds @ r) = r"
    "digits_value 16 ds = n"
    using hex.read_back [OF ended_stops(1) [OF assms(2)], of 0 u n] by (simp_all add: pad_def ds_def)
  have skip: "dropWhile isspace (sp @ ds @ r) = ds @ r"
    using assms(1) d digit_chars(5) by (simp add: dropWhile_append3 dropWhile_append)
  have sign: "sign_of (ds @ r) = (False, ds @ r)"
    using digit_chars(1,2) [OF d(2)] by (simp add: sign_of_def d)
  have "take 1 (es @ r) \<notin> {''x'', ''X''}"
    using ended_stops(2) [OF assms(2)] ds(2) d digit_chars(3,4) by (cases es) auto
  then have radix: "radix 16 (ds @ r) = (16, ds @ r)"
    by (auto simp: radix_def hex_prefix_def d take_2)
  have "strto 16 (sp @ ds @ r) = Some (False, n, r)"
    by (simp add: strto_def skip sign radix rb ds)
  then show ?thesis using ended_stops(2) [OF assms(2)] assms(3) ds
    by (simp add: scan_x_def scan_number_def skip ulong_def ds_def [symmetric])
qed

end
