(* ===== verification/Dasm.thy ===== *)
theory Dasm
  imports CText
begin

text \<open>
  The disassembler \<^verbatim>\<open>dasm/2100dasm.c\<close> with the shims and the command line of
  \<^verbatim>\<open>dasm/dasm_main.cpp\<close>.  Each case of \<^verbatim>\<open>disassemble\<close> becomes the list of
  \<^verbatim>\<open>stream_format\<close> calls it makes and the step flags it sets; \<open>disassemble\<close> plays the calls
  through \<^verbatim>\<open>snprintf\<close>.  A format and arguments that do not fit each other give \<open>None\<close>.
\<close>

section \<open>Operand tables\<close>

definition dasm_flag_change :: "string list" where
  "dasm_flag_change = [
     '''', ''TOGGLE %s '', ''RESET %s '', ''SET %s '']"

definition dasm_mode_change :: "string list" where
  "dasm_mode_change = [
     '''', '''', ''DIS %s '', ''ENA %s '']"

definition dasm_alu_xop :: "string list" where
  "dasm_alu_xop = [
     ''AX0'', ''AX1'', ''AR'', ''MR0'', ''MR1'', ''MR2'', ''SR0'', ''SR1'']"

definition dasm_alu_yop :: "string list" where
  "dasm_alu_yop = [
     ''AY0'', ''AY1'', ''AF'', ''0'']"

definition dasm_alu_dst :: "string list" where
  "dasm_alu_dst = [
     ''AR'', ''AF'', ''NONE'']"

definition dasm_mac_xop :: "string list" where
  "dasm_mac_xop = [
     ''MX0'', ''MX1'', ''AR'', ''MR0'', ''MR1'', ''MR2'', ''SR0'', ''SR1'']"

definition dasm_mac_yop :: "string list" where
  "dasm_mac_yop = [
     ''MY0'', ''MY1'', ''MF'', ''0'']"

definition dasm_mac_dst :: "string list" where
  "dasm_mac_dst = [
     ''MR'', ''MF'', ''NONE'']"

definition dasm_shift_xop :: "string list" where
  "dasm_shift_xop = [
     ''SI'', ''??'', ''AR'', ''MR0'', ''MR1'', ''MR2'', ''SR0'', ''SR1'']"

definition dasm_reg_grp :: "string list list" where
  "dasm_reg_grp = [
     [''AX0'', ''AX1'', ''MX0'', ''MX1'', ''AY0'', ''AY1'', ''MY0'', ''MY1'', ''SI'', ''SE'',
      ''AR'', ''MR0'', ''MR1'', ''MR2'', ''SR0'', ''SR1''],
     [''I0'', ''I1'', ''I2'', ''I3'', ''M0'', ''M1'', ''M2'', ''M3'', ''L0'', ''L1'', ''L2'',
      ''L3'', ''??'', ''??'', ''PMOVLAY'', ''DMOVLAY''],
     [''I4'', ''I5'', ''I6'', ''I7'', ''M4'', ''M5'', ''M6'', ''M7'', ''L4'', ''L5'', ''L6'',
      ''L7'', ''??'', ''??'', ''??'', ''??''],
     [''ASTAT'', ''MSTAT'', ''SSTAT'', ''IMASK'', ''ICNTL'', ''CNTR'', ''SB'', ''PX'', ''RX0'',
      ''TX0'', ''RX1'', ''TX1'', ''IFC'', ''OWRCNTR'', ''??'', ''??'']]"

definition dasm_dual_xreg :: "string list" where
  "dasm_dual_xreg = [
     ''AX0'', ''AX1'', ''MX0'', ''MX1'']"

definition dasm_dual_yreg :: "string list" where
  "dasm_dual_yreg = [
     ''AY0'', ''AY1'', ''MY0'', ''MY1'']"

definition dasm_condition :: "string list" where
  "dasm_condition = [
     ''IF EQ '', ''IF NE '', ''IF GT '', ''IF LE '', ''IF LT '', ''IF GE '', ''IF AV '',
     ''IF NOT AV '', ''IF AC '', ''IF NOT AC '', ''IF NEG '', ''IF POS '', ''IF MV '',
     ''IF NOT MV '', ''IF NOT CE '', '''']"

definition dasm_do_condition :: "string list" where
  "dasm_do_condition = [
     ''NE'', ''EQ'', ''LE'', ''GT'', ''GE'', ''LT'', ''NOT AV'', ''AV'', ''NOT AC'', ''AC'',
     ''POS'', ''NEG'', ''NOT MV'', ''MV'', ''CE'', ''FOREVER'']"

definition dasm_alumac_op :: "string list list" where
  "dasm_alumac_op = [
     ['''', ''''],
     [''%s = %s * %s (RND)'', ''%s = %s * %s (RND)''],
     [''%s = MR + %s * %s (RND)'', ''%s = MR + %s * %s (RND)''],
     [''%s = MR - %s * %s (RND)'', ''%s = MR - %s * %s (RND)''],
     [''%s = %s * %s (SS)'', ''%s = 0''],
     [''%s = %s * %s (SU)'', ''%s = %s * %s (SU)''],
     [''%s = %s * %s (US)'', ''%s = %s * %s (US)''],
     [''%s = %s * %s (UU)'', ''%s = %s * %s (UU)''],
     [''%s = MR + %s * %s (SS)'', ''%s = MR + %s * %s (SS)''],
     [''%s = MR + %s * %s (SU)'', ''%s = MR + %s * %s (SU)''],
     [''%s = MR + %s * %s (US)'', ''%s = MR + %s * %s (US)''],
     [''%s = MR + %s * %s (UU)'', ''%s = MR + %s * %s (UU)''],
     [''%s = MR - %s * %s (SS)'', ''%s = MR - %s * %s (SS)''],
     [''%s = MR - %s * %s (SS)'', ''%s = MR - %s * %s (SS)''],
     [''%s = MR - %s * %s (US)'', ''%s = MR - %s * %s (US)''],
     [''%s = MR - %s * %s (UU)'', ''%s = MR - %s * %s (UU)''],
     [''!%s = %s'', ''%s = 0''],
     [''!%s = %s + 1'', ''%s = 1''],
     [''%s = %s + %s + C'', ''%s = %s + %s + C''],
     [''%s = %s + %s'', ''%s = %s''],
     [''!%s = NOT %s'', ''!%s = NOT %s''],
     [''!%s = -%s'', ''!%s = -%s''],
     [''%s = %s - %s + C - 1'', ''%s = %s + C - 1''],
     [''%s = %s - %s'', ''%s = %s - %s''],
     [''!%s = %s - 1'', ''%s = -1''],
     [''!%s = %s - %s'', ''%s = -%s''],
     [''!%s = %s - %s + C - 1'', ''%s = -%s + C - 1''],
     [''%s = NOT %s'', ''%s = NOT %s''],
     [''%s = %s AND %s'', ''%s = %s AND %s''],
     [''%s = %s OR %s'', ''%s = %s OR %s''],
     [''%s = %s XOR %s'', ''%s = %s XOR %s''],
     [''%s = ABS %s'', ''%s = ABS %s'']]"

definition dasm_shift_op :: "string list" where
  "dasm_shift_op = [
     ''SR = LSHIFT %s (HI)'', ''SR = SR OR LSHIFT %s (HI)'', ''SR = LSHIFT %s (LO)'',
     ''SR = SR OR LSHIFT %s (LO)'', ''SR = ASHIFT %s (HI)'', ''SR = SR OR ASHIFT %s (HI)'',
     ''SR = ASHIFT %s (LO)'', ''SR = SR OR ASHIFT %s (LO)'', ''SR = NORM %s (HI)'',
     ''SR = SR OR NORM %s (HI)'', ''SR = NORM %s (LO)'', ''SR = SR OR NORM %s (LO)'',
     ''SE = EXP %s (HI)'', ''SE = EXP %s (HIX)'', ''SE = EXP %s (LO)'', ''SB = EXPADJ %s'']"

definition dasm_shift_by_op :: "string list" where
  "dasm_shift_by_op = [
     ''SR = LSHIFT %s BY %d (HI)'', ''SR = SR OR LSHIFT %s BY %d (HI)'',
     ''SR = LSHIFT %s BY %d (LO)'', ''SR = SR OR LSHIFT %s BY %d (LO)'',
     ''SR = ASHIFT %s BY %d (HI)'', ''SR = SR OR ASHIFT %s BY %d (HI)'',
     ''SR = ASHIFT %s BY %d (LO)'', ''SR = SR OR ASHIFT %s BY %d (LO)'', ''???'', ''???'',
     ''???'', ''???'', ''???'', ''???'', ''???'', ''???'']"

definition dasm_constants :: "string list" where
  "dasm_constants = [
     ''$0001'', ''$FFFE'', ''$0002'', ''$FFFD'', ''$0004'', ''$FFFB'', ''$0008'', ''$FFF7'',
     ''$0010'', ''$FFEF'', ''$0020'', ''$FFDF'', ''$0040'', ''$FFBF'', ''$0080'', ''$FF7F'',
     ''$0100'', ''$FEFF'', ''$0200'', ''$FDFF'', ''$0400'', ''$FBFF'', ''$0800'', ''$F7FF'',
     ''$1000'', ''$EFFF'', ''$2000'', ''$DFFF'', ''$4000'', ''$BFFF'', ''$8000'', ''$7FFF'']"

section \<open>Shims\<close>

definition BIT :: "u32 \<Rightarrow> nat \<Rightarrow> nat \<Rightarrow> u32" where
  "BIT x n w = drop_bit n x AND (push_bit w 1 - 1)"

definition BIT1 :: "u32 \<Rightarrow> nat \<Rightarrow> u32" where
  "BIT1 x n = drop_bit n x AND 1"

definition STEP_OVER :: u32 where "STEP_OVER = 1"
definition STEP_COND :: u32 where "STEP_COND = 2"
definition STEP_OUT :: u32 where "STEP_OUT = 4"
definition SUPPORTED :: u32 where "SUPPORTED = 0x80000000"

type_synonym print_call = "string \<times> arg list"

text \<open>\<open>snprintf\<close> into 256 bytes, appended to the stream.\<close>

definition stream_format :: "string \<Rightarrow> string \<Rightarrow> arg list \<Rightarrow> string option" where
  "stream_format stream fmt as = map_option (\<lambda>t. stream @ take 255 t) (printf fmt as)"

fun stream_calls :: "string \<Rightarrow> print_call list \<Rightarrow> string option" where
  "stream_calls stream [] = Some stream"
| "stream_calls stream ((fmt, as) # cs) =
     (case stream_format stream fmt as of None \<Rightarrow> None | Some stream' \<Rightarrow> stream_calls stream' cs)"

text \<open>Table lookups and numbers from a field of the instruction.\<close>

definition field :: "u32 \<Rightarrow> nat \<Rightarrow> nat \<Rightarrow> nat" where
  "field op n w = unat (BIT op n w)"

definition pick :: "string list \<Rightarrow> u32 \<Rightarrow> nat \<Rightarrow> nat \<Rightarrow> arg" where
  "pick table op n w = Str (table ! field op n w)"

definition number :: "u32 \<Rightarrow> arg" where
  "number x = Num (uint x)"

definition unknown :: "u32 \<Rightarrow> print_call" where
  "unknown op = (''??? (%06X)'', [number op])"

section \<open>ALU and MAC operations\<close>

definition alumac :: "nat \<Rightarrow> u32 \<Rightarrow> print_call" where
  "alumac dest op =
     (let opindex = BIT op 13 5;
          alu = (BIT1 opindex 4 \<noteq> 0);
          xop = (if alu then dasm_alu_xop else dasm_mac_xop) ! field op 8 3;
          yop = (if alu then dasm_alu_yop else dasm_mac_yop) ! field op 11 2;
          dst = (if alu then dasm_alu_dst else dasm_mac_dst) ! dest;
          opstring = dasm_alumac_op ! unat opindex ! of_bool (BIT op 11 2 = 3)
      in if take 1 opstring = ''!'' then (drop 1 opstring, [Str dst, Str yop, Str xop])
         else (opstring, [Str dst, Str xop, Str yop]))"

definition aluconst :: "nat \<Rightarrow> u32 \<Rightarrow> print_call" where
  "aluconst dest op =
     (let opindex = BIT op 13 5;
          alu = (BIT1 opindex 4 \<noteq> 0);
          xop = (if alu then dasm_alu_xop else dasm_mac_xop) ! field op 8 3;
          cval = (if alu then dasm_constants ! unat (BIT op 5 3 OR push_bit 3 (BIT op 11 2)) else xop);
          dst = (if alu then dasm_alu_dst else dasm_mac_dst) ! dest;
          opstring = dasm_alumac_op ! unat opindex ! of_bool (BIT op 11 2 = 3)
      in if take 1 opstring = ''!'' then (drop 1 opstring, [Str dst, Str cval, Str xop])
         else (opstring, [Str dst, Str xop, Str cval]))"

definition compute_calls :: "nat \<Rightarrow> u32 \<Rightarrow> print_call list" where
  "compute_calls dest op = (if BIT op 13 5 \<noteq> 0 then [alumac dest op, ('', '', [])] else [])"

section \<open>The cases of \<open>disassemble\<close>\<close>

definition dasm_00_03 :: "u32 \<Rightarrow> print_call list \<times> u32" where
  "dasm_00_03 op =
     (let h = field op 16 8 in
      if h = 0x00 then ([(''NOP'', [])], 0)
      else if h = 0x01 then
        (if BIT1 op 15 = 0 then [(''%s = IO($%X)'', [pick (dasm_reg_grp ! 0) op 0 4, number (BIT op 4 11)])]
         else [(''IO($%X) = %s'', [number (BIT op 4 11), pick (dasm_reg_grp ! 0) op 0 4])], 0)
      else if h = 0x02 then
        (if BIT op 12 4 = 0 then
           [(''%s'', [pick dasm_condition op 0 4]),
            (dasm_flag_change ! field op 4 2, [Str ''FLAG_OUT'']),
            (dasm_flag_change ! field op 6 2, [Str ''FL0'']),
            (dasm_flag_change ! field op 8 2, [Str ''FL1'']),
            (dasm_flag_change ! field op 10 2, [Str ''FL2''])]
         else if BIT op 4 12 = 0x800 then
           (if BIT op 0 4 = 0 then [(''IDLE'', [])]
            else [(''IDLE(%d)'', [number (push_bit 4 (BIT op 0 4))])])
         else [unknown op], 0)
      else
        ([(''%s'', [Str (if BIT1 op 1 \<noteq> 0 then ''IF FLAG_IN '' else ''IF NOT FLAG_IN '')]),
          (''%s'', [Str (if BIT1 op 0 \<noteq> 0 then ''CALL '' else ''JUMP '')]),
          (''$%04X'', [number (BIT op 4 12 OR push_bit 12 (BIT op 2 2))])],
         if BIT1 op 0 \<noteq> 0 then STEP_OVER OR STEP_COND else STEP_COND))"

definition dasm_04_08 :: "u32 \<Rightarrow> print_call list \<times> u32" where
  "dasm_04_08 op =
     (let h = field op 16 8 in
      if h = 0x04 then
        (if BIT op 5 11 = 0 then
           ((if BIT1 op 4 \<noteq> 0 then [(''%s'', [Str ''POP PC ''])] else []) @
            (if BIT1 op 3 \<noteq> 0 then [(''%s'', [Str ''POP LOOP ''])] else []) @
            (if BIT1 op 2 \<noteq> 0 then [(''%s'', [Str ''POP CNTR ''])] else []) @
            (if BIT op 0 2 = 2 then [(''%s'', [Str ''PUSH STAT ''])]
             else if BIT op 0 2 = 3 then [(''%s'', [Str ''POP STAT ''])] else []),
            if BIT1 op 4 \<noteq> 0 then STEP_OUT else 0)
         else ([unknown op], 0))
      else if h = 0x05 then
        (if BIT op 0 16 = 0 then [(''%s'', [Str ''IF MV SAT MR''])] else [unknown op], 0)
      else if h = 0x06 then
        (if op AND 0x00e0ff = 0 then
           [(''DIVS %s,%s'', [pick dasm_alu_yop op 11 2, pick dasm_alu_xop op 8 3])]
         else [unknown op], 0)
      else if h = 0x07 then
        (if op AND 0x00f8ff = 0x001000 then [(''DIVQ %s'', [pick dasm_alu_xop op 8 3])]
         else [unknown op], 0)
      else ([unknown op], 0))"

definition dasm_09_0c :: "u32 \<Rightarrow> print_call list \<times> u32" where
  "dasm_09_0c op =
     (let h = field op 16 8;
          cond_flag = (if BIT op 0 4 \<noteq> 15 then STEP_COND else 0) in
      if h = 0x09 then
        (if BIT op 5 11 = 0 then
           (let temp = BIT op 2 3 in
            [(''MODIFY (I%d,M%d)'', [number temp, number ((temp AND 4) + BIT op 0 2)])])
         else [unknown op], 0)
      else if h = 0x0a then
        (if BIT op 5 11 = 0 then
           ([(''%s'', [pick dasm_condition op 0 4]),
             (''%s'', [Str (if BIT1 op 4 \<noteq> 0 then ''RTI'' else ''RTS'')])],
            STEP_OUT OR cond_flag)
         else ([unknown op], 0))
      else if h = 0x0b then
        (if BIT op 8 8 = 0 then
           ([(''%s'', [pick dasm_condition op 0 4]),
             (if BIT1 op 4 \<noteq> 0 then ''CALL (I%d)'' else ''JUMP (I%d)'', [number (4 + BIT op 6 2)])],
            (if BIT1 op 4 \<noteq> 0 then STEP_OVER else 0) OR cond_flag)
         else ([unknown op], 0))
      else
        ([(dasm_mode_change ! field op 4 2, [Str ''SEC_REG'']),
          (dasm_mode_change ! field op 6 2, [Str ''BIT_REV'']),
          (dasm_mode_change ! field op 8 2, [Str ''AV_LATCH'']),
          (dasm_mode_change ! field op 10 2, [Str ''AR_SAT'']),
          (dasm_mode_change ! field op 12 2, [Str ''M_MODE'']),
          (dasm_mode_change ! field op 14 2, [Str ''TIMER'']),
          (dasm_mode_change ! field op 2 2, [Str ''G_MODE''])], 0))"

definition shift_call :: "u32 \<Rightarrow> print_call" where
  "shift_call op = (dasm_shift_op ! field op 11 4, [pick dasm_shift_xop op 8 3])"

definition dasm_0d_13 :: "u32 \<Rightarrow> print_call list \<times> u32" where
  "dasm_0d_13 op =
     (let h = field op 16 8; reg = pick (dasm_reg_grp ! 0) op 4 4 in
      if h = 0x0d then
        (if BIT op 12 4 = 0 then
           [(''%s = %s'', [pick (dasm_reg_grp ! field op 10 2) op 4 4, pick (dasm_reg_grp ! field op 8 2) op 0 4])]
         else [unknown op], 0)
      else if h = 0x0e then
        (if op AND 0x0080f0 = 0 then [(''%s'', [pick dasm_condition op 0 4]), shift_call op]
         else [unknown op], 0)
      else if h = 0x0f then
        (if BIT1 op 15 = 0 then
           [(dasm_shift_by_op ! field op 11 4,
             [pick dasm_shift_xop op 8 3, Num (sint (ucast op :: u8))])]
         else [unknown op], 0)
      else if h = 0x10 then
        (if BIT1 op 15 = 0 then [shift_call op, ('', %s = %s'', [reg, pick (dasm_reg_grp ! 0) op 0 4])]
         else [unknown op], 0)
      else if h = 0x11 then
        ([shift_call op,
          if BIT1 op 15 \<noteq> 0 then ('', PM(I%d,M%d) = %s'', [number (4 + BIT op 2 2), number (4 + BIT op 0 2), reg])
          else ('', %s = PM(I%d,M%d)'', [reg, number (4 + BIT op 2 2), number (4 + BIT op 0 2)])], 0)
      else
        (let temp = (if BIT1 op 16 \<noteq> 0 then 4 else 0) in
         ([shift_call op,
           if BIT1 op 15 \<noteq> 0
           then ('', DM(I%d,M%d) = %s'', [number (temp + BIT op 2 2), number (temp + BIT op 0 2), reg])
           else ('', %s = DM(I%d,M%d)'', [reg, number (temp + BIT op 2 2), number (temp + BIT op 0 2)])], 0)))"

definition dasm_14_2f :: "u32 \<Rightarrow> print_call list \<times> u32" where
  "dasm_14_2f op =
     (let h = field op 16 8 in
      if h < 0x18 then
        ([(''DO $%04X UNTIL %s'', [number (BIT op 4 14), pick dasm_do_condition op 0 4])], 0)
      else if h < 0x20 then
        ([(if BIT1 op 18 \<noteq> 0 then ''%sCALL $%04X'' else ''%sJUMP $%04X'',
           [pick dasm_condition op 0 4, number (BIT op 4 14)])],
         (if BIT1 op 18 \<noteq> 0 then STEP_OVER else 0) OR (if BIT op 0 4 \<noteq> 15 then STEP_COND else 0))
      else if h < 0x28 then
        ([(''%s'', [pick dasm_condition op 0 4]),
          if BIT1 op 4 = 0 then alumac (unat (BIT1 op 18)) op else aluconst (unat (BIT1 op 18)) op], 0)
      else if op AND 0x0600ff = 0x0200aa then ([alumac 2 op], 0)
      else
        (compute_calls (unat (BIT1 op 18)) op @
         [(''%s = %s'', [pick (dasm_reg_grp ! 0) op 4 4, pick (dasm_reg_grp ! 0) op 0 4])], 0))"

definition dasm_30_7f :: "u32 \<Rightarrow> print_call list \<times> u32" where
  "dasm_30_7f op =
     (let h = field op 16 8; reg = pick (dasm_reg_grp ! 0) op 4 4 in
      if h < 0x40 then
        ([(''%s = $%04X'', [pick (dasm_reg_grp ! field op 18 2) op 0 4, number (BIT op 4 14)])], 0)
      else if h < 0x50 then
        ([(''%s = $%04X'', [pick (dasm_reg_grp ! 0) op 0 4, number (BIT op 4 16)])], 0)
      else if h < 0x60 then
        (compute_calls (unat (BIT1 op 18)) op @
         [if BIT1 op 19 \<noteq> 0 then (''PM(I%d,M%d) = %s'', [number (4 + BIT op 2 2), number (4 + BIT op 0 2), reg])
          else (''%s = PM(I%d,M%d)'', [reg, number (4 + BIT op 2 2), number (4 + BIT op 0 2)])], 0)
      else
        (let temp = (if BIT1 op 20 \<noteq> 0 then 4 else 0) in
         (compute_calls (unat (BIT1 op 18)) op @
          [if BIT1 op 19 \<noteq> 0
           then (''DM(I%d,M%d) = %s'', [number (temp + BIT op 2 2), number (temp + BIT op 0 2), reg])
           else (''%s = DM(I%d,M%d)'', [reg, number (temp + BIT op 2 2), number (temp + BIT op 0 2)])], 0)))"

definition dasm_80_ff :: "u32 \<Rightarrow> print_call list \<times> u32" where
  "dasm_80_ff op =
     (let h = field op 16 8; reg = pick (dasm_reg_grp ! field op 18 2) op 0 4 in
      if h < 0xa0 then
        ([if BIT1 op 20 \<noteq> 0 then (''DM($%04X) = %s'', [number (BIT op 4 14), reg])
          else (''%s = DM($%04X)'', [reg, number (BIT op 4 14)])], 0)
      else if h < 0xc0 then
        (let temp = (if BIT1 op 20 \<noteq> 0 then 4 else 0) in
         ([(''DM(I%d,M%d) = $%04X'',
            [number (temp + BIT op 2 2), number (temp + BIT op 0 2), number (BIT op 4 16)])], 0))
      else
        (compute_calls 0 op @
         [(''%s = DM(I%d,M%d), %s = PM(I%d,M%d)'',
           [pick dasm_dual_xreg op 18 2, number (BIT op 2 2), number (BIT op 0 2),
            pick dasm_dual_yreg op 20 2, number (4 + BIT op 6 2), number (4 + BIT op 4 2)])], 0))"

definition dasm_calls :: "u32 \<Rightarrow> print_call list \<times> u32" where
  "dasm_calls op =
     (let h = field op 16 8 in
      if h < 0x04 then dasm_00_03 op else if h < 0x09 then dasm_04_08 op
      else if h < 0x0d then dasm_09_0c op else if h < 0x14 then dasm_0d_13 op
      else if h < 0x30 then dasm_14_2f op else if h < 0x80 then dasm_30_7f op
      else dasm_80_ff op)"

definition disassemble :: "u32 \<Rightarrow> (string \<times> u32) option" where
  "disassemble op =
     (let (calls, dasmflags) = dasm_calls op
      in map_option (\<lambda>t. (t, 1 OR dasmflags OR SUPPORTED)) (stream_calls [] calls))"

section \<open>The command line (\<open>dasm_main.cpp\<close>)\<close>

text \<open>
  The byte view of the word array (little-endian host) and \<open>data_buffer::r32\<close> on it.  \<open>main\<close> passes
  a buffer that starts at word \<open>a\<close>, and \<open>disassemble\<close> reads it at its \<open>pc\<close>, which is \<open>a\<close> again.
\<close>

definition pm_byte :: "(nat \<Rightarrow> u32) \<Rightarrow> nat \<Rightarrow> u8" where
  "pm_byte pm i = ucast (drop_bit (8 * (i mod 4)) (pm (i div 4)))"

definition r32 :: "(nat \<Rightarrow> u8) \<Rightarrow> nat \<Rightarrow> u32" where
  "r32 p a = ucast (p a) OR push_bit 8 (ucast (p (a + 1))) OR push_bit 16 (ucast (p (a + 2)))
     OR push_bit 24 (ucast (p (a + 3)))"

fun dasm_load :: "nat \<Rightarrow> u8 list \<Rightarrow> (nat \<Rightarrow> u32) \<Rightarrow> nat \<Rightarrow> u32" where
  "dasm_load a (w0 # w1 # w2 # rest) pm =
     (if a < 0x4000 then
        dasm_load (Suc a) rest
          (pm(a := ucast w0 OR push_bit 8 (ucast w1) OR push_bit 16 (ucast w2)))
      else pm)"
| "dasm_load a _ pm = pm"

text \<open>One line of the listing; \<open>None\<close> where an access leaves the array of 0x4000 words.\<close>

definition dasm_line :: "(nat \<Rightarrow> u32) \<Rightarrow> int \<Rightarrow> string option" where
  "dasm_line pm a =
     (if a < 0 \<or> 4 * a + a + 3 \<ge> 0x10000 then None
      else case disassemble (r32 (\<lambda>i. pm_byte pm (4 * nat a + i)) (nat a)) of
             None \<Rightarrow> None
           | Some (t, _) \<Rightarrow>
               printf ''%04lx: %06x  %s'' [Num a, number (pm (nat a) AND 0xffffff), Str t])"

fun dasm_lines :: "(nat \<Rightarrow> u32) \<Rightarrow> int list \<Rightarrow> string list option" where
  "dasm_lines pm [] = Some []"
| "dasm_lines pm (a # as) =
     (case dasm_line pm a of None \<Rightarrow> None | Some l \<Rightarrow> map_option ((#) l) (dasm_lines pm as))"

text \<open>Exit code and lines on standard output; \<open>argv\<close> includes the program name.\<close>

definition dasm_main :: "(string \<Rightarrow> u8 list option) \<Rightarrow> string list \<Rightarrow> (int \<times> string list) option" where
  "dasm_main files argv =
     (if length argv < 4 then Some (2, [])
      else case files (argv ! 1) of
             None \<Rightarrow> Some (1, [])
           | Some bytes \<Rightarrow>
               map_option (Pair 0)
                 (dasm_lines (dasm_load 0 bytes (\<lambda>_. 0))
                    [fst (strtol 0 (argv ! 2)) .. fst (strtol 0 (argv ! 3)) - 1]))"

section \<open>Formats and arguments\<close>

text \<open>
  Whether a format takes a string or a number where it converts one, and how long its output can be.
  An argument is small if it prints within sixteen characters.
\<close>

fun accepts :: "bool list \<Rightarrow> piece list \<Rightarrow> bool" where
  "accepts ks [] = True"
| "accepts ks (Lit c # ps) = accepts ks ps"
| "accepts (True # ks) (Conv_s # ps) = accepts ks ps"
| "accepts (False # ks) (Conv_d # ps) = accepts ks ps"
| "accepts (False # ks) (Conv_x u w # ps) = (w \<le> 16 \<and> accepts ks ps)"
| "accepts _ _ = False"

fun cost :: "piece list \<Rightarrow> nat" where
  "cost [] = 0"
| "cost (Lit c # ps) = Suc (cost ps)"
| "cost (_ # ps) = 16 + cost ps"

fun takes_string :: "arg \<Rightarrow> bool" where
  "takes_string (Str _) = True"
| "takes_string (Num _) = False"

fun small :: "arg \<Rightarrow> bool" where
  "small (Str t) = (length t \<le> 16)"
| "small (Num z) = (\<bar>z\<bar> < 2 ^ 32)"

definition suits :: "string \<Rightarrow> bool list \<Rightarrow> bool" where
  "suits fmt ks = (accepts ks (pieces fmt) \<and> cost (pieces fmt) < 256)"

lemma length_decimal: "\<bar>z\<bar> < 2 ^ 32 \<Longrightarrow> length (decimal z) \<le> 16"
  using dec.length_digits [of "nat \<bar>z\<bar>" 10 False] by (auto simp: decimal_def nat_less_iff)

lemma length_hex: "w \<le> 16 \<Longrightarrow> length (pad w (digits u 16 (of_int32 z))) \<le> 16"
proof -
  have "of_int32 z < 16 ^ 8" by (simp add: of_int32_def nat_less_iff)
  then show "w \<le> 16 \<Longrightarrow> ?thesis" using hex.length_digits [of "of_int32 z" 8 u] by (simp add: pad_def)
qed

lemma convert_small:
  assumes "accepts (takes_string a # ks) (p # ps)" "small a" "\<And>c. p \<noteq> Lit c"
  shows "\<exists>t. convert p a = Some t \<and> length t \<le> 16 \<and> accepts ks ps"
  using assms by (cases p; cases a) (auto simp: length_decimal length_hex)

lemma render_fits:
  "\<lbrakk>accepts (map takes_string as) ps; \<forall>a \<in> set as. small a\<rbrakk>
     \<Longrightarrow> \<exists>t. render ps as = Some t \<and> length t \<le> cost ps"
proof (induction ps arbitrary: as)
  case (Cons p ps)
  show ?case
  proof (cases "\<exists>c. p = Lit c")
    case False
    then obtain a as' where as: "as = a # as'" using Cons.prems(1) by (cases as; cases p) auto
    then obtain t where t: "convert p a = Some t" "length t \<le> 16" "accepts (map takes_string as') ps"
      using convert_small [of a "map takes_string as'" p ps] Cons.prems False by auto
    obtain t' where "render ps as' = Some t'" "length t' \<le> cost ps"
      using Cons.IH [OF t(3)] Cons.prems(2) as by auto
    then show ?thesis using t False as by (cases p) auto
  next
    case True
    then show ?thesis using Cons.IH [of as] Cons.prems by fastforce
  qed
qed simp

definition fits :: "print_call \<Rightarrow> bool" where
  "fits c = (\<exists>t. printf (fst c) (snd c) = Some t \<and> length t < 256)"

lemma fitsI: "\<lbrakk>suits fmt (map takes_string as); \<forall>a \<in> set as. small a\<rbrakk> \<Longrightarrow> fits (fmt, as)"
  using render_fits [of as "pieces fmt"] by (auto simp: fits_def suits_def printf_def)

lemmas dasm_tables = dasm_flag_change_def dasm_mode_change_def dasm_alu_xop_def dasm_alu_yop_def
  dasm_alu_dst_def dasm_mac_xop_def dasm_mac_yop_def dasm_mac_dst_def dasm_shift_xop_def
  dasm_reg_grp_def dasm_dual_xreg_def dasm_dual_yreg_def dasm_condition_def dasm_do_condition_def
  dasm_alumac_op_def dasm_shift_op_def dasm_shift_by_op_def dasm_constants_def

lemma alumac_ok: "\<forall>row \<in> set dasm_alumac_op. \<forall>f \<in> set row.
    suits (if take 1 f = ''!'' then drop 1 f else f) [True, True, True]"
  by (simp add: dasm_tables suits_def)

lemma shift_ok: "\<forall>f \<in> set dasm_shift_op. suits f [True]" "\<forall>f \<in> set dasm_shift_by_op. suits f [True, False]"
   "\<forall>f \<in> set dasm_flag_change. suits f [True]" "\<forall>f \<in> set dasm_mode_change. suits f [True]"
  by (simp_all add: dasm_tables suits_def)


section \<open>Every call fits its buffer\<close>

lemma BIT_mask: "BIT x n w = drop_bit n x AND mask w"
  by (simp add: BIT_def mask_eq_decr_exp push_bit_eq_mult)

lemma unat_lt_32: "unat (x :: u32) < 2 ^ 32"
  using unsigned_less [of x] by simp

lemma field_take: "field op n w = take_bit w (drop_bit n (unat op))"
  unfolding field_def BIT_mask take_bit_eq_mask [symmetric]
  by (simp add: unsigned_take_bit_eq unsigned_drop_bit_eq take_bit_nat_eq_self [OF unat_lt_32])

lemma field_less: "field op n w < 2 ^ w"
  by (simp add: field_take)

lemma field_bounds [simp]:
  "field op n 2 < 4" "field op n 3 < 8" "field op n 4 < 16" "field op n 5 < 32"
  using field_less [of op n 2] field_less [of op n 3] field_less [of op n 4]
    field_less [of op n 5] by simp_all

lemma pick_kind [simp]: "takes_string (pick t op n w)" "\<not> takes_string (number x)"
  by (simp_all add: pick_def number_def)

lemma small_number [simp]: "small (number x)"
  using uint_lt2p [of x] by (simp add: number_def)

lemma sint_u8 [simp]: "\<bar>sint (x :: u8)\<bar> < 0x100000000"
  using sint_range_size [of x] by (simp add: word_size abs_if)

lemma small_pick: "\<lbrakk>2 ^ w \<le> length table; \<forall>t \<in> set table. length t \<le> 16\<rbrakk> \<Longrightarrow> small (pick table op n w)"
  using field_less [of op n w] by (simp add: pick_def)

lemma table_lengths [simp]:
  "length dasm_flag_change = 4" "length dasm_mode_change = 4" "length dasm_alu_xop = 8"
  "length dasm_alu_yop = 4" "length dasm_alu_dst = 3" "length dasm_mac_xop = 8" "length dasm_mac_yop = 4"
  "length dasm_mac_dst = 3" "length dasm_shift_xop = 8" "length dasm_reg_grp = 4"
  "length dasm_dual_xreg = 4" "length dasm_dual_yreg = 4" "length dasm_condition = 16"
  "length dasm_do_condition = 16" "length dasm_alumac_op = 32" "length dasm_shift_op = 16"
  "length dasm_shift_by_op = 16" "length dasm_constants = 32"
  by (simp_all add: dasm_tables)

lemma table_entries:
  "\<forall>t \<in> set dasm_alu_xop. length t \<le> 16" "\<forall>t \<in> set dasm_alu_yop. length t \<le> 16"
  "\<forall>t \<in> set dasm_alu_dst. length t \<le> 16" "\<forall>t \<in> set dasm_mac_xop. length t \<le> 16"
  "\<forall>t \<in> set dasm_mac_yop. length t \<le> 16" "\<forall>t \<in> set dasm_mac_dst. length t \<le> 16"
  "\<forall>t \<in> set dasm_shift_xop. length t \<le> 16" "\<forall>t \<in> set dasm_dual_xreg. length t \<le> 16"
  "\<forall>t \<in> set dasm_dual_yreg. length t \<le> 16" "\<forall>t \<in> set dasm_condition. length t \<le> 16"
  "\<forall>t \<in> set dasm_do_condition. length t \<le> 16" "\<forall>t \<in> set dasm_constants. length t \<le> 16"
  "\<forall>g \<in> set dasm_reg_grp. length g = 16 \<and> (\<forall>t \<in> set g. length t \<le> 16)"
  "\<forall>row \<in> set dasm_alumac_op. length row = 2"
  by (simp_all add: dasm_tables)

lemma small_tables [simp]:
  "small (pick dasm_alu_xop op n 3)" "small (pick dasm_alu_yop op n 2)"
  "small (pick dasm_shift_xop op n 3)" "small (pick dasm_condition op n 4)"
  "small (pick dasm_do_condition op n 4)" "small (pick dasm_dual_xreg op n 2)"
  "small (pick dasm_dual_yreg op n 2)"
  by (simp_all add: small_pick table_entries)

lemma small_reg [simp]: "small (pick (dasm_reg_grp ! field op' m 2) op n 4)"
    "small (pick (dasm_reg_grp ! 0) op n 4)"
proof -
  have "small (pick (dasm_reg_grp ! g) op n 4)" if "g < 4" for g
    using bspec [OF table_entries(13) nth_mem, of g] that by (simp add: small_pick)
  then show "small (pick (dasm_reg_grp ! field op' m 2) op n 4)" "small (pick (dasm_reg_grp ! 0) op n 4)"
    by simp_all
qed

lemma fits_table:
  "fits (dasm_shift_op ! field op n 4, [pick dasm_shift_xop op m 3])"
  "fits (dasm_shift_by_op ! field op n 4, [pick dasm_shift_xop op m 3, Num (sint (x :: u8))])"
  "length t \<le> 16 \<Longrightarrow> fits (dasm_flag_change ! field op n 2, [Str t])"
  "length t \<le> 16 \<Longrightarrow> fits (dasm_mode_change ! field op n 2, [Str t])"
  using shift_ok by (simp_all add: fitsI)

lemma alumac_row: "of_bool b < length (dasm_alumac_op ! unat (BIT op 13 5))"
    "dasm_alumac_op ! unat (BIT op 13 5) \<in> set dasm_alumac_op"
proof -
  show "dasm_alumac_op ! unat (BIT op 13 5) \<in> set dasm_alumac_op"
    using field_less [of op 13 5] by (simp add: field_def)
  then show "of_bool b < length (dasm_alumac_op ! unat (BIT op 13 5))"
    using table_entries(14) by simp
qed

lemma constant_index: "unat (BIT op 5 3 OR push_bit 3 (BIT op 11 2)) < 32"
proof -
  have "(BIT op 5 3 OR push_bit 3 (BIT op 11 2)) AND mask 5 = BIT op 5 3 OR push_bit 3 (BIT op 11 2)"
    by (rule bit_word_eqI) (auto simp: BIT_mask bit_simps)
  then show ?thesis using unat_and_less [of "mask 5" 32 "BIT op 5 3 OR push_bit 3 (BIT op 11 2)"]
    by (simp add: mask_numeral)
qed

lemma fits_alumac [simp]: "dest < 3 \<Longrightarrow> fits (alumac dest op)" "dest < 3 \<Longrightarrow> fits (aluconst dest op)"
proof -
  let ?f = "dasm_alumac_op ! unat (BIT op 13 5) ! of_bool (BIT op 11 2 = 3)"
  have f: "suits (if take 1 ?f = ''!'' then drop 1 ?f else ?f) [True, True, True]"
    using alumac_ok alumac_row nth_mem by blast
  have e: "length (dasm_alu_xop ! field op 8 3) \<le> 16" "length (dasm_alu_yop ! field op 11 2) \<le> 16"
    "length (dasm_mac_xop ! field op 8 3) \<le> 16" "length (dasm_mac_yop ! field op 11 2) \<le> 16"
    "length (dasm_constants ! unat (BIT op 5 3 OR push_bit 3 (BIT op 11 2))) \<le> 16"
    using table_entries constant_index by simp_all
  have d: "length (dasm_alu_dst ! dest) \<le> 16" "length (dasm_mac_dst ! dest) \<le> 16" if "dest < 3"
    using that table_entries by simp_all
  show "dest < 3 \<Longrightarrow> fits (alumac dest op)"
    using f e d by (auto simp: alumac_def Let_def intro!: fitsI split: if_splits)
  show "dest < 3 \<Longrightarrow> fits (aluconst dest op)"
    using f e d by (auto simp: aluconst_def Let_def intro!: fitsI split: if_splits)
qed

lemma BIT1_bit: "BIT1 x n = of_bool (bit x n)"
  by (simp add: BIT1_def and_one_eq bit_iff_odd_drop_bit mod2_eq_if)

lemma dest_less [simp]: "unat (BIT1 op n) < 3"
  by (simp add: BIT1_bit)

lemma fits_unknown [simp]: "fits (unknown op)"
  by (simp add: unknown_def fitsI suits_def)

lemma fits_compute [simp]: "dest < 3 \<Longrightarrow> list_all fits (compute_calls dest op)"
  by (simp add: compute_calls_def fitsI suits_def)

lemma calls_fit:
  "list_all fits (fst (dasm_00_03 op))"
  "list_all fits (fst (dasm_04_08 op))"
  "list_all fits (fst (dasm_09_0c op))"
  "list_all fits (fst (dasm_0d_13 op))"
  "list_all fits (fst (dasm_14_2f op))"
  "list_all fits (fst (dasm_30_7f op))"
  "list_all fits (fst (dasm_80_ff op))"
  by (simp_all add: dasm_00_03_def dasm_04_08_def dasm_09_0c_def dasm_0d_13_def dasm_14_2f_def
      dasm_30_7f_def dasm_80_ff_def Let_def fitsI suits_def fits_table shift_call_def)


lemma dasm_calls_fit: "list_all fits (fst (dasm_calls op))"
  by (simp add: dasm_calls_def Let_def calls_fit)

lemma stream_calls_fit:
  "list_all fits cs \<Longrightarrow> \<exists>ts. list_all2 (\<lambda>c t. printf (fst c) (snd c) = Some t \<and> length t < 256) cs ts \<and>
     stream_calls stream cs = Some (stream @ concat ts)"
proof (induction cs arbitrary: stream)
  case (Cons c cs)
  obtain t where t: "printf (fst c) (snd c) = Some t" "length t < 256"
    using Cons.prems by (auto simp: fits_def)
  obtain ts where "list_all2 (\<lambda>c t. printf (fst c) (snd c) = Some t \<and> length t < 256) cs ts"
    "stream_calls (stream @ t) cs = Some ((stream @ t) @ concat ts)"
    using Cons.IH [of "stream @ t"] Cons.prems by auto
  then show ?case using t
    by (intro exI [of _ "t # ts"]) (cases c, simp add: stream_format_def)
qed simp

lemma disassemble_defined: "\<exists>t f. disassemble op = Some (t, f)"
  using stream_calls_fit [OF dasm_calls_fit, of op "[]"]
  by (auto simp: disassemble_def case_prod_beta)

text \<open>
  C19. The disassembler is total and loses nothing.  For every 32-bit word each \<^verbatim>\<open>stream_format\<close> call
  has arguments of the types its format converts, its output fits the 256-byte buffer untruncated,
  and the text is the concatenation of those outputs.
\<close>

theorem disassemble_total:
  "\<exists>ts. list_all2 (\<lambda>c t. printf (fst c) (snd c) = Some t \<and> length t < 256) (fst (dasm_calls op)) ts \<and>
     disassemble op = Some (concat ts, 1 OR snd (dasm_calls op) OR SUPPORTED)"
  using stream_calls_fit [OF dasm_calls_fit, of op "[]"]
  by (simp add: disassemble_def case_prod_beta)

end
