(* ===== verification/Listing.thy ===== *)
theory Listing
  imports Dasm Execute
begin

text \<open>
  What a listing says.  For immediate loads, direct data moves, jumps and loops the text determines
  the instruction word; mode control is compared with what the core does; and two places where the
  listing misleads are pinned down: constants from 0x1000 up and the address the command line reads.
\<close>

section \<open>Fields and bits\<close>

lemma bit_BIT: "bit (BIT x n w) k \<longleftrightarrow> k < w \<and> bit x (n + k)"
  by (auto simp: BIT_mask bit_simps dest: bit_imp_le_length)

lemma BIT_bits: "\<lbrakk>BIT x n w = BIT y n w; n \<le> k; k < n + w\<rbrakk> \<Longrightarrow> bit x k = bit y k"
  using bit_BIT [of x n w "k - n"] bit_BIT [of y n w "k - n"] by auto

lemma field_BIT: "field x n w = field y n w \<longleftrightarrow> BIT x n w = BIT y n w"
  by (simp add: field_def word_unat_eq_iff)

lemma field_div: "field op n w = unat op div 2 ^ n mod 2 ^ w"
  by (simp add: field_take drop_bit_eq_div take_bit_eq_mod)

lemma top_field: "n + w = 32 \<Longrightarrow> field op n w = unat op div 2 ^ n"
  using unat_lt_32 [of op] by (simp add: field_div less_mult_imp_div_less flip: power_add add: add.commute)

text \<open>Equal fields that together cover the word make equal words.\<close>

lemma word_from_fields:
  assumes "BIT x 0 4 = BIT y 0 4" "BIT x 4 w = BIT y 4 w" "BIT x (4 + w) (28 - w) = BIT y (4 + w) (28 - w)"
    "w \<le> 28"
  shows "x = (y :: u32)"
proof (rule bit_word_eqI)
  fix k assume "k < LENGTH(32)"
  then consider "k < 4" | "4 \<le> k \<and> k < 4 + w" | "4 + w \<le> k \<and> k < 4 + w + (28 - w)" using assms(4) by force
  then show "bit x k = bit y k"
    using BIT_bits [OF assms(1)] BIT_bits [OF assms(2)] BIT_bits [OF assms(3)] by cases auto
qed

section \<open>Texts of single calls\<close>

definition hex4 :: "u32 \<Rightarrow> string" where
  "hex4 v = pad 4 (digits True 16 (unat v))"

lemma of_int32_uint [simp]: "of_int32 (uint (v :: u32)) = unat v"
  using uint_lt2p [of v] by (simp add: of_int32_def)

lemma length_hex4: "unat v < 0x10000 \<Longrightarrow> length (hex4 v) = 4"
  using hex.length_digits [of "unat v" 4 True] by (simp add: hex4_def pad_def)

lemma hex4_inj: "hex4 v = hex4 v' \<Longrightarrow> v = v'"
  using hex.pad_digits_inj [of 4 True "unat v" "unat v'"] by (simp add: hex4_def word_unat_eq_iff)

lemma unat_BIT: "unat (BIT op n w) = field op n w"
  by (simp add: field_def)

lemma hex4_field: "w \<le> 16 \<Longrightarrow> length (hex4 (BIT op n w)) = 4"
  using length_hex4 [of "BIT op n w"] field_less [of op n w] power_increasing [of w 16 "2::nat"]
  by (simp add: unat_BIT)

lemma disassemble_one:
  assumes "dasm_calls op = ([(fmt, as)], fl)" "printf fmt as = Some t"
  shows "map_option fst (disassemble op) = Some t"
  using dasm_calls_fit [of op] assms by (auto simp: disassemble_def stream_format_def fits_def)


section \<open>Texts of the instructions with one operand field\<close>

definition register_name :: "u32 \<Rightarrow> string" where
  "register_name op = dasm_reg_grp ! field op 18 2 ! field op 0 4"

lemma texts:
  "BIT op 20 12 = 4 \<Longrightarrow> map_option fst (disassemble op) =
     Some (dasm_reg_grp ! 0 ! field op 0 4 @ '' = $'' @ hex4 (BIT op 4 16))"
  "\<lbrakk>BIT op 21 11 = 4; BIT1 op 20 \<noteq> 0\<rbrakk> \<Longrightarrow> map_option fst (disassemble op) =
     Some (''DM($'' @ hex4 (BIT op 4 14) @ '') = '' @ register_name op)"
  "\<lbrakk>BIT op 21 11 = 4; BIT1 op 20 = 0\<rbrakk> \<Longrightarrow> map_option fst (disassemble op) =
     Some (register_name op @ '' = DM($'' @ hex4 (BIT op 4 14) @ '')'')"
  "BIT op 19 13 = 3 \<Longrightarrow> map_option fst (disassemble op) =
     Some (dasm_condition ! field op 0 4 @ (if BIT1 op 18 \<noteq> 0 then ''CALL $'' else ''JUMP $'') @
           hex4 (BIT op 4 14))"
  "BIT op 18 14 = 5 \<Longrightarrow> map_option fst (disassemble op) =
     Some (''DO $'' @ hex4 (BIT op 4 14) @ '' UNTIL '' @ dasm_do_condition ! field op 0 4)"
  "BIT op 20 12 = 3 \<Longrightarrow> map_option fst (disassemble op) =
     Some (register_name op @ '' = $'' @ hex4 (BIT op 4 14))"
proof -
  note defs = dasm_calls_def dasm_14_2f_def dasm_30_7f_def dasm_80_ff_def Let_def printf_def pick_def
    number_def register_name_def hex4_def
  show "map_option fst (disassemble op) =
     Some (dasm_reg_grp ! 0 ! field op 0 4 @ '' = $'' @ hex4 (BIT op 4 16))" if "BIT op 20 12 = 4"
  proof -
    have "unat op div 2 ^ 20 = 4" using that top_field [of 20 12 op] by (simp add: field_def)
    then have "64 \<le> field op 16 8" "field op 16 8 < 80" by (auto simp: field_div)
    then show ?thesis by (intro disassemble_one) (auto simp: defs)
  qed
  {
    assume "BIT op 21 11 = 4"
    then have "unat op div 2 ^ 21 = 4" using top_field [of 21 11 op] by (simp add: field_def)
    then have h: "128 \<le> field op 16 8" "field op 16 8 < 160" by (auto simp: field_div)
    show "map_option fst (disassemble op) =
     Some (''DM($'' @ hex4 (BIT op 4 14) @ '') = '' @ register_name op)" if "BIT1 op 20 \<noteq> 0"
      using h that by (intro disassemble_one) (auto simp: defs)
    show "map_option fst (disassemble op) =
     Some (register_name op @ '' = DM($'' @ hex4 (BIT op 4 14) @ '')'')" if "BIT1 op 20 = 0"
      using h that by (intro disassemble_one) (auto simp: defs)
  }
  show "map_option fst (disassemble op) =
     Some (dasm_condition ! field op 0 4 @ (if BIT1 op 18 \<noteq> 0 then ''CALL $'' else ''JUMP $'') @
           hex4 (BIT op 4 14))" if "BIT op 19 13 = 3"
  proof -
    have "unat op div 2 ^ 19 = 3" using that top_field [of 19 13 op] by (simp add: field_def)
    then have "24 \<le> field op 16 8" "field op 16 8 < 32" by (auto simp: field_div)
    then show ?thesis by (intro disassemble_one) (auto simp: defs)
  qed
  show "map_option fst (disassemble op) =
     Some (''DO $'' @ hex4 (BIT op 4 14) @ '' UNTIL '' @ dasm_do_condition ! field op 0 4)" if "BIT op 18 14 = 5"
  proof -
    have "unat op div 2 ^ 18 = 5" using that top_field [of 18 14 op] by (simp add: field_def)
    then have "20 \<le> field op 16 8" "field op 16 8 < 24" by (auto simp: field_div)
    then show ?thesis by (intro disassemble_one) (auto simp: defs)
  qed
  show "map_option fst (disassemble op) = Some (register_name op @ '' = $'' @ hex4 (BIT op 4 14))"
    if "BIT op 20 12 = 3"
  proof -
    have "unat op div 2 ^ 20 = 3" using that top_field [of 20 12 op] by (simp add: field_def)
    then have "48 \<le> field op 16 8" "field op 16 8 < 64" by (auto simp: field_div)
    then show ?thesis by (intro disassemble_one) (auto simp: defs)
  qed
qed

section \<open>Names\<close>

lemma distinct_filter_nth:
  "\<lbrakk>distinct (filter P xs); i < length xs; j < length xs; xs ! i = xs ! j; P (xs ! i)\<rbrakk> \<Longrightarrow> i = j"
proof (induction xs arbitrary: i j)
  case (Cons x xs)
  have head: "\<not> P x" if "k < length xs" "xs ! k = x" for k
    using Cons.prems(1) that by (auto split: if_splits simp: in_set_conv_nth)
  show ?case using Cons.prems Cons.IH [of "i - 1" "j - 1"] head [of "i - 1"] head [of "j - 1"]
    by (cases i; cases j) (auto split: if_splits)
qed simp

lemma concat_nth: "\<lbrakk>\<forall>x \<in> set xss. length x = n; g < length xss; r < n\<rbrakk> \<Longrightarrow> concat xss ! (g * n + r) = xss ! g ! r"
proof (induction xss arbitrary: g)
  case (Cons xs xss)
  then show ?case by (cases g) (auto simp: nth_append)
qed simp

lemma names_distinct: "distinct (filter (\<lambda>t. t \<noteq> ''??'') (concat dasm_reg_grp))"
  "distinct dasm_condition" "distinct dasm_do_condition" "distinct (dasm_reg_grp ! 0)"
  by (simp_all add: dasm_tables)


lemma reg_grp_lengths: "\<forall>g \<in> set dasm_reg_grp. length g = 16" "length (dasm_reg_grp ! 0) = 16"
  using table_entries(13) by simp_all

lemma register_name_inj:
  assumes "register_name op = register_name op'" "register_name op \<noteq> ''??''"
  shows "BIT op 18 2 = BIT op' 18 2" "BIT op 0 4 = BIT op' 0 4"
proof -
  define i where "i o' = field o' 18 2 * 16 + field o' 0 4" for o'
  have n: "concat dasm_reg_grp ! i x = register_name x" for x
    unfolding i_def register_name_def by (rule concat_nth) (simp_all add: reg_grp_lengths)
  have "length (concat dasm_reg_grp) = 64" by (simp add: dasm_tables)
  moreover have "i x < 64" for x
    using field_bounds(1) [of x 18] field_bounds(3) [of x 0] unfolding i_def by linarith
  ultimately have "i op = i op'"
    using assms n by (intro distinct_filter_nth [OF names_distinct(1)]) simp_all
  moreover have "i x div 16 = field x 18 2" "i x mod 16 = field x 0 4" for x
    by (simp_all add: i_def)
  ultimately have "field op 18 2 = field op' 18 2 \<and> field op 0 4 = field op' 0 4" by metis
  then show "BIT op 18 2 = BIT op' 18 2" "BIT op 0 4 = BIT op' 0 4" by (simp_all add: field_BIT)
qed

lemma register_name_last: "register_name op \<noteq> []" "last (register_name op) \<noteq> CHR '')''"
proof -
  have "\<forall>g \<in> set dasm_reg_grp. \<forall>t \<in> set g. t \<noteq> [] \<and> last t \<noteq> CHR '')''" by (simp add: dasm_tables)
  moreover have "dasm_reg_grp ! field op 18 2 \<in> set dasm_reg_grp"
    "register_name op \<in> set (dasm_reg_grp ! field op 18 2)"
    using reg_grp_lengths(1) by (simp_all add: register_name_def)
  ultimately show "register_name op \<noteq> []" "last (register_name op) \<noteq> CHR '')''" by blast+
qed

lemma nth_names_inj:
  assumes "distinct xs" "16 \<le> length xs" "xs ! field x n 4 = xs ! field y n 4"
  shows "BIT x n 4 = BIT y n 4"
  using assms field_bounds(3) [of x n] field_bounds(3) [of y n]
  by (simp add: nth_eq_iff_index_eq field_BIT)

text \<open>
  The instructions whose text determines them: immediate loads of data registers (0x4xxxxx), direct
  data moves (0x8xxxxx, 0x9xxxxx) of a register that has a name, direct jumps and calls (0x18 to 0x1f),
  loops (0x14 to 0x17) and immediate loads of any register that has a name (0x3xxxxx).
\<close>

definition listing_class :: "u32 \<Rightarrow> nat" where
  "listing_class op =
     (if BIT op 20 12 = 4 then 1
      else if BIT op 21 11 = 4 \<and> register_name op \<noteq> ''??'' then 2
      else if BIT op 19 13 = 3 then 3
      else if BIT op 18 14 = 5 then 4
      else if BIT op 20 12 = 3 \<and> register_name op \<noteq> ''??'' then 5 else 0)"

lemma direct_from_fields:
  assumes "BIT op 21 11 = BIT op' 21 11" "BIT1 op 20 = BIT1 op' 20" "BIT op 18 2 = BIT op' 18 2"
    "BIT op 4 14 = BIT op' 4 14" "BIT op 0 4 = BIT op' 0 4"
  shows "op = op'"
proof (rule bit_word_eqI)
  fix k assume "k < LENGTH(32)"
  then consider "k < 4" | "4 \<le> k \<and> k < 18" | "18 \<le> k \<and> k < 20" | "k = 20" | "21 \<le> k \<and> k < 32" by force
  then show "bit op k = bit op' k" using assms(2)
      BIT_bits [OF assms(1)] BIT_bits [OF assms(3)] BIT_bits [OF assms(4)] BIT_bits [OF assms(5)]
    by cases (auto simp: BIT1_bit)
qed

lemma direct_last:
  "BIT op 21 11 = 4 \<Longrightarrow> last (the (map_option fst (disassemble op))) = CHR '')'' \<longleftrightarrow> BIT1 op 20 = 0"
  using register_name_last [of op] by (cases "BIT1 op 20 = 0") (simp_all add: texts(2,3))

lemma direct_determined:
  assumes c: "BIT op 21 11 = 4" "BIT op' 21 11 = 4" "register_name op \<noteq> ''??''"
    and t: "map_option fst (disassemble op) = map_option fst (disassemble op')"
  shows "op = op'"
proof -
  note h = hex4_field [of 14 op 4] hex4_field [of 14 op' 4]
  have d: "BIT1 op 20 = 0 \<longleftrightarrow> BIT1 op' 20 = 0"
    using direct_last [OF c(1)] direct_last [OF c(2)] t by simp
  have e: "register_name op = register_name op' \<and> hex4 (BIT op 4 14) = hex4 (BIT op' 4 14)"
  proof (cases "BIT1 op 20 = 0")
    case True
    then show ?thesis using t d h by (simp add: texts(3) [OF c(1)] texts(3) [OF c(2)])
  next
    case False
    then show ?thesis using t d h by (simp add: texts(2) [OF c(1)] texts(2) [OF c(2)])
  qed
  have b: "BIT1 op 20 = BIT1 op' 20" using d by (simp add: BIT1_bit)
  have r: "BIT op 18 2 = BIT op' 18 2" "BIT op 0 4 = BIT op' 0 4"
    using e c(3) by (blast intro: register_name_inj)+
  show ?thesis by (rule direct_from_fields [OF _ b r(1) hex4_inj r(2)]) (use c e in simp_all)
qed

lemma jump_determined:
  assumes "map_option fst (disassemble op) = map_option fst (disassemble op')"
    and c: "BIT op 19 13 = 3" "BIT op' 19 13 = 3"
  shows "op = op'"
proof -
  have e: "dasm_condition ! field op 0 4 = dasm_condition ! field op' 0 4" "BIT1 op 18 = BIT1 op' 18"
    "hex4 (BIT op 4 14) = hex4 (BIT op' 4 14)"
    using assms(1) texts(4) [OF c(1)] texts(4) [OF c(2)] hex4_field [of 14 op 4] hex4_field [of 14 op' 4]
    by (auto simp: BIT1_bit split: if_splits)
  have "BIT op 18 14 = BIT op' 18 14"
  proof (rule bit_word_eqI)
    fix k assume "k < LENGTH(32)"
    show "bit (BIT op 18 14) k = bit (BIT op' 18 14) k"
      using e(2) BIT_bits [of op 19 13 op' "18 + k"] c
      by (cases k) (auto simp: bit_BIT BIT1_bit)
  qed
  moreover have "BIT op 0 4 = BIT op' 0 4"
    by (rule nth_names_inj [OF names_distinct(2) _ e(1)]) simp
  ultimately show ?thesis using hex4_inj [OF e(3)] by (intro word_from_fields [of op op' 14]) simp_all
qed

lemma load_determined:
  assumes t: "map_option fst (disassemble op) = map_option fst (disassemble op')"
    and c: "BIT op 20 12 = 3" "BIT op' 20 12 = 3" "register_name op \<noteq> ''??''"
  shows "op = op'"
proof -
  have e: "register_name op = register_name op'" "hex4 (BIT op 4 14) = hex4 (BIT op' 4 14)"
    using t texts(6) [OF c(1)] texts(6) [OF c(2)] hex4_field [of 14 op 4] hex4_field [of 14 op' 4]
    by simp_all
  have b: "bit op k = bit op' k" if "20 \<le> k" "k < 32" for k
    using BIT_bits [of op 20 12 op' k] c that by simp
  have top: "BIT op 21 11 = BIT op' 21 11" "BIT1 op 20 = BIT1 op' 20"
    using b by (auto simp: BIT1_bit bit_BIT intro!: bit_word_eqI)
  show ?thesis
    by (rule direct_from_fields [OF top register_name_inj(1) [OF e(1) c(3)] hex4_inj [OF e(2)]
          register_name_inj(2) [OF e(1) c(3)]])
qed

text \<open>
  C20. A listing line determines the instruction within its class.  Two different words that are both
  immediate loads of a data register (0x4xxxxx), both immediate loads of a named register (0x3xxxxx),
  both direct data moves of a named register (0x8xxxxx and 0x9xxxxx), both direct jumps or calls (0x18
  to 0x1f), or both loops (0x14 to 0x17) are listed with different texts.  Registers without a name
  (listed as \<^verbatim>\<open>??\<close>) and indirect jumps (0x0b), whose unused bits are not listed, are outside the
  classes.
\<close>

theorem listing_determines_word:
  assumes "listing_class op = listing_class op'" "listing_class op \<noteq> 0" "op \<noteq> op'"
  shows "map_option fst (disassemble op) \<noteq> map_option fst (disassemble op')"
proof
  assume t: "map_option fst (disassemble op) = map_option fst (disassemble op')"
  consider "BIT op 20 12 = 4" "BIT op' 20 12 = 4"
    | "BIT op 21 11 = 4" "BIT op' 21 11 = 4" "register_name op \<noteq> ''??''"
    | "BIT op 19 13 = 3" "BIT op' 19 13 = 3" | "BIT op 18 14 = 5" "BIT op' 18 14 = 5"
    | "BIT op 20 12 = 3" "BIT op' 20 12 = 3" "register_name op \<noteq> ''??''"
    using assms(1,2) by (auto simp: listing_class_def split: if_splits)
  then have "op = op'"
  proof cases
    case 1
    have e: "dasm_reg_grp ! 0 ! field op 0 4 = dasm_reg_grp ! 0 ! field op' 0 4"
      "hex4 (BIT op 4 16) = hex4 (BIT op' 4 16)"
      using t texts(1) [OF 1(1)] texts(1) [OF 1(2)] hex4_field [of 16 op 4] hex4_field [of 16 op' 4]
      by simp_all
    have "BIT op 0 4 = BIT op' 0 4"
      by (rule nth_names_inj [OF names_distinct(4) _ e(1)]) (simp add: reg_grp_lengths)
    then show ?thesis using 1 hex4_inj [OF e(2)] by (intro word_from_fields [of op op' 16]) simp_all
  next
    case 2
    then show ?thesis using direct_determined t by blast
  next
    case 3
    then show ?thesis using jump_determined t by blast
  next
    case 4
    have e: "dasm_do_condition ! field op 0 4 = dasm_do_condition ! field op' 0 4"
      "hex4 (BIT op 4 14) = hex4 (BIT op' 4 14)"
      using t texts(5) [OF 4(1)] texts(5) [OF 4(2)] hex4_field [of 14 op 4] hex4_field [of 14 op' 4]
      by simp_all
    have "BIT op 0 4 = BIT op' 0 4"
      by (rule nth_names_inj [OF names_distinct(3) _ e(1)]) simp
    then show ?thesis using 4 hex4_inj [OF e(2)] by (intro word_from_fields [of op op' 14]) simp_all
  next
    case 5
    then show ?thesis using load_determined t by blast
  qed
  then show False using assms(3) by simp
qed

theorem listing_determines_word_witness:
  "listing_class 0x930001 = 2 \<and> listing_class 0x830001 = 2 \<and>
     map_option fst (disassemble 0x930001) \<noteq> map_option fst (disassemble 0x830001)"
proof -
  have "listing_class 0x930001 = 2" "listing_class 0x830001 = 2"
    by (simp_all add: listing_class_def BIT_def register_name_def field_def dasm_reg_grp_def)
  then show ?thesis using listing_determines_word [of "0x930001" "0x830001"] by simp
qed

section \<open>Mode control\<close>

text \<open>The seven modes: name, position of the two bits in the instruction, bit of MSTAT.\<close>

definition modes :: "(string \<times> nat \<times> nat) list" where
  "modes = [(''SEC_REG'', 4, 0), (''BIT_REV'', 6, 1), (''AV_LATCH'', 8, 2), (''AR_SAT'', 10, 3),
     (''M_MODE'', 12, 4), (''TIMER'', 14, 5)]"

definition mode_text :: "u32 \<Rightarrow> string \<Rightarrow> nat \<Rightarrow> string" where
  "mode_text op name n = the (printf (dasm_mode_change ! field op n 2) [Str name])"

lemma mode_texts: "mode_text op name n =
   (if field op n 2 = 3 then ''ENA '' @ name @ '' '' else if field op n 2 = 2 then ''DIS '' @ name @ '' '' else [])"
proof -
  have "field op n 2 = 0 \<or> field op n 2 = 1 \<or> field op n 2 = 2 \<or> field op n 2 = 3"
    using field_bounds(1) [of op n] by presburger
  then show ?thesis by (elim disjE) (simp_all add: mode_text_def dasm_mode_change_def printf_def)
qed

lemma field2: "field op n 2 = 2 * of_bool (bit op (Suc n)) + of_bool (bit op n)"
proof -
  define y where "y = unat op div 2 ^ n"
  have b: "bit op k \<longleftrightarrow> odd (unat op div 2 ^ k)" for k
    using bit_unsigned_iff [of op k, where ?'a = nat] by (auto simp: bit_iff_odd dest: bit_imp_le_length)
  have "bit op n = odd y" "bit op (Suc n) = odd (y div 2)"
    by (simp_all only: b y_def power_Suc2 div_mult2_eq)
  moreover have "y mod 4 = 2 * of_bool (odd (y div 2)) + of_bool (odd y)"
    by (cases "odd y"; cases "odd (y div 2)"; simp; presburger)
  ultimately show ?thesis by (simp add: field_div y_def)
qed

lemma mode_read:
  "(if mode_text op name n = ''ENA '' @ name @ '' '' then True
    else if mode_text op name n = ''DIS '' @ name @ '' '' then False else x) =
     (if bit op (Suc n) then bit op n else x)"
  "mode_text op name n \<noteq> [] \<longleftrightarrow> bit op (Suc n)"
  by (cases "bit op (Suc n)"; cases "bit op n"; simp add: mode_texts field2)+

lemma bit_put_mode:
  "bit (put_mode op sel (2 ^ k) v m) j =
     (if op AND sel \<noteq> 0 \<and> j = k then bit v k else bit m j)" if "k < 32"
  using that by (auto simp: put_mode_def bit_simps dest: bit_imp_le_length)

text \<open>
  C21. Mode control: core and listing agree on six modes, not on go mode.  For a mode-control
  instruction, each of secondary registers, bit reversal, overflow latch, saturation, integer
  multiplication and timer is set if the listing says ENA, cleared if it says DIS and kept if it is
  not mentioned.  For go mode the core takes the new value from bit 1 of the instruction instead of
  the ENA/DIS bit 2, so \<^verbatim>\<open>ENA G_MODE\<close> (0x0c000c) clears it.
\<close>

theorem mode_control_agrees:
  assumes chip: "chip_type s \<ge> 1" and op: "drop_bit 16 op = 0x0c"
  shows "exec_op s op = Some (exec_mode s op) \<and>
    fst (dasm_calls op) = map (\<lambda>(name, n, k). (dasm_mode_change ! field op n 2, [Str name])) modes @
        [(dasm_mode_change ! field op 2 2, [Str ''G_MODE''])] \<and>
    (\<forall>(name, n, k) \<in> set modes. bit (mstat (exec_mode s op)) k =
        (if mode_text op name n = ''ENA '' @ name @ '' '' then True
         else if mode_text op name n = ''DIS '' @ name @ '' '' then False else bit (mstat s) k)) \<and>
    (mode_text op ''G_MODE'' 2 \<noteq> [] \<longrightarrow> bit (mstat (exec_mode s op)) 6 = bit op 1)"
proof (intro conjI)
  show "exec_op s op = Some (exec_mode s op)" using op by (simp add: exec_op_def exec_00_0f_def)
  have "field op 16 8 = 12" using op by (simp add: field_def BIT_def)
  then show "fst (dasm_calls op) = map (\<lambda>(name, n, k). (dasm_mode_change ! field op n 2, [Str name])) modes @
        [(dasm_mode_change ! field op 2 2, [Str ''G_MODE''])]"
    by (simp add: dasm_calls_def dasm_09_0c_def modes_def)
  have sel: "op AND 0x0008 \<noteq> 0 \<longleftrightarrow> bit op 3" "op AND 0x0020 \<noteq> 0 \<longleftrightarrow> bit op 5" "op AND 0x0080 \<noteq> 0 \<longleftrightarrow> bit op 7"
    "op AND 0x0200 \<noteq> 0 \<longleftrightarrow> bit op 9" "op AND 0x0800 \<noteq> 0 \<longleftrightarrow> bit op 11" "op AND 0x2000 \<noteq> 0 \<longleftrightarrow> bit op 13"
    "op AND 0x8000 \<noteq> 0 \<longleftrightarrow> bit op 15"
    using and_power_test [of 3 op] and_power_test [of 5 op] and_power_test [of 7 op] and_power_test [of 9 op]
      and_power_test [of 11 op] and_power_test [of 13 op] and_power_test [of 15 op] by simp_all
  have m: "mstat (update_mstat t) = mstat t" for t by (simp add: update_mstat_def Let_def)
  have put: "bit (put_mode op 0x20 1 v w) k = (if bit op 5 \<and> k = 0 then bit v 0 else bit w k)"
    "bit (put_mode op 0x80 2 v w) k = (if bit op 7 \<and> k = 1 then bit v 1 else bit w k)"
    "bit (put_mode op 0x200 4 v w) k = (if bit op 9 \<and> k = 2 then bit v 2 else bit w k)"
    "bit (put_mode op 0x800 8 v w) k = (if bit op 11 \<and> k = 3 then bit v 3 else bit w k)"
    "bit (put_mode op 0x2000 16 v w) k = (if bit op 13 \<and> k = 4 then bit v 4 else bit w k)"
    "bit (put_mode op 0x8000 32 v w) k = (if bit op 15 \<and> k = 5 then bit v 5 else bit w k)"
    "bit (put_mode op 0x8 64 v w) k = (if bit op 3 \<and> k = 6 then bit v 6 else bit w k)" for v w k
    using bit_put_mode [of 0 op "0x20" v w k] bit_put_mode [of 1 op "0x80" v w k]
      bit_put_mode [of 2 op "0x200" v w k] bit_put_mode [of 3 op "0x800" v w k]
      bit_put_mode [of 4 op "0x2000" v w k] bit_put_mode [of 5 op "0x8000" v w k]
      bit_put_mode [of 6 op "0x8" v w k] sel by simp_all
  have b: "bit (mstat (exec_mode s op)) k =
     (if k = 0 \<and> bit op 5 then bit op 4 else if k = 1 \<and> bit op 7 then bit op 6
      else if k = 2 \<and> bit op 9 then bit op 8 else if k = 3 \<and> bit op 11 then bit op 10
      else if k = 4 \<and> bit op 13 then bit op 12 else if k = 5 \<and> bit op 15 then bit op 14
      else if k = 6 \<and> bit op 3 then bit op 1 else bit (mstat s) k)" for k
    using chip by (simp add: exec_mode_def Let_def m put del: One_nat_def) (simp add: bit_simps)
  show "\<forall>(name, n, k) \<in> set modes. bit (mstat (exec_mode s op)) k =
        (if mode_text op name n = ''ENA '' @ name @ '' '' then True
         else if mode_text op name n = ''DIS '' @ name @ '' '' then False else bit (mstat s) k)"
    unfolding mode_read by (simp add: modes_def b)
  show "mode_text op ''G_MODE'' 2 \<noteq> [] \<longrightarrow> bit (mstat (exec_mode s op)) 6 = bit op 1"
    unfolding mode_read by (simp add: b)
qed


theorem mode_control_agrees_witness:
  "exec_op (adsp2181_zero\<lparr>chip_type := 5\<rparr>) 0x0c000c = Some (exec_mode (adsp2181_zero\<lparr>chip_type := 5\<rparr>) 0x0c000c)"
  using mode_control_agrees [of "adsp2181_zero\<lparr>chip_type := 5\<rparr>" "0x0c000c"] by simp


section \<open>Where the listing misleads\<close>

lemma disassemble_two:
  assumes "dasm_calls op = ([(f, as), (g, bs)], fl)" "printf f as = Some t" "printf g bs = Some u"
  shows "map_option fst (disassemble op) = Some (t @ u)"
  using dasm_calls_fit [of op] assms by (auto simp: disassemble_def stream_format_def fits_def)

lemma constant_names: "dasm_constants = map (\<lambda>c. CHR ''$'' # hex4 c) alu_constants"
  by (simp add: dasm_constants_def alu_constants_def hex4_def digits.simps digit_char_def pad_def)
    (simp add: numeral_3_eq_3 numeral_2_eq_2)

lemma constant_index_eq: "BIT op 5 3 OR push_bit 3 (BIT op 11 2) = (drop_bit 5 op AND 7) OR (drop_bit 8 op AND 0x18)"
proof -
  have "BIT op 5 3 = drop_bit 5 op AND 7" by (simp add: BIT_def)
  moreover have "push_bit 3 (BIT op 11 2) = drop_bit 8 op AND push_bit 3 (mask 2)"
    by (rule bit_word_eqI) (auto simp: BIT_mask bit_simps)
  ultimately show ?thesis by (simp add: mask_numeral)
qed

lemma constant_text: "dasm_constants ! unat (BIT op 5 3 OR push_bit 3 (BIT op 11 2)) = CHR ''$'' # hex4 (alu_const op)"
proof -
  have "length alu_constants = 32" by (simp add: alu_constants_def)
  then show ?thesis using constant_index [of op] unfolding constant_names
    by (simp add: alu_const_def constant_index_eq)
qed

text \<open>
  Additions of a constant.  The constant the listing names is the one the core adds, except that a
  constant from 0x1000 up (selector bits 11 and 12 both set) is not listed at all: the instruction
  looks like a plain register move.
\<close>

theorem constant_listing:
  assumes "BIT op 19 13 = 4" "BIT1 op 4 \<noteq> 0" "BIT op 13 5 = 19"
  shows "map_option fst (disassemble op) =
    Some (dasm_condition ! field op 0 4 @ dasm_alu_dst ! unat (BIT1 op 18) @ '' = '' @ dasm_alu_xop ! field op 8 3 @
      (if BIT op 11 2 = 3 then [] else '' + $'' @ hex4 (alu_const op)))"
proof -
  have "unat op div 2 ^ 19 = 4" using assms(1) top_field [of 19 13 op] by (simp add: field_def)
  then have h: "32 \<le> field op 16 8" "field op 16 8 < 40" by (auto simp: field_div)
  have "BIT1 (19 :: u32) 4 \<noteq> 0" by (simp add: BIT1_def)
  then have "aluconst d op =
    (if BIT op 11 2 = 3 then (''%s = %s'', [Str (dasm_alu_dst ! d), Str (dasm_alu_xop ! field op 8 3),
        Str (CHR ''$'' # hex4 (alu_const op))])
     else (''%s = %s + %s'', [Str (dasm_alu_dst ! d), Str (dasm_alu_xop ! field op 8 3),
        Str (CHR ''$'' # hex4 (alu_const op))]))" for d
    using constant_text [of op] by (auto simp: aluconst_def assms(3) Let_def dasm_alumac_op_def)
  moreover have "dasm_calls op =
      ([(''%s'', [pick dasm_condition op 0 4]), aluconst (unat (BIT1 op 18)) op], 0)"
    using h assms(2) by (simp add: dasm_calls_def dasm_14_2f_def)
  ultimately show ?thesis
    using disassemble_two [of op "''%s''" "[pick dasm_condition op 0 4]"]
    by (simp add: printf_def pick_def)
qed

theorem constant_listing_witness:
  "map_option fst (disassemble 0x22781f) = Some ''AR = AX0'' \<and> alu_const 0x22781f = 0x1000 \<and>
   map_option fst (disassemble 0x22785f) = Some ''AR = AX0'' \<and> alu_const 0x22785f = 0x2000"
  using constant_listing [of "0x22781f"] constant_listing [of "0x22785f"]
  by (simp add: BIT_def BIT1_def field_def dasm_condition_def dasm_alu_dst_def dasm_alu_xop_def
      alu_const_def alu_constants_def)

lemma bytes_of_word:
  "ucast (ucast x :: u8) OR push_bit 8 (ucast (ucast (drop_bit 8 x) :: u8)) OR
     push_bit 16 (ucast (ucast (drop_bit 16 x) :: u8)) OR push_bit 24 (ucast (ucast (drop_bit 24 x) :: u8)) = (x :: u32)"
proof (rule bit_word_eqI)
  fix k assume "k < LENGTH(32)"
  then have "k div 8 = 0 \<or> k div 8 = 1 \<or> k div 8 = 2 \<or> k div 8 = 3" by auto
  moreover obtain j where "k = k div 8 * 8 + j" "j < 8"
    using that [of "k mod 8"] by simp
  ultimately have "j < 8" "k = j \<or> k = 8 + j \<or> k = 16 + j \<or> k = 24 + j" by auto
  then show "bit (ucast (ucast x :: u8) OR push_bit 8 (ucast (ucast (drop_bit 8 x) :: u8)) OR
     push_bit 16 (ucast (ucast (drop_bit 16 x) :: u8)) OR push_bit 24 (ucast (ucast (drop_bit 24 x) :: u8)) :: u32) k = bit x k"
    by (elim disjE) (simp_all add: bit_or_iff bit_push_bit_iff bit_ucast_iff bit_drop_bit_eq)
qed

lemma r32_word: "r32 (\<lambda>i. pm_byte pm (4 * n + i)) (4 * m) = pm (n + m)"
proof -
  have "pm_byte pm (4 * n + (4 * m + j)) = ucast (drop_bit (8 * j) (pm (n + m)))" if "j < 4" for j
  proof -
    have "4 * n + (4 * m + j) = j + (n + m) * 4" by simp
    then show ?thesis using that unfolding pm_byte_def by (simp only: div_mult_self1 mod_mult_self1) simp
  qed
  from this [of 0] this [of 1] this [of 2] this [of 3] show ?thesis
    unfolding r32_def using bytes_of_word [of "pm (n + m)"] by (simp add: add.assoc)
qed

text \<open>
  The command line lists the wrong words.  The buffer it passes already starts at the word to be
  listed, and the disassembler indexes it by that address again: the line for address \<open>4k\<close> shows the
  word at \<open>4k\<close> in hexadecimal but the text of the word at \<open>5k\<close>, and from address 13107 (0x3333) up
  the access leaves the array.
\<close>

theorem listing_reads_wrong_word:
  assumes "5 * k < 0x4000"
  shows "dasm_line pm (4 * int k) =
      printf ''%04lx: %06x  %s'' [Num (4 * int k), number (pm (4 * k) AND 0xffffff),
        Str (fst (the (disassemble (pm (5 * k)))))] \<and>
    (\<forall>a \<ge> 13107. dasm_line pm a = None)"
proof -
  obtain t f where d: "disassemble (pm (5 * k)) = Some (t, f)"
    using disassemble_defined [of "pm (5 * k)"] by blast
  have "r32 (\<lambda>i. pm_byte pm (4 * (4 * k) + i)) (4 * k) = pm (5 * k)"
    using r32_word [of pm "4 * k" k] by simp
  then show ?thesis using assms d by (simp add: dasm_line_def nat_mult_distrib)
qed

theorem listing_reads_wrong_word_witness:
  "dasm_line ((\<lambda>_. 0)(5 := 0x050000)) 4 = Some ''0004: 000000  IF MV SAT MR''"
proof -
  have "map_option fst (disassemble 0x050000) = Some ''IF MV SAT MR''"
    by (rule disassemble_one [of _ "''%s''" "[Str ''IF MV SAT MR'']" 0])
      (simp_all add: dasm_calls_def dasm_04_08_def field_def BIT_def printf_def)
  then have "fst (the (disassemble 0x050000)) = ''IF MV SAT MR''" by auto
  then show ?thesis
    using listing_reads_wrong_word [of 1 "(\<lambda>_. 0)(5 := 0x050000)"]
    by (simp add: printf_def number_def pad_def digits.simps digit_char_def of_int32_def numeral_eq_Suc)
qed

end
