(* ===== verification/Loaders.thy ===== *)
theory Loaders
  imports CText
begin

text \<open>
  The file and list readers of \<^verbatim>\<open>eicon_adsp_run.c\<close>: memory images (\<^verbatim>\<open>load_pm\<close>, \<^verbatim>\<open>load_dm\<close>),
  word maps (\<^verbatim>\<open>load_word_map\<close>), host scripts (\<^verbatim>\<open>load_host_script\<close>) and address lists
  (\<^verbatim>\<open>parse_addr_list\<close>).  A file is its bytes, \<open>None\<close> if it cannot be opened.  The locale
  \<open>image_loader\<close> says what an image loop promises; both image readers are instances.
\<close>

datatype load_result = Fine | Cannot_open | Short | Trailing | Out_of_range | Malformed

section \<open>Memory images\<close>

definition le24 :: "u8 \<Rightarrow> u8 \<Rightarrow> u8 \<Rightarrow> u32" where
  "le24 w0 w1 w2 = ucast w0 OR push_bit 8 (ucast w1) OR push_bit 16 (ucast w2)"

definition le16 :: "u8 \<Rightarrow> u8 \<Rightarrow> u16" where
  "le16 w0 w1 = ucast w0 OR push_bit 8 (ucast w1)"

function load_pm_from :: "nat \<Rightarrow> u8 list \<Rightarrow> (u32 \<Rightarrow> u32) \<Rightarrow> load_result \<times> (u32 \<Rightarrow> u32)" where
  "load_pm_from address bytes pm =
     (if address < 0x10000 then
        (case bytes of
           w0 # w1 # w2 # rest \<Rightarrow>
             load_pm_from (Suc address) rest
               (if address < 0x4000 then pm(of_nat address := le24 w0 w1 w2) else pm)
         | _ \<Rightarrow> (Short, pm))
      else if bytes \<noteq> [] then (Trailing, pm) else (Fine, pm))"
  by pat_completeness auto
termination by (relation "measure (\<lambda>(address, _, _). 0x10000 - address)") auto

function load_dm_from :: "nat \<Rightarrow> u8 list \<Rightarrow> (u32 \<Rightarrow> u16) \<Rightarrow> load_result \<times> (u32 \<Rightarrow> u16)" where
  "load_dm_from address bytes dm =
     (if address < 0x10000 then
        (case bytes of
           w0 # w1 # rest \<Rightarrow>
             load_dm_from (Suc address) rest
               (if address < 0x4000 then dm(of_nat address := le16 w0 w1) else dm)
         | _ \<Rightarrow> (Short, dm))
      else if bytes \<noteq> [] then (Trailing, dm) else (Fine, dm))"
  by pat_completeness auto
termination by (relation "measure (\<lambda>(address, _, _). 0x10000 - address)") auto

declare load_pm_from.simps [simp del] load_dm_from.simps [simp del]

definition load_pm :: "u8 list option \<Rightarrow> (u32 \<Rightarrow> u32) \<Rightarrow> load_result \<times> (u32 \<Rightarrow> u32)" where
  "load_pm f pm = (case f of None \<Rightarrow> (Cannot_open, pm) | Some bytes \<Rightarrow> load_pm_from 0 bytes pm)"

definition load_dm :: "u8 list option \<Rightarrow> (u32 \<Rightarrow> u16) \<Rightarrow> load_result \<times> (u32 \<Rightarrow> u16)" where
  "load_dm f dm = (case f of None \<Rightarrow> (Cannot_open, dm) | Some bytes \<Rightarrow> load_dm_from 0 bytes dm)"

section \<open>Word maps\<close>

text \<open>
  \<open>limit\<close> is the largest value the memory takes.  The arrays have 0x4000 entries although addresses up
  to 0xffff pass the check: \<open>None\<close> is a store outside the array.
\<close>

definition text_of :: "u8 list \<Rightarrow> string" where
  "text_of bytes = map (\<lambda>b. char_of (unat b)) bytes"

function load_map_from :: "nat \<Rightarrow> (nat \<Rightarrow> 'v) \<Rightarrow> string \<Rightarrow> (u32 \<Rightarrow> 'v)
    \<Rightarrow> (load_result \<times> (u32 \<Rightarrow> 'v)) option" where
  "load_map_from limit conv s mem =
     (case scan_x s of
        Eof \<Rightarrow> Some (Fine, mem)
      | Mismatch \<Rightarrow> Some (Malformed, mem)
      | Item address r \<Rightarrow>
          (case scan_x r of
             Item value r' \<Rightarrow>
               if address \<ge> 0x10000 \<or> value > limit then Some (Out_of_range, mem)
               else if address \<ge> 0x4000 then None
               else load_map_from limit conv r' (mem(of_nat address := conv value))
           | _ \<Rightarrow> Some (Malformed, mem)))"
  by pat_completeness auto
termination by (relation "measure (\<lambda>(_, _, s, _). length s)") (auto dest!: scan_shorter)

declare load_map_from.simps [simp del]

definition load_pm_map :: "u8 list option \<Rightarrow> (u32 \<Rightarrow> u32) \<Rightarrow> (load_result \<times> (u32 \<Rightarrow> u32)) option" where
  "load_pm_map f pm =
     (case f of None \<Rightarrow> Some (Cannot_open, pm)
      | Some bytes \<Rightarrow> load_map_from 0xffffff of_nat (text_of bytes) pm)"

definition load_dm_map :: "u8 list option \<Rightarrow> (u32 \<Rightarrow> u16) \<Rightarrow> (load_result \<times> (u32 \<Rightarrow> u16)) option" where
  "load_dm_map f dm =
     (case f of None \<Rightarrow> Some (Cannot_open, dm)
      | Some bytes \<Rightarrow> load_map_from 0xffff of_nat (text_of bytes) dm)"

section \<open>Host scripts\<close>

definition HOST_SCRIPT_MAX :: nat where "HOST_SCRIPT_MAX = 4096"

record host_poke =
  poke_index :: int
  poke_addr :: u16
  poke_value :: u16

function load_script_from :: "string \<Rightarrow> host_poke list \<Rightarrow> load_result \<times> host_poke list" where
  "load_script_from s script =
     (if length script < HOST_SCRIPT_MAX then
        (case scan_ld s of
           Item index r \<Rightarrow>
             (case scan_x r of
                Item addr r1 \<Rightarrow>
                  (case scan_x r1 of
                     Item value r2 \<Rightarrow>
                       if addr > 0x7fff \<or> value > 0xffff then (Out_of_range, script)
                       else load_script_from r2
                              (script @ [\<lparr>poke_index = index, poke_addr = of_nat addr, poke_value = of_nat value\<rparr>])
                   | _ \<Rightarrow> (Fine, script))
              | _ \<Rightarrow> (Fine, script))
         | _ \<Rightarrow> (Fine, script))
      else (Fine, script))"
  by pat_completeness auto
termination by (relation "measure (\<lambda>(s, _). length s)") (auto dest!: scan_shorter)

declare load_script_from.simps [simp del]

definition load_host_script :: "u8 list option \<Rightarrow> load_result \<times> host_poke list" where
  "load_host_script f =
     (case f of None \<Rightarrow> (Cannot_open, []) | Some bytes \<Rightarrow> load_script_from (text_of bytes) [])"

section \<open>Address lists\<close>

text \<open>The successive results of \<^verbatim>\<open>strtok_r(..., ",", ...)\<close>.\<close>

function tokens :: "string \<Rightarrow> string list" where
  "tokens s =
     (let s1 = dropWhile (\<lambda>c. c = CHR '','') s
      in if s1 = [] then []
         else takeWhile (\<lambda>c. c \<noteq> CHR '','') s1 # tokens (dropWhile (\<lambda>c. c \<noteq> CHR '','') s1))"
  by pat_completeness auto
termination
proof (relation "measure length", goal_cases)
  case (2 s s1)
  then obtain c r where s1: "s1 = c # r" by (meson neq_Nil_conv)
  then have "c \<noteq> CHR '',''" using 2 hd_dropWhile [of "\<lambda>c. c = CHR '',''" s] by (metis list.sel(1))
  then have "takeWhile (\<lambda>c. c \<noteq> CHR '','') s1 \<noteq> []" by (simp add: s1)
  then have "length (dropWhile (\<lambda>c. c \<noteq> CHR '','') s1) < length s1" by (rule drop_take_while)
  moreover have "length s1 \<le> length s" unfolding 2(1) by (rule length_dropWhile_le)
  ultimately show ?case unfolding in_measure by (rule less_le_trans)
qed simp

declare tokens.simps [simp del]

fun parse_tokens :: "string list \<Rightarrow> nat \<Rightarrow> u16 list \<Rightarrow> u16 list option" where
  "parse_tokens [] limit out = Some out"
| "parse_tokens (tok # rest) limit out =
     (if length out < limit then
        (let (addr, tail) = strtoul 0 tok in
         if tail \<noteq> [] \<or> addr > 0x3fff then None
         else parse_tokens rest limit (out @ [of_nat addr]))
      else Some out)"

definition parse_addr_list :: "string \<Rightarrow> nat \<Rightarrow> u16 list option" where
  "parse_addr_list s limit = parse_tokens (tokens s) limit []"

text \<open>The data memory \<^verbatim>\<open>ADSP_DUMP_DM\<close> writes.\<close>

definition dump_word :: "u16 \<Rightarrow> u8 list" where
  "dump_word value = [ucast value, ucast (drop_bit 8 value)]"

definition dump_dm :: "(u32 \<Rightarrow> u16) \<Rightarrow> u8 list" where
  "dump_dm dm = concat (map (\<lambda>address. dump_word (dm (of_nat address))) [0..<0x4000])"

section \<open>What an image loader does\<close>

locale image_loader =
  fixes k :: nat
    and word :: "u8 list \<Rightarrow> 'v"
    and load :: "nat \<Rightarrow> u8 list \<Rightarrow> (u32 \<Rightarrow> 'v) \<Rightarrow> load_result \<times> (u32 \<Rightarrow> 'v)"
  assumes step: "load a bs mem =
      (if a < 0x10000 then
         if length bs < k then (Short, mem)
         else load (Suc a) (drop k bs) (if a < 0x4000 then mem(of_nat a := word (take k bs)) else mem)
       else if bs \<noteq> [] then (Trailing, mem) else (Fine, mem))"
    and width: "0 < k"
begin

lemma outcome:
  "a \<le> 0x10000 \<Longrightarrow> fst (load a bs mem) =
     (if length bs < k * (0x10000 - a) then Short
      else if length bs > k * (0x10000 - a) then Trailing else Fine)"
proof (induction "0x10000 - a" arbitrary: a bs mem)
  case 0
  then show ?case by (subst step) auto
next
  case (Suc d)
  then have a: "a < 0x10000" "0x10000 - a = Suc d" "0x10000 - Suc a = d" by simp_all
  show ?case
  proof (cases "length bs < k")
    case True
    then show ?thesis using a by (subst step) (simp add: trans_less_add1)
  next
    case False
    then show ?thesis using a Suc.hyps(1) [of "Suc a" "drop k bs"]
      by (subst step) (simp add: less_diff_conv less_diff_conv2 add.commute)
  qed
qed

lemma contents:
  "\<lbrakk>a \<le> 0x10000; k * (0x10000 - a) \<le> length bs\<rbrakk> \<Longrightarrow> snd (load a bs mem) x =
     (if a \<le> unat x \<and> unat x < 0x4000 then word (take k (drop (k * (unat x - a)) bs)) else mem x)"
proof (induction "0x10000 - a" arbitrary: a bs mem)
  case 0
  then show ?case by (subst step) auto
next
  case (Suc d)
  then have a: "a < 0x10000" "0x10000 - a = Suc d" "0x10000 - Suc a = d" by simp_all
  have x: "x = of_nat a \<longleftrightarrow> unat x = a" using a(1) by (auto simp: unat_of_nat)
  have e: "drop (k * (unat x - Suc a)) (drop k bs) = drop (k * (unat x - a)) bs" if "Suc a \<le> unat x"
    using that by (simp add: Suc_diff_Suc [of a "unat x", symmetric] less_eq_Suc_le add.commute)
  define mem' where "mem' = (if a < 0x4000 then mem(of_nat a := word (take k bs)) else mem)"
  have "snd (load a bs mem) x = snd (load (Suc a) (drop k bs) mem') x"
    using a Suc.prems(2) by (subst step) (simp add: mem'_def)
  also have "\<dots> = (if Suc a \<le> unat x \<and> unat x < 0x4000
      then word (take k (drop (k * (unat x - Suc a)) (drop k bs))) else mem' x)"
    using Suc.prems(2) a by (intro Suc.hyps(1)) simp_all
  also have "\<dots> = (if a \<le> unat x \<and> unat x < 0x4000
      then word (take k (drop (k * (unat x - a)) bs)) else mem x)"
  proof (cases "unat x = a")
    case True
    then show ?thesis by (simp add: mem'_def x)
  next
    case False
    then have "Suc a \<le> unat x \<longleftrightarrow> a \<le> unat x" by auto
    then show ?thesis using False e by (auto simp: mem'_def x)
  qed
  finally show ?case .
qed

lemma load_all:
  "fst (load 0 bs mem) = Fine \<longleftrightarrow> length bs = k * 0x10000"
  "fst (load 0 bs mem) = Short \<longleftrightarrow> length bs < k * 0x10000"
  "fst (load 0 bs mem) = Trailing \<longleftrightarrow> length bs > k * 0x10000"
  using outcome [of 0 bs mem] by auto

end

lemma pm_image_step: "load_pm_from a bs mem =
    (if a < 0x10000 then
       if length bs < 3 then (Short, mem)
       else load_pm_from (Suc a) (drop 3 bs)
              (if a < 0x4000 then mem(of_nat a := le24 (take 3 bs ! 0) (take 3 bs ! 1) (take 3 bs ! 2)) else mem)
     else if bs \<noteq> [] then (Trailing, mem) else (Fine, mem))"
proof (cases "length bs < 3")
  case True
  then show ?thesis by (subst load_pm_from.simps) (auto split: list.split)
next
  case False
  then obtain w0 w1 w2 rest where "bs = w0 # w1 # w2 # rest"
    by (cases bs; cases "tl bs"; cases "tl (tl bs)") auto
  then show ?thesis by (subst load_pm_from.simps) simp
qed

lemma dm_image_step: "load_dm_from a bs mem =
    (if a < 0x10000 then
       if length bs < 2 then (Short, mem)
       else load_dm_from (Suc a) (drop 2 bs)
              (if a < 0x4000 then mem(of_nat a := le16 (take 2 bs ! 0) (take 2 bs ! 1)) else mem)
     else if bs \<noteq> [] then (Trailing, mem) else (Fine, mem))"
proof (cases "length bs < 2")
  case True
  then show ?thesis by (subst load_dm_from.simps) (auto split: list.split)
next
  case False
  then obtain w0 w1 rest where "bs = w0 # w1 # rest" by (cases bs; cases "tl bs") auto
  then show ?thesis by (subst load_dm_from.simps) simp
qed

interpretation pm_image: image_loader 3 "\<lambda>w. le24 (w ! 0) (w ! 1) (w ! 2)" load_pm_from
  by unfold_locales (rule pm_image_step, simp)

interpretation dm_image: image_loader 2 "\<lambda>w. le16 (w ! 0) (w ! 1)" load_dm_from
  by unfold_locales (rule dm_image_step, simp)


text \<open>
  The program image loader.  It succeeds exactly on files of 65536 three-byte words, reports every
  shorter file as short and every longer one as having trailing data; of a file it accepts, the first
  0x4000 little-endian words become program memory and nothing else changes.
\<close>

theorem load_pm_exact:
  "fst (load_pm (Some bytes) pm) =
     (if length bytes < 196608 then Short else if length bytes > 196608 then Trailing else Fine) \<and>
   (length bytes = 196608 \<longrightarrow> (\<forall>x. snd (load_pm (Some bytes) pm) x =
     (if unat x < 0x4000
      then le24 (bytes ! (3 * unat x)) (bytes ! (3 * unat x + 1)) (bytes ! (3 * unat x + 2)) else pm x)))"
  using pm_image.outcome [of 0 bytes pm] pm_image.contents [of 0 bytes pm]
  by (auto simp: load_pm_def)

theorem load_pm_exact_witness:
  "snd (load_pm (Some (replicate 196608 1)) (\<lambda>_. 0)) 7 = le24 1 1 1"
  using load_pm_exact [of "replicate 196608 1" "\<lambda>_. 0"] by simp

lemma dump_word_back: "le16 (dump_word v ! 0) (dump_word v ! 1) = v"
proof (rule bit_word_eqI)
  fix j assume "j < LENGTH(16)"
  then show "bit (le16 (dump_word v ! 0) (dump_word v ! 1)) j = bit v j"
    by (cases "j < 8") (auto simp: le16_def dump_word_def bit_simps)
qed

lemma length_dump: "length (concat (map (\<lambda>a. dump_word (dm (of_nat a))) xs)) = 2 * length xs"
  by (induction xs) (simp_all add: dump_word_def)

lemma dump_at: "n < length xs \<Longrightarrow>
   take 2 (drop (2 * n) (concat (map (\<lambda>a. dump_word (dm (of_nat a))) xs) @ rest)) = dump_word (dm (of_nat (xs ! n)))"
proof (induction xs arbitrary: n)
  case (Cons a xs)
  then show ?case by (cases n) (simp_all add: dump_word_def)
qed simp

text \<open>
  A data memory dump is not a loadable image, but its contents are right.  The dump has 0x4000
  words where the loader insists on 0x10000, so loading it fails as short; padded to full length
  with anything, it loads and restores every word of data memory.
\<close>

theorem dm_dump_reload:
  assumes "length padding = 0x18000"
  shows "fst (load_dm (Some (dump_dm dm)) m) = Short \<and>
    fst (load_dm (Some (dump_dm dm @ padding)) m) = Fine \<and>
    (\<forall>x. unat x < 0x4000 \<longrightarrow> snd (load_dm (Some (dump_dm dm @ padding)) m) x = dm x)"
proof -
  have n: "length (dump_dm dm) = 0x8000" by (simp add: dump_dm_def length_dump)
  have "snd (load_dm_from 0 (dump_dm dm @ padding) m) x = dm x" if "unat x < 0x4000" for x
  proof -
    have "take 2 (drop (2 * unat x) (dump_dm dm @ padding)) = dump_word (dm (of_nat ([0..<0x4000] ! unat x)))"
      unfolding dump_dm_def using that by (intro dump_at) simp
    then have "take 2 (drop (2 * unat x) (dump_dm dm @ padding)) = dump_word (dm x)" using that by simp
    moreover have "snd (load_dm_from 0 (dump_dm dm @ padding) m) x =
        le16 (take 2 (drop (2 * unat x) (dump_dm dm @ padding)) ! 0) (take 2 (drop (2 * unat x) (dump_dm dm @ padding)) ! 1)"
      using that n assms by (subst dm_image.contents) simp_all
    ultimately show ?thesis by (simp only: dump_word_back)
  qed
  then show ?thesis
    using n assms dm_image.outcome [of 0 "dump_dm dm" m] dm_image.outcome [of 0 "dump_dm dm @ padding" m]
    by (auto simp: load_dm_def)
qed

theorem dm_dump_reload_witness:
  "snd (load_dm (Some (dump_dm (\<lambda>a. ucast a) @ replicate 0x18000 0)) (\<lambda>_. 0)) 0x123 = 0x123"
  using dm_dump_reload [of "replicate 0x18000 0" "\<lambda>a. ucast a" "\<lambda>_. 0"] by simp

section \<open>Word maps read back\<close>

definition bytes_of :: "string \<Rightarrow> u8 list" where
  "bytes_of t = map (\<lambda>c. of_nat (of_char c)) t"

definition map_line :: "nat \<Rightarrow> nat \<Rightarrow> string" where
  "map_line a v = digits False 16 a @ '' '' @ digits False 16 v @ [CHR 0x0A]"

definition print_map :: "(nat \<times> nat) list \<Rightarrow> string" where
  "print_map ws = concat (map (\<lambda>(a, v). map_line a v) ws)"

lemma text_of_bytes [simp]: "text_of (bytes_of t) = t"
proof -
  have "char_of (unat (of_nat (of_char c :: nat) :: u8)) = c" for c
    by (simp add: unat_of_nat)
  then show ?thesis by (simp add: text_of_def bytes_of_def map_idI)
qed

lemma blanks: "ended (CHR '' '' # t)" "ended (CHR 0x0A # t)" "isspace (CHR '' '')" "isspace (CHR 0x0A)"
  by (simp_all add: ended_def isspace_def)

lemma scan_line:
  assumes "\<forall>c \<in> set sp. isspace c" "a < 2 ^ 32" "v < 2 ^ 32"
  shows "\<exists>r. scan_x (sp @ map_line a v @ t) = Item a r \<and> scan_x r = Item v (CHR 0x0A # t)"
  using scan_hex [OF assms(1) blanks(1) assms(2), of False "digits False 16 v @ CHR 0x0A # t"]
    scan_hex [of "'' ''" "CHR 0x0A # t" v False] assms(3) blanks by (simp add: map_line_def)

lemma load_line:
  assumes "\<forall>c \<in> set sp. isspace c" "a < 0x10000" "v \<le> limit" "limit < 2 ^ 32"
  shows "load_map_from limit conv (sp @ map_line a v @ t) mem =
    (if a \<ge> 0x4000 then None else load_map_from limit conv (CHR 0x0A # t) (mem(of_nat a := conv v)))"
proof -
  obtain r where "scan_x (sp @ map_line a v @ t) = Item a r" "scan_x r = Item v (CHR 0x0A # t)"
    using scan_line [OF assms(1), of a v t] assms by auto
  then show ?thesis using assms by (subst load_map_from.simps) simp
qed

lemma load_lines:
  "\<lbrakk>\<forall>c \<in> set sp. isspace c; \<forall>(a, v) \<in> set ws. a < 0x4000 \<and> v \<le> limit; limit < 2 ^ 32\<rbrakk> \<Longrightarrow>
   \<exists>sp'. (\<forall>c \<in> set sp'. isspace c) \<and> load_map_from limit conv (sp @ print_map ws @ t) mem =
     load_map_from limit conv (sp' @ t) (fold (\<lambda>(a, v) m. m(of_nat a := conv v)) ws mem)"
proof (induction ws arbitrary: sp mem)
  case (Cons w ws)
  obtain a v where w: "w = (a, v)" by (cases w)
  have "load_map_from limit conv (sp @ print_map (w # ws) @ t) mem =
      load_map_from limit conv ([CHR 0x0A] @ print_map ws @ t) (mem(of_nat a := conv v))"
    using load_line [of sp a v limit conv "print_map ws @ t" mem] Cons.prems by (simp add: w print_map_def)
  then show ?case using Cons.IH [of "[CHR 0x0A]" "mem(of_nat a := conv v)"] Cons.prems(2,3) blanks(4)
    by (simp add: w fun_upd_def)
qed (auto simp: print_map_def)

text \<open>
  Word maps.  A map printed as one hexadecimal address and value per line loads back as exactly
  those stores, in order.  An entry for an address from 0x4000 to 0xffff passes the range check and
  is then stored outside the 0x4000-entry array.
\<close>

theorem word_map_round_trip:
  assumes "\<forall>(a, v) \<in> set ws. a < 0x4000 \<and> v \<le> 0xffffff"
    and "0x4000 \<le> a'" "a' < 0x10000" "v' \<le> 0xffffff"
  shows "load_pm_map (Some (bytes_of (print_map ws))) pm =
      Some (Fine, fold (\<lambda>(a, v) m. m(of_nat a := of_nat v)) ws pm) \<and>
    load_pm_map (Some (bytes_of (print_map (ws @ (a', v') # rest)))) pm = None"
proof -
  define pm' where "pm' = fold (\<lambda>(a, v) m. m(of_nat a := of_nat v)) ws pm"
  have l: "\<exists>sp. (\<forall>c \<in> set sp. isspace c) \<and>
      load_map_from 0xffffff of_nat (print_map ws @ t) pm = load_map_from 0xffffff of_nat (sp @ t) pm'" for t
    using load_lines [of "[]" ws "0xffffff" of_nat t pm] assms(1) by (simp add: pm'_def)
  obtain sp where sp: "\<forall>c \<in> set sp. isspace c"
    "load_map_from 0xffffff of_nat (print_map ws) pm = load_map_from 0xffffff of_nat sp pm'" using l [of "[]"] by auto
  have "scan_x sp = Eof" using sp(1) by (simp add: scan_x_def scan_number_def dropWhile_eq_Nil_conv)
  then have "load_map_from 0xffffff of_nat (print_map ws) pm = Some (Fine, pm')"
    unfolding sp(2) by (subst load_map_from.simps) simp
  moreover obtain sp' where "\<forall>c \<in> set sp'. isspace c"
    "load_map_from 0xffffff of_nat (print_map ws @ map_line a' v' @ print_map rest) pm =
     load_map_from 0xffffff of_nat (sp' @ map_line a' v' @ print_map rest) pm'" using l by blast
  moreover from this(1) have "load_map_from 0xffffff of_nat (sp' @ map_line a' v' @ print_map rest) pm' = None"
    using assms by (simp add: load_line)
  ultimately show ?thesis by (simp add: load_pm_map_def pm'_def print_map_def)
qed

theorem word_map_round_trip_witness:
  "load_pm_map (Some (bytes_of (print_map [(0x100, 0xabcdef)]))) (\<lambda>_. 0) =
     Some (Fine, (\<lambda>_. 0)(0x100 := 0xabcdef)) \<and>
   load_pm_map (Some (bytes_of (print_map [(0x100, 0xabcdef), (0x4000, 0)]))) (\<lambda>_. 0) = None"
  using word_map_round_trip [of "[(0x100, 0xabcdef)]" "0x4000" "0" "\<lambda>_. 0" "[]"] by simp

end
