(* ===== verification/Runner.thy ===== *)
theory Runner
  imports Reach Loaders
begin

text \<open>
  The command-line runner \<^verbatim>\<open>eicon_adsp_run.c\<close> as a client of the host interface: the serial-port
  callbacks as functions of the history of events, and \<^verbatim>\<open>main\<close> cut into its phases.  Every action
  on the core is a \<open>host_call\<close>.  Environment, readable files and the set of writable paths are
  parameters (paths opened for writing are assumed different from those read).  Lines on standard
  error are notes carrying their fields; the lines of \<^verbatim>\<open>ADSP_TRACE_SPORT\<close> inside the callbacks and
  the interleaving with the core's own log are left out.
\<close>

section \<open>Environment, notes and state\<close>

record runner_env =
  env :: "string \<Rightarrow> string option"
  contents_of :: "string \<Rightarrow> u8 list option"
  writable :: "string \<Rightarrow> bool"

type_synonym status = "u16 \<times> bool \<times> u16 \<times> u8"

datatype remark =
    Note_open string
  | Note_load string load_result
  | Note_usage
  | Note_invalid string string
  | Note_list string
  | Note_script nat
  | Note_reset u16 u32 int
  | Note_stage string status
  | Note_host_start status int bool
  | Note_poke int u16 u16
  | Note_poll int u16 u16 u16
  | Note_host int status
  | Note_prewake status int
  | Note_trace int u16 u32
  | Note_stopped int u16 u32 bool "nat list" "nat list" "u16 list"

record runner =
  cpu :: adsp2181
  remarks :: "remark list"
  script :: "host_poke list"
  polls :: "(u16 \<times> u16) list"

text \<open>\<open>Exit\<close> is a return from \<^verbatim>\<open>main\<close> with that code, \<open>Undef\<close> undefined behaviour.\<close>

datatype 'a res = Ok 'a | Exit int runner | Undef

fun and_then :: "'a res \<Rightarrow> ('a \<Rightarrow> 'b res) \<Rightarrow> 'b res" where
  "and_then (Ok x) f = f x"
| "and_then (Exit c r) f = Exit c r"
| "and_then Undef f = Undef"

definition say :: "remark \<Rightarrow> runner \<Rightarrow> runner" where
  "say n r = r\<lparr>remarks := n # remarks r\<rparr>"

definition cpu_status :: "adsp2181 \<Rightarrow> status" where
  "cpu_status s = (adsp2181_pc s, idle s, imask s, icntl s)"

text \<open>
  The word at an address.  Every caller passes \<open>adsp2181_pc\<close>, which masks the program counter to 14
  bits, so the index is always inside the array of 0x4000 words.
\<close>

definition cpu_op :: "adsp2181 \<Rightarrow> u16 \<Rightarrow> u32" where
  "cpu_op s p = program s (ucast p) AND 0xffffff"

text \<open>One host call, and a run whose cycle count is used.\<close>

definition act :: "host_call \<Rightarrow> runner \<Rightarrow> runner res" where
  "act c r = (case perform c (cpu r) of None \<Rightarrow> Undef | Some s \<Rightarrow> Ok (r\<lparr>cpu := s\<rparr>))"

definition run_cpu :: "int \<Rightarrow> runner \<Rightarrow> (int \<times> runner) res" where
  "run_cpu n r = (case adsp2181_run (cpu r) n of None \<Rightarrow> Undef | Some (k, s) \<Rightarrow> Ok (k, r\<lparr>cpu := s\<rparr>))"

fun acts :: "host_call list \<Rightarrow> runner \<Rightarrow> runner res" where
  "acts [] r = Ok r"
| "acts (c # cs) r = and_then (act c r) (acts cs)"

section \<open>Serial-port callbacks\<close>

text \<open>
  The static variables of the callbacks are functions of the events so far (newest first):
  \<open>rx_reads\<close>, \<open>tx_writes\<close>, \<open>last_tx\<close>, and the position in the receive file, which advances by two
  bytes a read.
\<close>

fun is_tx :: "nat \<Rightarrow> event \<Rightarrow> bool" where
  "is_tx port (Ev_tx p v) = (p = port)"
| "is_tx port _ = False"

fun tx_value :: "event \<Rightarrow> u32" where
  "tx_value (Ev_tx p v) = v"
| "tx_value _ = 0"

definition rx_reads :: "event list \<Rightarrow> nat \<Rightarrow> nat" where
  "rx_reads h port = length (filter (\<lambda>e. e = Ev_rx port) h)"

definition tx_writes :: "event list \<Rightarrow> nat \<Rightarrow> nat" where
  "tx_writes h port = length (filter (is_tx port) h)"

definition last_tx :: "event list \<Rightarrow> nat \<Rightarrow> u16" where
  "last_tx h port = (case find (is_tx port) h of None \<Rightarrow> 0 | Some e \<Rightarrow> ucast (tx_value e))"

definition runner_sport_rx :: "(nat \<Rightarrow> u8 list option) \<Rightarrow> (nat \<Rightarrow> bool) \<Rightarrow> nat \<Rightarrow> event list \<Rightarrow> u32" where
  "runner_sport_rx rx_files loopback_sport port h =
     (if port < 2 then
        (let value = (if loopback_sport port then last_tx h port else 0);
             k = rx_reads h port
         in scast (case rx_files port of
                     None \<Rightarrow> value
                   | Some bytes \<Rightarrow>
                       if 2 * k + 2 \<le> length bytes then le16 (bytes ! (2 * k)) (bytes ! (2 * k + 1)) else value))
      else 0)"

text \<open>What \<^verbatim>\<open>sport_tx\<close> has written to the transmit file of a port.\<close>

definition tx_file :: "event list \<Rightarrow> nat \<Rightarrow> u8 list" where
  "tx_file h port = concat (map (\<lambda>e. [ucast (tx_value e), ucast (drop_bit 8 (tx_value e))]) (rev (filter (is_tx port) h)))"

section \<open>Arguments and files\<close>

definition number_in :: "int \<Rightarrow> int \<Rightarrow> string \<Rightarrow> int option" where
  "number_in lo hi t = (let (v, tail) = strtol 0 t in if tail \<noteq> [] \<or> v < lo \<or> v > hi then None else Some v)"

definition addr_arg :: "string \<Rightarrow> u16 option" where
  "addr_arg t = (let (v, tail) = strtoul 0 t in if tail \<noteq> [] \<or> v > 0x3fff then None else Some (of_nat v))"

definition env_number :: "runner_env \<Rightarrow> string \<Rightarrow> int" where
  "env_number E name = (case env E name of None \<Rightarrow> 0 | Some t \<Rightarrow> fst (strtol 0 t))"

definition env_set :: "runner_env \<Rightarrow> string \<Rightarrow> bool" where
  "env_set E name = (env E name \<noteq> None)"

fun open_ports :: "runner_env \<Rightarrow> (string \<times> bool) list \<Rightarrow> runner \<Rightarrow> runner res" where
  "open_ports E [] r = Ok r"
| "open_ports E ((name, reading) # rest) r =
     (case env E name of
        None \<Rightarrow> open_ports E rest r
      | Some path \<Rightarrow>
          if (if reading then contents_of E path \<noteq> None else writable E path) then open_ports E rest r
          else Exit 1 (say (Note_open path) r))"

definition rx_files_of :: "runner_env \<Rightarrow> nat \<Rightarrow> u8 list option" where
  "rx_files_of E port =
     (case env E (if port = 0 then ''ADSP_RX0'' else ''ADSP_RX1'') of None \<Rightarrow> None | Some path \<Rightarrow> contents_of E path)"

definition loopback_of :: "runner_env \<Rightarrow> nat \<Rightarrow> bool" where
  "loopback_of E port = env_set E (if port = 0 then ''ADSP_LOOPBACK_SPORT0'' else ''ADSP_LOOPBACK_SPORT1'')"

definition cycles_arg :: "string list \<Rightarrow> runner \<Rightarrow> int res" where
  "cycles_arg argv r =
     (if length argv < 3 \<or> length argv > 4 then Exit 2 (say Note_usage r)
      else if length argv = 4 then
        (case number_in 1 1000000000 (argv ! 3) of
           None \<Rightarrow> Exit 2 (say (Note_invalid ''cycle count'' (argv ! 3)) r) | Some c \<Rightarrow> Ok c)
      else Ok 100000)"

text \<open>Stores through the raw memory pointers.\<close>

definition poke_pm :: "(u32 \<Rightarrow> u32) \<Rightarrow> runner \<Rightarrow> runner res" where
  "poke_pm p r = act (Port (Poke p (data (cpu r)) (program_overlay (cpu r)) (data_overlay (cpu r)) (io (cpu r)))) r"

definition poke_dm :: "(u32 \<Rightarrow> u16) \<Rightarrow> runner \<Rightarrow> runner res" where
  "poke_dm d r = act (Port (Poke (program (cpu r)) d (program_overlay (cpu r)) (data_overlay (cpu r)) (io (cpu r)))) r"

text \<open>A reader stores as it reads: the words before a failure stay in memory.\<close>

definition load_images :: "runner_env \<Rightarrow> string list \<Rightarrow> runner \<Rightarrow> runner res" where
  "load_images E argv r =
     (let (e, p) = load_pm (contents_of E (argv ! 1)) (program (cpu r)) in
      and_then (poke_pm p r) (\<lambda>r.
        if e \<noteq> Fine then Exit 1 (say (Note_load (argv ! 1) e) r)
        else
          (let (e, d) = load_dm (contents_of E (argv ! 2)) (data (cpu r)) in
           and_then (poke_dm d r) (\<lambda>r.
             if e \<noteq> Fine then Exit 1 (say (Note_load (argv ! 2) e) r) else Ok r))))"

definition stage_pm :: "runner_env \<Rightarrow> string \<Rightarrow> runner \<Rightarrow> runner res" where
  "stage_pm E name r =
     (case env E name of None \<Rightarrow> Ok r
      | Some path \<Rightarrow>
          (case load_pm_map (contents_of E path) (program (cpu r)) of
             None \<Rightarrow> Undef
           | Some (e, p) \<Rightarrow>
               and_then (poke_pm p r) (\<lambda>r. if e \<noteq> Fine then Exit 1 (say (Note_load path e) r) else Ok r)))"

definition stage_dm :: "runner_env \<Rightarrow> string \<Rightarrow> runner \<Rightarrow> runner res" where
  "stage_dm E name r =
     (case env E name of None \<Rightarrow> Ok r
      | Some path \<Rightarrow>
          (case load_dm_map (contents_of E path) (data (cpu r)) of
             None \<Rightarrow> Undef
           | Some (e, d) \<Rightarrow>
               and_then (poke_dm d r) (\<lambda>r. if e \<noteq> Fine then Exit 1 (say (Note_load path e) r) else Ok r)))"

section \<open>Before the run\<close>

definition watch_list :: "runner_env \<Rightarrow> string \<Rightarrow> (u16 \<Rightarrow> switch_call) \<Rightarrow> runner \<Rightarrow> runner res" where
  "watch_list E name watch r =
     (case env E name of None \<Rightarrow> Ok r
      | Some t \<Rightarrow>
          (case parse_addr_list t 256 of
             None \<Rightarrow> Exit 2 (say (Note_list name) r)
           | Some addrs \<Rightarrow> acts (map (\<lambda>a. Switch (watch a)) addrs) r))"

definition read_script :: "runner_env \<Rightarrow> runner \<Rightarrow> runner res" where
  "read_script E r =
     (case env E ''ADSP_HOST_SCRIPT'' of None \<Rightarrow> Ok r
      | Some path \<Rightarrow>
          (let (e, ps) = load_host_script (contents_of E path) in
           if e \<noteq> Fine then Exit 1 (say (Note_load path e) r)
           else Ok (say (Note_script (length ps)) (r\<lparr>script := ps\<rparr>))))"

definition read_polls :: "runner_env \<Rightarrow> runner \<Rightarrow> runner res" where
  "read_polls E r =
     (case env E ''ADSP_HOST_POLL'' of None \<Rightarrow> Ok r
      | Some t \<Rightarrow>
          (case parse_addr_list t 64 of
             None \<Rightarrow> Exit 2 (say (Note_list ''ADSP_HOST_POLL'') r)
           | Some addrs \<Rightarrow> Ok (r\<lparr>polls := map (\<lambda>a. (a, 0xeeee)) addrs\<rparr>)))"

definition start_pc :: "runner_env \<Rightarrow> runner \<Rightarrow> runner res" where
  "start_pc E r =
     (case env E ''ADSP_START_PC'' of None \<Rightarrow> Ok r
      | Some t \<Rightarrow>
          (case addr_arg t of
             None \<Rightarrow> Exit 2 (say (Note_invalid ''ADSP_START_PC'' t) r)
           | Some p \<Rightarrow> act (Port (Set_pc p)) r))"

definition prepare :: "runner_env \<Rightarrow> string list \<Rightarrow> runner \<Rightarrow> runner res" where
  "prepare E argv r =
     and_then (load_images E argv r) (\<lambda>r.
     and_then (acts [Port (Set_callbacks (Some (runner_sport_rx (rx_files_of E) (loopback_of E))) True True),
                     Port Reset] r) (\<lambda>r.
     and_then (watch_list E ''ADSP_WATCH_DM'' (\<lambda>a. Watch_dm a True) r) (\<lambda>r.
     and_then (watch_list E ''ADSP_WATCH_PM'' (\<lambda>a. Watch_pm a True) r) (\<lambda>r.
     and_then (read_script E r) (\<lambda>r.
     and_then (read_polls E r) (start_pc E))))))"

section \<open>The host loop (\<open>ADSP_HOST_WORDS\<close>)\<close>

text \<open>An injected call of a stage entry point, run for up to a million cycles.\<close>

definition run_entry :: "string \<Rightarrow> u16 \<Rightarrow> runner \<Rightarrow> runner res" where
  "run_entry name entry r =
     and_then (acts [Inject (Call entry 0x02a8), Port (Run 1000000)] r) (\<lambda>r.
       Ok (say (Note_stage name (cpu_status (cpu r))) r))"

definition stage_entry :: "runner_env \<Rightarrow> string \<Rightarrow> runner \<Rightarrow> runner res" where
  "stage_entry E name r =
     (case env E name of None \<Rightarrow> Ok r
      | Some t \<Rightarrow>
          (case addr_arg t of
             None \<Rightarrow> Exit 2 (say (Note_invalid name t) r)
           | Some entry \<Rightarrow> run_entry name entry r))"

fun play_script :: "bool \<Rightarrow> int \<Rightarrow> host_poke list \<Rightarrow> runner \<Rightarrow> runner res" where
  "play_script trace word [] r = Ok r"
| "play_script trace word (p # ps) r =
     (if poke_index p = word then
        and_then (act (Port (Host_write (poke_addr p) (poke_value p))) r) (\<lambda>r.
          play_script trace word ps
            (if trace then say (Note_poke word (poke_addr p) (poke_value p)) r else r))
      else play_script trace word ps r)"

text \<open>The watched host addresses with the value seen last.\<close>

fun poll_all :: "int \<Rightarrow> (u16 \<times> u16) list \<Rightarrow> runner \<Rightarrow> (u16 \<times> u16) list \<times> runner" where
  "poll_all word [] r = ([], r)"
| "poll_all word ((addr, seen) # ps) r =
     (let (now, s) = adsp2181_host_read (cpu r) addr;
          r1 = r\<lparr>cpu := s\<rparr>;
          r2 = (if now \<noteq> seen then say (Note_poll word addr seen now) r1 else r1);
          (ps', r3) = poll_all word ps r2
      in ((addr, now) # ps', r3))"

definition poll_host :: "int \<Rightarrow> runner \<Rightarrow> runner" where
  "poll_host word r = (let (ps, r1) = poll_all word (polls r) r in r1\<lparr>polls := ps\<rparr>)"

record host_loop =
  words :: int
  trace_host :: "int option"
  trace_at :: int
  entry2 :: "string option"
  force_imask :: int
  host_irq :: int
  trace_sport :: bool

text \<open>The interrupt strobe and the run of one word.\<close>

definition strobe :: "host_loop \<Rightarrow> runner \<Rightarrow> runner res" where
  "strobe H r =
     and_then (acts [Port (Set_irq (int ADSP2181_SPORT0_RX) True), Port (Set_irq (int ADSP2181_SPORT0_RX) False)] r) (\<lambda>r.
     and_then (if force_imask H \<noteq> 0
               then act (Port (Set_imask (word_of_int (force_imask H) OR imask (cpu r)))) r else Ok r) (\<lambda>r.
       if host_irq H \<ge> 0
       then acts [Port (Set_irq (host_irq H) True), Port (Run 5000), Port (Run 5000), Port (Set_irq (host_irq H) False)] r
       else act (Port (Run 10000)) r))"

text \<open>One pass of the loop; the first component is \<open>entry2_at\<close>, set to -2 once used.\<close>

definition host_word :: "host_loop \<Rightarrow> int \<Rightarrow> int \<times> runner \<Rightarrow> (int \<times> runner) res" where
  "host_word H word = (\<lambda>(entry2_at, r).
     and_then (case trace_host H of
                 Some n \<Rightarrow> if word = trace_at H \<and> trace_at H > 0 then act (Switch (Trace_budget n)) r else Ok r
               | None \<Rightarrow> Ok r) (\<lambda>r.
     and_then (case entry2 H of
                 Some t \<Rightarrow>
                   if entry2_at = word
                   then and_then (run_entry ''at'' (of_nat (fst (strtoul 16 t))) r) (\<lambda>r. Ok (- 2, r))
                   else Ok (entry2_at, r)
               | None \<Rightarrow> Ok (entry2_at, r)) (\<lambda>(entry2_at, r).
     and_then (play_script (trace_sport H) word (script r) r) (\<lambda>r.
     and_then (strobe H r) (\<lambda>r.
       (let r1 = poll_host word r
        in Ok (entry2_at, if trace_sport H then say (Note_host word (cpu_status (cpu r1))) r1 else r1)))))))"

fun host_words :: "host_loop \<Rightarrow> int list \<Rightarrow> int \<times> runner \<Rightarrow> (int \<times> runner) res" where
  "host_words H [] st = Ok st"
| "host_words H (w # ws) st = and_then (host_word H w st) (host_words H ws)"

definition watch_all :: "runner_env \<Rightarrow> runner \<Rightarrow> runner res" where
  "watch_all E r =
     (if env_set E ''ADSP_WATCH_ALL''
      then acts (concat (map (\<lambda>a. [Switch (Watch_dm (of_nat a) True), Switch (Watch_pm (of_nat a) True)]) [0..<0x4000])) r
      else Ok r)"

definition host_irq_arg :: "runner_env \<Rightarrow> runner \<Rightarrow> int res" where
  "host_irq_arg E r =
     (case env E ''ADSP_HOST_IRQ'' of None \<Rightarrow> Ok (- 1)
      | Some t \<Rightarrow>
          (case number_in 0 (int ADSP2181_IRQ_COUNT - 1) t of
             None \<Rightarrow> Exit 2 (say (Note_invalid ''ADSP_HOST_IRQ'' t) r) | Some k \<Rightarrow> Ok k))"

definition host_session :: "runner_env \<Rightarrow> string \<Rightarrow> bool \<Rightarrow> runner \<Rightarrow> runner res" where
  "host_session E t tracing r =
     (case number_in 0 1000000 t of
        None \<Rightarrow> Exit 2 (say (Note_invalid ''ADSP_HOST_WORDS'' t) r)
      | Some n \<Rightarrow>
     and_then (act (Port (Run 1000)) r) (\<lambda>r.
     and_then (stage_pm E ''ADSP_STAGE_PM_WORDS'' r) (\<lambda>r.
     and_then (stage_dm E ''ADSP_STAGE_DM_WORDS'' r) (\<lambda>r.
     and_then (stage_entry E ''ADSP_STAGE_ENTRY'' r) (\<lambda>r.
     let entry2_at = (case env E ''ADSP_STAGE_ENTRY2_AT'' of None \<Rightarrow> - 1 | Some u \<Rightarrow> fst (strtol 0 u)) in
     and_then (if entry2_at < 0 then stage_entry E ''ADSP_STAGE_ENTRY2'' r else Ok r) (\<lambda>r.
     and_then (stage_dm E ''ADSP_POST_DM_WORDS'' r) (\<lambda>r.
     and_then (host_irq_arg E r) (\<lambda>irq.
     let H = \<lparr>words = n, trace_host = map_option (\<lambda>u. fst (strtol 0 u)) (env E ''ADSP_TRACE_HOST''),
              trace_at = env_number E ''ADSP_TRACE_AT_WORD'', entry2 = env E ''ADSP_STAGE_ENTRY2'',
              force_imask = env_number E ''ADSP_FORCE_IMASK'', host_irq = irq, trace_sport = tracing\<rparr>;
         r1 = say (Note_host_start (cpu_status (cpu r)) n (env_set E ''ADSP_STAGE_PM_WORDS'')) r in
     and_then (watch_all E r1) (\<lambda>r.
     and_then (case trace_host H of
                 Some b \<Rightarrow> if trace_at H = 0 then act (Switch (Trace_budget b)) r else Ok r
               | None \<Rightarrow> Ok r) (\<lambda>r.
     and_then (host_words H [0..n - 1] (entry2_at, r)) (\<lambda>(_, r). Ok r)))))))))))"

definition wake :: "string \<Rightarrow> runner \<Rightarrow> runner res" where
  "wake t r =
     (case number_in 0 (int ADSP2181_IRQ_COUNT - 1) t of
        None \<Rightarrow> Exit 2 (say (Note_invalid ''ADSP_WAKE_IRQ'' t) r)
      | Some irq \<Rightarrow>
          and_then (act (Port (Run 1000)) r) (\<lambda>r.
            acts [Port (Set_irq irq True), Port (Set_irq irq False)]
              (say (Note_prewake (cpu_status (cpu r)) irq) r)))"

definition session :: "runner_env \<Rightarrow> bool \<Rightarrow> runner \<Rightarrow> runner res" where
  "session E tracing r =
     (case env E ''ADSP_HOST_WORDS'' of
        Some t \<Rightarrow> host_session E t tracing r
      | None \<Rightarrow> (case env E ''ADSP_WAKE_IRQ'' of Some t \<Rightarrow> wake t r | None \<Rightarrow> Ok r))"

section \<open>The final run and \<open>main\<close>\<close>

fun trace_steps :: "int list \<Rightarrow> runner \<Rightarrow> runner res" where
  "trace_steps [] r = Ok r"
| "trace_steps (k # ks) r =
     (let p = adsp2181_pc (cpu r)
      in and_then (act (Port (Run 1)) (say (Note_trace k p (cpu_op (cpu r) p)) r)) (trace_steps ks))"

definition final_run :: "int \<Rightarrow> int \<Rightarrow> runner \<Rightarrow> (int \<times> runner) res" where
  "final_run trace cyc r =
     (if trace > 0 then
        (let limit = (if trace < cyc then trace else cyc) in
         and_then (trace_steps [0..limit - 1] r) (\<lambda>r.
           if limit < cyc
           then and_then (run_cpu (cyc - limit) r) (\<lambda>(k, r). Ok (limit + k, r))
           else Ok (limit, r)))
      else run_cpu cyc r)"

definition stopped :: "int \<Rightarrow> adsp2181 \<Rightarrow> remark" where
  "stopped cycles_run s =
     Note_stopped cycles_run (adsp2181_pc s) (cpu_op s (adsp2181_pc s)) (idle s)
       (map (rx_reads (out s)) [0, 1]) (map (tx_writes (out s)) [0, 1]) (map (last_tx (out s)) [0, 1])"

definition runner_steps :: "runner_env \<Rightarrow> string list \<Rightarrow> runner \<Rightarrow> runner res" where
  "runner_steps E argv r =
     (let trace = (case env E ''ADSP_TRACE'' of None \<Rightarrow> 0 | Some t \<Rightarrow> atoi t);
          tracing = (case env E ''ADSP_TRACE_SPORT'' of None \<Rightarrow> False | Some t \<Rightarrow> atoi t \<noteq> 0) in
      and_then (open_ports E [(''ADSP_RX0'', True), (''ADSP_TX0'', False), (''ADSP_RX1'', True), (''ADSP_TX1'', False)] r) (\<lambda>r.
      and_then (cycles_arg argv r) (\<lambda>cyc.
      and_then (prepare E argv r) (\<lambda>r.
      and_then (session E tracing
          (say (Note_reset (adsp2181_pc (cpu r)) (cpu_op (cpu r) (adsp2181_pc (cpu r))) cyc) r)) (\<lambda>r.
      and_then (final_run trace cyc r) (\<lambda>(cycles_run, r). Ok (say (stopped cycles_run (cpu r)) r)))))))"

text \<open>The exit code, the runner at the end and the data memory dump, if one was written.\<close>

datatype outcome = Finished int runner "u8 list option" | Undefined

definition runner_main :: "runner_env \<Rightarrow> string list \<Rightarrow> outcome" where
  "runner_main E argv =
     (case runner_steps E argv \<lparr>cpu = adsp2181_create, remarks = [], script = [], polls = []\<rparr> of
        Undef \<Rightarrow> Undefined
      | Exit c r \<Rightarrow> Finished c r None
      | Ok r \<Rightarrow> Finished 0 r
          (case env E ''ADSP_DUMP_DM'' of None \<Rightarrow> None
           | Some path \<Rightarrow> if writable E path then Some (dump_dm (data (cpu r))) else None))"

section \<open>The core of a finished run is a reachable core\<close>

definition reached :: "runner \<Rightarrow> bool" where
  "reached r = reachable True (cpu r)"

fun keeps :: "('a \<Rightarrow> bool) \<Rightarrow> 'a res \<Rightarrow> bool" where
  "keeps Q (Ok x) = Q x"
| "keeps Q (Exit c r) = (reached r \<and> (c = 1 \<or> c = 2))"
| "keeps Q Undef = True"

lemma keeps_and_then: "\<lbrakk>keeps Q x; \<And>y. Q y \<Longrightarrow> keeps Q' (f y)\<rbrakk> \<Longrightarrow> keeps Q' (and_then x f)"
  by (cases x) simp_all

lemma reached_fields [simp]:
  "reached (say n r) = reached r" "reached (r\<lparr>script := ps\<rparr>) = reached r" "reached (r\<lparr>polls := qs\<rparr>) = reached r"
  by (simp_all add: reached_def say_def)

lemma keeps_act: "reached r \<Longrightarrow> keeps reached (act c r)"
  by (auto simp: act_def reached_def split: option.split intro: reachable.called [where c = c])

lemma keeps_run: "reached r \<Longrightarrow> keeps (reached \<circ> snd) (run_cpu n r)"
  by (auto simp: run_cpu_def reached_def split: option.split intro: reachable.called [where c = "Port (Run n)"])

lemma keeps_acts: "reached r \<Longrightarrow> keeps reached (acts cs r)"
  by (induction cs arbitrary: r) (auto intro: keeps_and_then keeps_act)

lemma keeps_poke: "reached r \<Longrightarrow> keeps reached (poke_pm p r)" "reached r \<Longrightarrow> keeps reached (poke_dm d r)"
  by (simp_all add: poke_pm_def poke_dm_def keeps_act)

lemmas keeps_intros = keeps_and_then [where Q = reached] keeps_act keeps_acts keeps_poke

lemma keeps_stage: "reached r \<Longrightarrow> keeps reached (stage_pm E name r)" "reached r \<Longrightarrow> keeps reached (stage_dm E name r)"
  by (auto simp: stage_pm_def stage_dm_def split: option.split prod.split intro!: keeps_intros)

lemma keeps_open: "reached r \<Longrightarrow> keeps reached (open_ports E ps r)"
  by (induction E ps r rule: open_ports.induct) (auto split: option.split)

lemma keeps_arguments: "reached r \<Longrightarrow> keeps (\<lambda>_. reached r) (cycles_arg argv r)"
  "reached r \<Longrightarrow> keeps (\<lambda>_. reached r) (host_irq_arg E r)"
  by (auto simp: cycles_arg_def host_irq_arg_def split: option.split)

lemma keeps_prepare: "reached r \<Longrightarrow> keeps reached (prepare E argv r)"
proof -
  have "reached r \<Longrightarrow> keeps reached (load_images E argv r)" for r
    by (auto simp: load_images_def Let_def split: prod.split intro!: keeps_intros)
  moreover have "reached r \<Longrightarrow> keeps reached (watch_list E name w r)" for name w r
    by (auto simp: watch_list_def split: option.split intro!: keeps_intros)
  moreover have "reached r \<Longrightarrow> keeps reached (read_script E r)" "reached r \<Longrightarrow> keeps reached (read_polls E r)"
    "reached r \<Longrightarrow> keeps reached (start_pc E r)" for r
    by (auto simp: read_script_def read_polls_def start_pc_def split: option.split prod.split intro!: keeps_intros)
  ultimately show "reached r \<Longrightarrow> keeps reached (prepare E argv r)"
    unfolding prepare_def by (intro keeps_intros) simp_all
qed

lemma keeps_entry: "reached r \<Longrightarrow> keeps reached (run_entry name e r)"
  "reached r \<Longrightarrow> keeps reached (stage_entry E name r)"
proof -
  show run: "reached r \<Longrightarrow> keeps reached (run_entry name e r)" for e
    unfolding run_entry_def by (intro keeps_intros) simp_all
  show "reached r \<Longrightarrow> keeps reached (stage_entry E name r)"
    using run by (simp add: stage_entry_def split: option.split)
qed

lemma keeps_script: "reached r \<Longrightarrow> keeps reached (play_script trace w ps r)"
  by (induction ps arbitrary: r) (auto intro!: keeps_intros)

lemma reached_poll: "reached r \<Longrightarrow> reached (poll_host w r)"
proof -
  have "reached r \<Longrightarrow> reached (snd (poll_all w ps r))" for ps
  proof (induction ps arbitrary: r)
    case (Cons p ps)
    obtain addr seen where p: "p = (addr, seen)" by (cases p)
    have "reached (r\<lparr>cpu := snd (adsp2181_host_read (cpu r) addr)\<rparr>)"
      using Cons.prems by (auto simp: reached_def intro: reachable.called [where c = "Port (Host_read addr)"])
    then show ?case using Cons.IH by (simp add: p Let_def case_prod_beta)
  qed simp
  then show "reached r \<Longrightarrow> reached (poll_host w r)" by (simp add: poll_host_def case_prod_beta)
qed

lemma keeps_strobe: "reached r \<Longrightarrow> keeps reached (strobe H r)"
  unfolding strobe_def by (auto intro!: keeps_intros)

lemma keeps_word: "reached r \<Longrightarrow> keeps (reached \<circ> snd) (host_word H w (e, r))"
  unfolding host_word_def prod.case
  by (auto intro!: keeps_intros keeps_entry keeps_script keeps_strobe reached_poll
      keeps_and_then [where Q = "reached \<circ> snd"] simp: Let_def split: option.split)

lemma keeps_words: "reached (snd st) \<Longrightarrow> keeps (reached \<circ> snd) (host_words H ws st)"
  by (induction ws arbitrary: st)
    (auto intro!: keeps_and_then [where Q = "reached \<circ> snd"] simp: keeps_word)

lemma keeps_host_session: "reached r \<Longrightarrow> keeps reached (host_session E t tracing r)"
proof -
  have watch: "reached r \<Longrightarrow> keeps reached (watch_all E r)" for r
    by (simp add: watch_all_def keeps_acts)
  have args: "keeps Q (and_then (host_irq_arg E r) f)" if "reached r" "\<And>k. keeps Q (f k)"
    for r and Q :: "runner \<Rightarrow> bool" and f
    using keeps_and_then [OF keeps_arguments(2) [OF that(1)]] that(2) by blast
  have loop: "keeps reached (and_then (host_words H ws (e, r)) (\<lambda>(_, r). Ok r))" if "reached r" for H ws e r
    by (rule keeps_and_then [OF keeps_words [of "(e, r)"]]) (use that in auto)
  show "reached r \<Longrightarrow> ?thesis"
    unfolding host_session_def Let_def
    by (auto split: option.split intro!: keeps_intros keeps_stage keeps_entry args watch loop)
qed

lemma keeps_session: "reached r \<Longrightarrow> keeps reached (session E tracing r)"
  by (auto simp: session_def wake_def split: option.split intro!: keeps_intros keeps_host_session)

lemma keeps_trace: "reached r \<Longrightarrow> keeps reached (trace_steps ks r)"
  by (induction ks arbitrary: r) (auto simp: Let_def intro!: keeps_intros)

lemma keeps_final: "reached r \<Longrightarrow> keeps (reached \<circ> snd) (final_run trace cyc r)"
  unfolding final_run_def Let_def
  by (auto intro!: keeps_and_then [OF keeps_trace] keeps_and_then [OF keeps_run] keeps_run)

lemma keeps_steps: "reached r \<Longrightarrow> keeps reached (runner_steps E argv r)"
proof -
  have args: "keeps reached (and_then (cycles_arg argv r) f)" if "reached r" "\<And>k. keeps reached (f k)" for r f
    using keeps_and_then [OF keeps_arguments(1) [OF that(1)]] that(2) by blast
  have last: "keeps reached (and_then (final_run tr cyc r) (\<lambda>(n, r). Ok (say (stopped n (cpu r)) r)))"
    if "reached r" for tr cyc r
    by (rule keeps_and_then [OF keeps_final [OF that]]) auto
  show "reached r \<Longrightarrow> ?thesis"
    unfolding runner_steps_def Let_def
    by (intro keeps_intros keeps_open keeps_prepare keeps_session args last) simp_all
qed

text \<open>
  The runner drives the core through its host interface only.  Whatever the environment, the files
  and the command line are, if \<^verbatim>\<open>main\<close> returns then its exit code is 0, 1 or 2 and its core is in a
  state host calls can reach, so it satisfies the machine invariant.
\<close>

theorem runner_core_reachable:
  assumes "runner_main E argv = Finished c r d"
  shows "reachable True (cpu r) \<and> machine_ok (cpu r) \<and> c \<in> {0, 1, 2}"
proof -
  let ?r0 = "\<lparr>cpu = adsp2181_create, remarks = [], script = [], polls = []\<rparr>"
  have "keeps reached (runner_steps E argv ?r0)"
    by (rule keeps_steps) (simp add: reached_def reachable.created)
  then have "reached r \<and> c \<in> {0, 1, 2}" using assms
    by (cases "runner_steps E argv ?r0") (auto simp: runner_main_def)
  then show ?thesis using ok_host.any_reachable by (auto simp: reached_def)
qed

theorem runner_core_reachable_witness:
  "\<exists>r. runner_main \<lparr>env = (\<lambda>_. None), contents_of = (\<lambda>_. None), writable = (\<lambda>_. False)\<rparr> [] = Finished 2 r None \<and>
     machine_ok (cpu r)"
proof -
  let ?E = "\<lparr>env = (\<lambda>_. None), contents_of = (\<lambda>_. None), writable = (\<lambda>_. False)\<rparr>"
  obtain r where "runner_main ?E [] = Finished 2 r None"
    by (simp add: runner_main_def runner_steps_def cycles_arg_def)
  then show ?thesis using runner_core_reachable [of ?E "[]" 2 r None] by blast
qed

section \<open>A plain run\<close>

text \<open>
  The specification of a run with no variable set but possibly \<^verbatim>\<open>ADSP_START_PC\<close>: the number of
  cycles asked for (\<open>None\<close> if the arguments do not give one), the core after loading and reset, and the
  core that starts (\<open>None\<close> if the start address is not one).
\<close>

definition cycles_asked :: "string list \<Rightarrow> int option" where
  "cycles_asked argv =
     (if length argv = 3 then Some 100000
      else if length argv = 4 \<and> snd (strtol 0 (argv ! 3)) = [] \<and> fst (strtol 0 (argv ! 3)) \<in> {1..1000000000}
      then Some (fst (strtol 0 (argv ! 3))) else None)"

definition booted :: "runner_env \<Rightarrow> u8 list \<Rightarrow> u8 list \<Rightarrow> adsp2181" where
  "booted E pmb dmb =
     adsp2181_reset (adsp2181_set_callbacks
       (adsp2181_create\<lparr>program := snd (load_pm (Some pmb) (program adsp2181_create)),
          data := snd (load_dm (Some dmb) (data adsp2181_create))\<rparr>)
       (Some (runner_sport_rx (rx_files_of E) (loopback_of E))) True True)"

definition starting :: "runner_env \<Rightarrow> adsp2181 \<Rightarrow> adsp2181 option" where
  "starting E s =
     (case env E ''ADSP_START_PC'' of
        None \<Rightarrow> Some s
      | Some t \<Rightarrow>
          if snd (strtoul 0 t) = [] \<and> fst (strtoul 0 t) \<le> 0x3fff
          then Some (adsp2181_set_pc s (of_nat (fst (strtoul 0 t)))) else None)"

definition readable_images :: "runner_env \<Rightarrow> string list \<Rightarrow> bool" where
  "readable_images E argv \<longleftrightarrow>
     (\<exists>pmb dmb. contents_of E (argv ! 1) = Some pmb \<and> length pmb = 196608 \<and>
        contents_of E (argv ! 2) = Some dmb \<and> length dmb = 131072)"

lemma load_fine:
  "fst (load_pm f pm) = Fine \<longleftrightarrow> (\<exists>bs. f = Some bs \<and> length bs = 196608)"
  "fst (load_dm f dm) = Fine \<longleftrightarrow> (\<exists>bs. f = Some bs \<and> length bs = 131072)"
  using pm_image.load_all(1) [of _ pm] dm_image.load_all(1) [of _ dm]
  by (cases f; simp add: load_pm_def load_dm_def)+

lemma poke_ok:
  "poke_pm p r = Ok (r\<lparr>cpu := (cpu r)\<lparr>program := p\<rparr>\<rparr>)"
  "poke_dm d r = Ok (r\<lparr>cpu := (cpu r)\<lparr>data := d\<rparr>\<rparr>)"
  by (simp_all add: poke_pm_def poke_dm_def act_def)

lemma load_images_ok:
  assumes "contents_of E (argv ! 1) = Some pmb" "length pmb = 196608"
    "contents_of E (argv ! 2) = Some dmb" "length dmb = 131072"
  shows "load_images E argv r = Ok (r\<lparr>cpu := (cpu r)\<lparr>program := snd (load_pm (Some pmb) (program (cpu r))),
      data := snd (load_dm (Some dmb) (data (cpu r)))\<rparr>\<rparr>)"
  using load_fine(1) [of "Some pmb" "program (cpu r)"] load_fine(2) [of "Some dmb" "data (cpu r)"] assms
  by (simp add: load_images_def case_prod_beta poke_ok)

lemma load_images_fails:
  assumes "\<not> readable_images E argv"
  shows "\<exists>r' p d. load_images E argv r = Exit 1 r' \<and> cpu r' = (cpu r)\<lparr>program := p, data := d\<rparr>"
proof -
  have said: "cpu (say n (r\<lparr>cpu := s\<rparr>)) = s" for n s by (simp add: say_def)
  define p where "p = snd (load_pm (contents_of E (argv ! 1)) (program (cpu r)))"
  define d where "d = snd (load_dm (contents_of E (argv ! 2)) (data (cpu r)))"
  consider "fst (load_pm (contents_of E (argv ! 1)) (program (cpu r))) \<noteq> Fine"
    | "fst (load_pm (contents_of E (argv ! 1)) (program (cpu r))) = Fine"
      "fst (load_dm (contents_of E (argv ! 2)) (data (cpu r))) \<noteq> Fine"
    using assms by (auto simp: load_fine readable_images_def)
  then show ?thesis
  proof cases
    case 1
    have "(cpu r)\<lparr>program := p\<rparr> = (cpu r)\<lparr>program := p, data := data (cpu r)\<rparr>" by simp
    then obtain n where "load_images E argv r = Exit 1 (say n (r\<lparr>cpu := (cpu r)\<lparr>program := p, data := data (cpu r)\<rparr>\<rparr>))"
      using 1 by (simp add: load_images_def case_prod_beta poke_ok p_def)
    then show ?thesis using said by blast
  next
    case 2
    then obtain n where "load_images E argv r = Exit 1 (say n (r\<lparr>cpu := (cpu r)\<lparr>program := p, data := d\<rparr>\<rparr>))"
      by (simp add: load_images_def case_prod_beta poke_ok p_def d_def)
    then show ?thesis using said by blast
  qed
qed

lemma arguments_spec:
  "cycles_arg argv r = (case cycles_asked argv of Some n \<Rightarrow> Ok n
     | None \<Rightarrow> Exit 2 (say (if length argv = 4 then Note_invalid ''cycle count'' (argv ! 3) else Note_usage) r))"
  "start_pc E r = (case starting E (cpu r) of Some s \<Rightarrow> Ok (r\<lparr>cpu := s\<rparr>)
     | None \<Rightarrow> Exit 2 (say (Note_invalid ''ADSP_START_PC'' (the (env E ''ADSP_START_PC''))) r))"
  by (auto simp: cycles_arg_def cycles_asked_def number_in_def start_pc_def starting_def addr_arg_def
      act_def case_prod_beta split: option.split)

lemma prepare_spec:
  assumes quiet: "\<And>v. v \<noteq> ''ADSP_START_PC'' \<Longrightarrow> env E v = None"
    and images: "contents_of E (argv ! 1) = Some pmb" "length pmb = 196608"
      "contents_of E (argv ! 2) = Some dmb" "length dmb = 131072"
    and r: "cpu r = adsp2181_create"
  shows "prepare E argv r = start_pc E (r\<lparr>cpu := booted E pmb dmb\<rparr>)"
  using quiet by (simp add: prepare_def load_images_ok [OF images] act_def booted_def r
      watch_list_def read_script_def read_polls_def)

lemma booted_data: "data (adsp2181_reset s) = data s" "data adsp2181_create = (\<lambda>_. 0)"
proof -
  have "data (reset_dag s) = data s" for s
    using dag_fold_update [of "[0..<8]" s] unfolding reset_dag_def by auto
  then show "data (adsp2181_reset s) = data s" for s by (simp add: adsp2181_reset_def update_mstat_def Let_def)
  then show "data adsp2181_create = (\<lambda>_. 0)" by (simp add: adsp2181_create_def zero_defs)
qed

lemma booted_contents:
  assumes "length pmb = 196608" "length dmb = 131072"
  shows "program (booted E pmb dmb) x =
      (if unat x < 0x4000 then le24 (pmb ! (3 * unat x)) (pmb ! (3 * unat x + 1)) (pmb ! (3 * unat x + 2)) else 0)"
    "data (booted E pmb dmb) x =
      (if unat x < 0x4000 then le16 (dmb ! (2 * unat x)) (dmb ! (2 * unat x + 1)) else 0)"
    "adsp2181_pc (booted E pmb dmb) = 0"
  using pm_image.contents [of 0 pmb "\<lambda>_. 0" x] dm_image.contents [of 0 dmb "\<lambda>_. 0" x] assms
  by (simp_all add: booted_def adsp2181_set_callbacks_def load_pm_def load_dm_def adsp2181_pc_def booted_data)

text \<open>
  C22. What a plain run of the runner does.  With no environment variable set but possibly
  \<^verbatim>\<open>ADSP_START_PC\<close>: if the arguments are not two files and an optional cycle count from 1 to
  1000000000, \<^verbatim>\<open>main\<close> exits with 2 and has not touched its core; otherwise, if a file cannot be read
  or is not exactly 65536 words long, it exits with 1 and its core, never reset or run, differs from a
  new one in its memories only; otherwise, if the start address is not a number up to 0x3fff, it exits
  with 2 and the core is the booted one; and otherwise the core is run, once and for exactly that many
  cycles (100000 if none are given), from the booted core at the start address: the exit code is 0, the
  core is the one the run leaves and the two lines reported are those of the reset and the stop, unless
  the run meets an undefined instruction.  The booted core holds the first 0x4000 little-endian words
  of the two files and stands at address 0.
\<close>

theorem plain_run:
  assumes quiet: "\<And>v. v \<noteq> ''ADSP_START_PC'' \<Longrightarrow> env E v = None"
  shows "(cycles_asked argv = None \<longrightarrow> (\<exists>r. runner_main E argv = Finished 2 r None \<and> cpu r = adsp2181_create)) \<and>
    (\<forall>n. cycles_asked argv = Some n \<longrightarrow> \<not> readable_images E argv \<longrightarrow>
      (\<exists>r p d. runner_main E argv = Finished 1 r None \<and> cpu r = adsp2181_create\<lparr>program := p, data := d\<rparr>)) \<and>
    (\<forall>n pmb dmb. cycles_asked argv = Some n \<longrightarrow> contents_of E (argv ! 1) = Some pmb \<longrightarrow> length pmb = 196608 \<longrightarrow>
        contents_of E (argv ! 2) = Some dmb \<longrightarrow> length dmb = 131072 \<longrightarrow>
      (case starting E (booted E pmb dmb) of
         None \<Rightarrow> \<exists>r. runner_main E argv = Finished 2 r None \<and> cpu r = booted E pmb dmb
       | Some c \<Rightarrow>
           (case adsp2181_run c n of
              None \<Rightarrow> runner_main E argv = Undefined
            | Some (k, s) \<Rightarrow> \<exists>r. runner_main E argv = Finished 0 r None \<and> cpu r = s \<and>
                remarks r = [stopped k s, Note_reset (adsp2181_pc c) (cpu_op c (adsp2181_pc c)) n])) \<and>
      adsp2181_pc (booted E pmb dmb) = 0 \<and>
      (\<forall>x. unat x < 0x4000 \<longrightarrow>
         program (booted E pmb dmb) x = le24 (pmb ! (3 * unat x)) (pmb ! (3 * unat x + 1)) (pmb ! (3 * unat x + 2)) \<and>
         data (booted E pmb dmb) x = le16 (dmb ! (2 * unat x)) (dmb ! (2 * unat x + 1))))"
proof (intro conjI allI impI)
  let ?r0 = "\<lparr>cpu = adsp2181_create, remarks = [], script = [], polls = []\<rparr>"
  note steps = runner_main_def runner_steps_def quiet arguments_spec(1)
  show "\<exists>r. runner_main E argv = Finished 2 r None \<and> cpu r = adsp2181_create" if "cycles_asked argv = None"
    using that by (simp add: steps say_def)
  show "\<exists>r p d. runner_main E argv = Finished 1 r None \<and> cpu r = adsp2181_create\<lparr>program := p, data := d\<rparr>"
    if asked: "cycles_asked argv = Some n" and unread: "\<not> readable_images E argv" for n
  proof -
    obtain r p d where "load_images E argv ?r0 = Exit 1 r" "cpu r = adsp2181_create\<lparr>program := p, data := d\<rparr>"
      using load_images_fails [OF unread, of ?r0] by auto
    then have "runner_main E argv = Finished 1 r None" "cpu r = adsp2181_create\<lparr>program := p, data := d\<rparr>"
      using asked by (simp_all add: steps prepare_def)
    then show ?thesis by blast
  qed
  fix n pmb dmb
  assume n: "cycles_asked argv = Some n"
    and images: "contents_of E (argv ! 1) = Some pmb" "length pmb = 196608"
      "contents_of E (argv ! 2) = Some dmb" "length dmb = 131072"
  note prep = prepare_spec [OF quiet images, of ?r0]
  show "case starting E (booted E pmb dmb) of
         None \<Rightarrow> \<exists>r. runner_main E argv = Finished 2 r None \<and> cpu r = booted E pmb dmb
       | Some c \<Rightarrow>
           (case adsp2181_run c n of
              None \<Rightarrow> runner_main E argv = Undefined
            | Some (k, s) \<Rightarrow> \<exists>r. runner_main E argv = Finished 0 r None \<and> cpu r = s \<and>
                remarks r = [stopped k s, Note_reset (adsp2181_pc c) (cpu_op c (adsp2181_pc c)) n])"
    using n prep quiet
    by (simp add: steps arguments_spec(2) session_def final_run_def run_cpu_def say_def split: option.split)
  show "adsp2181_pc (booted E pmb dmb) = 0" by (rule booted_contents [OF images(2,4)])
  show "program (booted E pmb dmb) x = le24 (pmb ! (3 * unat x)) (pmb ! (3 * unat x + 1)) (pmb ! (3 * unat x + 2))"
    "data (booted E pmb dmb) x = le16 (dmb ! (2 * unat x)) (dmb ! (2 * unat x + 1))" if "unat x < 0x4000" for x
    using booted_contents [OF images(2,4)] that by simp_all
qed

text \<open>The runner on two files of zeros, with a count of one cycle and with a count of none.\<close>

definition zero_files :: runner_env where
  "zero_files = \<lparr>env = (\<lambda>_. None),
     contents_of = (\<lambda>p. if p = ''pm'' then Some (replicate 196608 0) else Some (replicate 131072 0)),
     writable = (\<lambda>_. False)\<rparr>"

lemma zero_run: "\<exists>k s. adsp2181_run (booted zero_files (replicate 196608 0) (replicate 131072 0)) 1 = Some (k, s)"
proof -
  let ?b = "booted zero_files (replicate 196608 0) (replicate 131072 0)"
  have "program ?b 0 = 0" using booted_contents(1) [of "replicate 196608 0" "replicate 131072 0"] by (simp add: le24_def)
  moreover have "settings (ins ?b) = settings (ins adsp2181_create)"
    by (simp add: booted_def adsp2181_set_callbacks_def)
  then have "\<not> force_pm_fetch (ins ?b) 0" by (simp add: settings_def [of "ins ?b"] )
  ultimately have "RWORD_PGM ?b 0 = 0"
    by (simp add: RWORD_PGM_def Let_def) (simp add: booted_def pm_cell_def pm_overlaid_def adsp2181_set_callbacks_def)
  then show ?thesis
    by (intro run_one_defined) (simp_all add: booted_def adsp2181_set_callbacks_def norm_hazard_def)
qed

theorem plain_run_witness:
  "(\<exists>r. runner_main zero_files [''run'', ''pm'', ''dm'', ''1''] = Finished 0 r None) \<and>
   (\<exists>r. runner_main zero_files [''run'', ''pm'', ''dm'', ''0''] = Finished 2 r None) \<and>
   (\<exists>r. runner_main zero_files [''run'', ''dm'', ''dm''] = Finished 1 r None)"
proof -
  have "\<And>v. v \<noteq> ''ADSP_START_PC'' \<Longrightarrow> env zero_files v = None" by (simp add: zero_files_def)
  note main = plain_run [OF this]
  have asked: "cycles_asked [''run'', ''pm'', ''dm'', ''1''] = Some 1" "cycles_asked [''run'', ''pm'', ''dm'', ''0''] = None"
    "cycles_asked [''run'', ''dm'', ''dm''] = Some 100000"
    by (simp_all add: cycles_asked_def strtol_def strto_def sign_of_def radix_def hex_prefix_def is_digit_def
        digit_value_def digits_value_def isspace_def slong_def)
  have files: "contents_of zero_files ''pm'' = Some (replicate 196608 0)"
    "contents_of zero_files ''dm'' = Some (replicate 131072 0)" by (simp_all add: zero_files_def)
  have "starting zero_files c = Some c" for c by (simp add: starting_def zero_files_def)
  then have "\<exists>r. runner_main zero_files [''run'', ''pm'', ''dm'', ''1''] = Finished 0 r None"
    using main [of "[''run'', ''pm'', ''dm'', ''1'']"] asked(1) files zero_run by fastforce
  moreover have "\<not> readable_images zero_files [''run'', ''dm'', ''dm'']" by (auto simp: readable_images_def files)
  ultimately show ?thesis
    using main [of "[''run'', ''pm'', ''dm'', ''0'']"] main [of "[''run'', ''dm'', ''dm'']"] asked(2,3) by blast
qed

section \<open>Serial-port files\<close>

lemma pairs_at:
  "n < length xs \<Longrightarrow> concat (map (\<lambda>x. [f x, g x]) xs) ! (2 * n) = f (xs ! n) \<and>
     concat (map (\<lambda>x. [f x, g x]) xs) ! (2 * n + 1) = g (xs ! n)"
proof (induction xs arbitrary: n)
  case (Cons x xs)
  then show ?case by (cases n) simp_all
qed simp

lemma length_pairs: "length (concat (map (\<lambda>x. [f x, g x]) xs)) = 2 * length xs"
  by (induction xs) simp_all

lemma le16_bytes: "le16 (ucast v) (ucast (drop_bit 8 v)) = ucast (v :: u32)"
proof (rule bit_word_eqI)
  fix j assume "j < LENGTH(16)"
  then show "bit (le16 (ucast v) (ucast (drop_bit 8 v))) j = bit (ucast v :: u16) j"
    by (cases "j < 8") (auto simp: le16_def bit_simps)
qed

text \<open>
  A transmit file is a receive file.  If the file one run wrote for a port is given to another run
  as its receive file, the words it receives are the words that were transmitted, in order; once they
  are used up the port receives its loopback value or 0.
\<close>

theorem sport_file_round_trip:
  assumes "port < 2" "rx_files port = Some (tx_file h port')"
  shows "runner_sport_rx rx_files lb port h' =
    (if rx_reads h' port < tx_writes h port'
     then scast (ucast (tx_value (rev (filter (is_tx port') h) ! rx_reads h' port)) :: u16)
     else scast (if lb port then last_tx h' port else 0))"
proof -
  have len: "length (tx_file h port') = 2 * tx_writes h port'"
    by (simp add: tx_file_def tx_writes_def length_pairs)
  show ?thesis
  proof (cases "rx_reads h' port < tx_writes h port'")
    case True
    then have "2 * rx_reads h' port + 2 \<le> length (tx_file h port')" by (simp add: len)
    moreover have "le16 (tx_file h port' ! (2 * rx_reads h' port)) (tx_file h port' ! (2 * rx_reads h' port + 1)) =
        ucast (tx_value (rev (filter (is_tx port') h) ! rx_reads h' port))"
      using pairs_at [of "rx_reads h' port" "rev (filter (is_tx port') h)"
          "\<lambda>e. ucast (tx_value e) :: u8" "\<lambda>e. ucast (drop_bit 8 (tx_value e))"] True
      by (simp add: tx_file_def tx_writes_def le16_bytes)
    ultimately show ?thesis using True assms by (simp add: runner_sport_rx_def)
  next
    case False
    then show ?thesis using assms by (simp add: runner_sport_rx_def len)
  qed
qed

theorem sport_file_round_trip_witness:
  "runner_sport_rx (\<lambda>_. Some (tx_file [Ev_tx 0 0x8002, Ev_tx 0 7] 0)) (\<lambda>_. False) 1 [Ev_rx 1] = 0xffff8002"
  using sport_file_round_trip [of 1 "\<lambda>_. Some (tx_file [Ev_tx 0 0x8002, Ev_tx 0 7] 0)" "[Ev_tx 0 0x8002, Ev_tx 0 7]" 0 "\<lambda>_. False" "[Ev_rx 1]"]
  by (simp add: rx_reads_def tx_writes_def)

end
