(* ===== verification/Ym1.thy ===== *)
theory Ym1
  imports CText Machine
begin

text \<open>
  The \<^verbatim>\<open>EICON_YM1_*\<close> switches (\<^verbatim>\<open>ym1_env_init\<close> in \<^verbatim>\<open>adsp2181_core.c\<close>), read from the
  environment the first time the core decrements a Y operand.  The loop over the address list is a
  partial function; that it always ends is a theorem.
\<close>

definition mark :: "int \<Rightarrow> int \<Rightarrow> (u32 \<Rightarrow> bool) \<Rightarrow> u32 \<Rightarrow> bool" where
  "mark lo hi pcs =
     (\<lambda>a. pcs a \<or> ((if lo < 0 then 0 else lo) \<le> uint a \<and> uint a \<le> (if hi > 0x3fff then 0x3fff else hi)))"

partial_function (option) ym1_pcs :: "string \<Rightarrow> (u32 \<Rightarrow> bool) \<Rightarrow> (u32 \<Rightarrow> bool) option" where
  "ym1_pcs p pcs =
     (if p = [] then Some pcs
      else if strto 0 p = None then Some pcs
      else
        (let (lo, end1) = strtol 0 p;
             (hi, end2) = (if take 1 end1 = ''-'' then strtol 0 (drop 1 end1) else (lo, end1))
         in ym1_pcs (if take 1 end2 = '','' then drop 1 end2 else end2) (mark lo hi pcs)))"

definition ym1_env_init :: "(string \<Rightarrow> string option) \<Rightarrow> instr_state \<Rightarrow> instr_state option" where
  "ym1_env_init env n =
     (let mame_all = (case env ''EICON_YM1_MAME_ALL'' of None \<Rightarrow> False
                      | Some s \<Rightarrow> s \<noteq> [] \<and> take 1 s \<noteq> ''0'');
          budget = (case env ''EICON_YM1_LOG'' of None \<Rightarrow> 0 | Some s \<Rightarrow> if s \<noteq> [] then fst (strtol 0 s) else 0)
      in map_option (\<lambda>pcs. n\<lparr>ym1_mame_all := mame_all, ym1_mame_pc := pcs, ym1_log_budget := budget\<rparr>)
           (case env ''EICON_YM1_MAME_PCS'' of None \<Rightarrow> Some (ym1_mame_pc n)
            | Some s \<Rightarrow> ym1_pcs s (ym1_mame_pc n)))"

section \<open>The list is read to its end\<close>

lemma strtol_rest: "length (snd (strtol b s)) \<le> length s"
  by (auto simp: strtol_def split: option.split dest!: strto_shorter)

lemma strtol_progress: "strto b s \<noteq> None \<Longrightarrow> length (snd (strtol b s)) < length s"
  by (auto simp: strtol_def split: option.split dest: strto_shorter)

lemma ym1_pcs_returns: "\<exists>pcs'. ym1_pcs p pcs = Some pcs'"
proof (induction p arbitrary: pcs rule: length_induct)
  case (1 p)
  define end1 where "end1 = snd (strtol 0 p)"
  define he where "he = (if take 1 end1 = ''-'' then strtol 0 (drop 1 end1) else (fst (strtol 0 p), end1))"
  define p' where "p' = (if take 1 (snd he) = '','' then drop 1 (snd he) else snd he)"
  show ?case
  proof (cases "p = [] \<or> strto 0 p = None")
    case True
    then show ?thesis by (subst ym1_pcs.simps) auto
  next
    case False
    have "length p' \<le> length (snd he)" by (simp add: p'_def)
    moreover have "length (snd he) \<le> length end1"
      using strtol_rest [of 0 "drop 1 end1"] diff_le_self [of "length end1" 1] by (auto simp: he_def)
    ultimately have "length p' < length p"
      using strtol_progress [of 0 p] False unfolding end1_def by linarith
    moreover have "ym1_pcs p pcs = ym1_pcs p' (mark (fst (strtol 0 p)) (fst he) pcs)"
      unfolding p'_def he_def end1_def using False
      by (subst ym1_pcs.simps) (simp only: Let_def case_prod_beta de_Morgan_disj not_False_eq_True if_False)
    ultimately show ?thesis using 1 by simp
  qed
qed

section \<open>What a printed list selects\<close>

definition hex_arg :: "nat \<Rightarrow> string" where
  "hex_arg n = ''0x'' @ digits False 16 n"

lemma strtol_hex_arg:
  assumes "n < 2 ^ 63" "r = [] \<or> \<not> is_digit 16 (hd r)"
  shows "strto 0 (hex_arg n @ r) = Some (False, n, r)" "strtol 0 (hex_arg n @ r) = (int n, r)"
proof -
  define ds where "ds = digits False 16 n"
  obtain d es where d: "ds = d # es" "is_digit 16 d"
    using hex.digits_are_digits [of _ False n] hex.digits_nonempty [of False n] by (cases ds) (auto simp: ds_def)
  have rb: "takeWhile (is_digit 16) (ds @ r) = ds" "dropWhile (is_digit 16) (ds @ r) = r" "digits_value 16 ds = n"
    using hex.read_back [OF assms(2), of 0 False n] by (simp_all add: pad_def ds_def)
  have "hex_prefix (''0x'' @ ds @ r)" using d by (simp add: hex_prefix_def)
  then have "radix 0 (''0x'' @ ds @ r) = (16, ds @ r)" by (simp add: radix_def)
  moreover have "sign_of (dropWhile isspace (''0x'' @ ds @ r)) = (False, ''0x'' @ ds @ r)"
    by (simp add: isspace_def sign_of_def)
  ultimately show "strto 0 (hex_arg n @ r) = Some (False, n, r)"
    unfolding hex_arg_def append_assoc ds_def [symmetric] strto_def using rb d by simp
  then show "strtol 0 (hex_arg n @ r) = (int n, r)" using assms(1) by (simp add: strtol_def slong_def)
qed

definition range_arg :: "nat \<times> nat \<Rightarrow> string" where
  "range_arg = (\<lambda>(lo, hi). hex_arg lo @ ''-'' @ hex_arg hi @ '','')"

lemma ym1_pcs_ranges:
  "\<forall>(lo, hi) \<in> set rs. lo < 0x4000 \<and> hi < 0x4000 \<Longrightarrow>
     ym1_pcs (concat (map range_arg rs)) pcs = Some (fold (\<lambda>(lo, hi). mark (int lo) (int hi)) rs pcs)"
proof (induction rs arbitrary: pcs)
  case Nil
  then show ?case by (simp add: ym1_pcs.simps)
next
  case (Cons r rs)
  obtain lo hi where r: "r = (lo, hi)" by (cases r)
  let ?t = "concat (map range_arg rs)"
  have b: "lo < 2 ^ 63" "hi < 2 ^ 63" using Cons.prems by (auto simp: r)
  have n: "\<not> is_digit 16 (CHR ''-'')" "\<not> is_digit 16 (CHR '','')" by (simp_all add: is_digit_def digit_value_def)
  note lo = strtol_hex_arg [OF b(1), of "''-'' @ hex_arg hi @ '','' @ ?t"]
    and hi = strtol_hex_arg [OF b(2), of "'','' @ ?t"]
  have "hex_arg lo @ s \<noteq> []" for s by (simp add: hex_arg_def)
  then have "ym1_pcs (hex_arg lo @ ''-'' @ hex_arg hi @ '','' @ ?t) pcs = ym1_pcs ?t (mark (int lo) (int hi) pcs)"
    using lo hi n by (subst ym1_pcs.simps) simp
  then show ?case using Cons.IH [of "mark (int lo) (int hi) pcs"] Cons.prems by (simp add: r range_arg_def)
qed

lemma mark_one: "hi < 0x4000 \<Longrightarrow> mark (int lo) (int hi) pcs a = (pcs a \<or> (lo \<le> unat a \<and> unat a \<le> hi))"
proof -
  assume "hi < 0x4000"
  then have h: "\<not> int hi > 0x3fff" by simp
  show ?thesis unfolding mark_def uint_nat by (simp only: h of_nat_le_iff of_nat_less_0_iff if_False)
qed

lemma mark_fold:
  "\<forall>(lo, hi) \<in> set rs. lo < 0x4000 \<and> hi < 0x4000 \<Longrightarrow>
     fold (\<lambda>(lo, hi). mark (int lo) (int hi)) rs pcs a = (pcs a \<or> (\<exists>(lo, hi) \<in> set rs. lo \<le> unat a \<and> unat a \<le> hi))"
proof (induction rs arbitrary: pcs)
  case (Cons r rs)
  obtain lo hi where r: "r = (lo, hi)" by (cases r)
  then show ?case using Cons.IH [of "mark (int lo) (int hi) pcs"] Cons.prems mark_one [of hi lo pcs a]
    by (simp add: disj_assoc)
qed simp

text \<open>
  The selector of \<^verbatim>\<open>EICON_YM1_MAME_PCS\<close> always terminates.  Whatever the text is, initialisation
  returns; and a list of hexadecimal ranges \<^verbatim>\<open>0xLO-0xHI,\<close> selects exactly the addresses in one of
  them.
\<close>

theorem ym1_init_terminates:
  "(\<exists>n'. ym1_env_init env n = Some n') \<and>
   ((\<forall>(lo, hi) \<in> set rs. lo < 0x4000 \<and> hi < 0x4000) \<longrightarrow> env ''EICON_YM1_MAME_PCS'' = Some (concat (map range_arg rs)) \<longrightarrow>
     (\<exists>n'. ym1_env_init env n = Some n' \<and>
       (\<forall>a. ym1_mame_pc n' a \<longleftrightarrow> ym1_mame_pc n a \<or> (\<exists>(lo, hi) \<in> set rs. lo \<le> unat a \<and> unat a \<le> hi))))"
proof -
  have "\<exists>n'. ym1_env_init env n = Some n'"
    using ym1_pcs_returns by (auto simp: ym1_env_init_def Let_def split: option.split)
  moreover have "\<exists>n'. ym1_env_init env n = Some n' \<and>
       (\<forall>a. ym1_mame_pc n' a \<longleftrightarrow> ym1_mame_pc n a \<or> (\<exists>(lo, hi) \<in> set rs. lo \<le> unat a \<and> unat a \<le> hi))"
    if "\<forall>(lo, hi) \<in> set rs. lo < 0x4000 \<and> hi < 0x4000" "env ''EICON_YM1_MAME_PCS'' = Some (concat (map range_arg rs))"
    by (simp add: ym1_env_init_def Let_def that(2) ym1_pcs_ranges [OF that(1)] mark_fold [OF that(1)])
  ultimately show ?thesis by blast
qed

theorem ym1_init_terminates_witness:
  "\<exists>n'. ym1_env_init (\<lambda>v. if v = ''EICON_YM1_MAME_PCS'' then Some (concat (map range_arg [(0x10, 0x1f)])) else None)
     instr_zero = Some n' \<and> ym1_mame_pc n' 0x18 \<and> \<not> ym1_mame_pc n' 0x20"
  using ym1_init_terminates [of "\<lambda>v. if v = ''EICON_YM1_MAME_PCS'' then Some (concat (map range_arg [(0x10, 0x1f)])) else None" instr_zero "[(0x10, 0x1f)]"]
  by (auto simp: instr_zero_def)

end
