(* ===== verification/Loops.thy ===== *)
theory Loops
  imports Execute
begin

text \<open>
  Counted loops (\<^verbatim>\<open>DO address UNTIL CE\<close>), the return from interrupts, and the hardware stacks as a
  refinement of bounded lists.
  The loop decision is taken in \<^verbatim>\<open>execute\<close> when the last instruction of the body is fetched, before
  that instruction is executed.
\<close>

section \<open>Counted loops\<close>

definition seq_state :: "adsp2181 \<Rightarrow> u32 \<times> u32 \<times> u32 \<times> u32 list \<times> u32 list \<times> u32 list" where
  "seq_state s = (cntr s, loop_end s, loop_condition s, pc_list s, loop_list s, cntr_list s)"

text \<open>
  One pass: the instructions before the last, the fetch of the last one with its loop decision, and
  its execution.
\<close>

definition loop_pass :: "(adsp2181 \<Rightarrow> adsp2181) \<Rightarrow> (adsp2181 \<Rightarrow> adsp2181) \<Rightarrow> adsp2181 \<Rightarrow> adsp2181" where
  "loop_pass first final s = final (advance_pc ((first s)\<lparr>pc := loop_end s\<rparr>))"

lemma lists_pc [simp]: "pc_list (s\<lparr>pc := p\<rparr>) = pc_list s" "loop_list (s\<lparr>pc := p\<rparr>) = loop_list s"
    "cntr_list (s\<lparr>pc := p\<rparr>) = cntr_list s" "pc_list (s\<lparr>cntr := c\<rparr>) = pc_list s"
    "loop_list (s\<lparr>cntr := c\<rparr>) = loop_list s" "cntr_list (s\<lparr>cntr := c\<rparr>) = cntr_list s"
  by (simp_all add: pc_list_def loop_list_def cntr_list_def)

lemma lists_pops [simp]:
  "pc_list (loop_stack_pop s) = pc_list s" "pc_list (cntr_stack_pop s) = pc_list s"
  "loop_list (cntr_stack_pop s) = loop_list s" "loop_list (snd (pc_stack_pop_val s)) = loop_list s"
  "cntr_list (loop_stack_pop s) = cntr_list s" "cntr_list (snd (pc_stack_pop_val s)) = cntr_list s"
  by (simp_all add: pc_list_def loop_list_def cntr_list_def loop_stack_pop_def cntr_stack_pop_def
      pc_stack_pop_val_def note_pcsp_def Let_def)

lemma pc_top_list: "pc_list s \<noteq> [] \<Longrightarrow> pc_stack_top s = last (pc_list s)"
  by (rule pcs.top_last)

lemma advance_again:
  assumes "pc s = loop_end s" "loop_condition s = 14" "0 <s cntr s - 1"
  shows "advance_pc s = s\<lparr>cntr := cntr s - 1, pc := pc_stack_top s\<rparr>"
  using assms by (simp add: advance_pc_def CONDITION_def Let_def pc_stack_top_def)

lemma advance_leave:
  assumes "pc s = loop_end s" "loop_condition s = 14" "\<not> 0 <s cntr s - 1"
  shows "pc (advance_pc s) = loop_end s + 1" "pc_list (advance_pc s) = butlast (pc_list s)"
    "loop_list (advance_pc s) = butlast (loop_list s)" "cntr_list (advance_pc s) = butlast (cntr_list s)"
proof -
  define s1 where "s1 = cntr_stack_pop (s\<lparr>cntr := cntr s - 1\<rparr>)"
  have a: "advance_pc s = (let s2 = snd (pc_stack_pop_val (loop_stack_pop s1)) in s2\<lparr>pc := pc s2 + 1\<rparr>)"
    using assms by (simp add: advance_pc_def CONDITION_def Let_def s1_def)
  have "pc (snd (pc_stack_pop_val (loop_stack_pop s1))) = pc s"
    by (simp add: s1_def pc_stack_pop_val_def loop_stack_pop_def cntr_stack_pop_def note_pcsp_def Let_def)
  then show "pc (advance_pc s) = loop_end s + 1" using assms(1) by (simp add: a Let_def)
  show "pc_list (advance_pc s) = butlast (pc_list s)" "loop_list (advance_pc s) = butlast (loop_list s)"
    "cntr_list (advance_pc s) = butlast (cntr_list s)"
    by (simp_all add: a Let_def pcs.contents_pop loops.contents_pop cntrs.contents_pop s1_def)
qed

lemma sint_pred: "0 < sint c \<Longrightarrow> sint (c - 1) = sint (c :: u32) - 1"
  using sint_range_size [of c] by (simp add: sint_word_diff word_size signed_take_bit_int_eq_self)

lemma sless_pred: "0 < sint c \<Longrightarrow> (0 <s c - 1) = (1 < sint (c :: u32))"
  by (simp add: word_sless_alt sint_pred)

text \<open>The instructions of a body as seen by the sequencer: they leave its state alone.\<close>

locale loop_body =
  fixes first final :: "adsp2181 \<Rightarrow> adsp2181"
  assumes first_seq: "seq_state (first s) = seq_state s"
    and final_seq: "seq_state (final s) = seq_state s"
    and final_pc: "pc (final s) = pc s"
begin

lemma pass_again:
  assumes "loop_condition s = 14" "1 < sint (cntr s)" "pc_list s \<noteq> []"
  shows "seq_state (loop_pass first final s) = seq_state (s\<lparr>cntr := cntr s - 1\<rparr>)"
    "pc (loop_pass first final s) = last (pc_list s)"
proof -
  let ?t = "(first s)\<lparr>pc := loop_end s\<rparr>"
  have t: "cntr ?t = cntr s" "loop_end ?t = loop_end s" "loop_condition ?t = loop_condition s"
    "pc_list ?t = pc_list s" "loop_list ?t = loop_list s" "cntr_list ?t = cntr_list s"
    using first_seq [of s] by (simp_all add: seq_state_def)
  have "advance_pc ?t = ?t\<lparr>cntr := cntr ?t - 1, pc := pc_stack_top ?t\<rparr>"
    using assms t sless_pred [of "cntr s"] by (intro advance_again) simp_all
  moreover have "pc_stack_top ?t = last (pc_list s)" using assms(3) t pc_top_list [of ?t] by simp
  ultimately show "seq_state (loop_pass first final s) = seq_state (s\<lparr>cntr := cntr s - 1\<rparr>)"
    "pc (loop_pass first final s) = last (pc_list s)"
    using t final_seq [of "advance_pc ?t"] by (simp_all add: loop_pass_def final_pc seq_state_def del: t)
qed

lemma pass_leave:
  assumes "loop_condition s = 14" "sint (cntr s) = 1"
  shows "pc (loop_pass first final s) = loop_end s + 1"
    "pc_list (loop_pass first final s) = butlast (pc_list s)"
    "loop_list (loop_pass first final s) = butlast (loop_list s)"
    "cntr_list (loop_pass first final s) = butlast (cntr_list s)"
proof -
  let ?t = "(first s)\<lparr>pc := loop_end s\<rparr>"
  have t: "cntr ?t = cntr s" "loop_end ?t = loop_end s" "loop_condition ?t = loop_condition s"
    "pc_list ?t = pc_list s" "loop_list ?t = loop_list s" "cntr_list ?t = cntr_list s"
    using first_seq [of s] by (simp_all add: seq_state_def)
  have "pc ?t = loop_end ?t" "loop_condition ?t = 14" "\<not> 0 <s cntr ?t - 1"
    using assms t sless_pred [of "cntr s"] by simp_all
  from advance_leave [OF this] show "pc (loop_pass first final s) = loop_end s + 1"
    "pc_list (loop_pass first final s) = butlast (pc_list s)"
    "loop_list (loop_pass first final s) = butlast (loop_list s)"
    "cntr_list (loop_pass first final s) = butlast (cntr_list s)"
    using t final_seq [of "advance_pc ?t"] by (simp_all add: loop_pass_def final_pc seq_state_def del: t)
qed

lemma passes:
  assumes "loop_condition s = 14" "pc_list s \<noteq> []"
  shows "int k < sint (cntr s) \<Longrightarrow> seq_state ((loop_pass first final ^^ k) s) = seq_state (s\<lparr>cntr := cntr s - of_nat k\<rparr>) \<and>
    sint (cntr s - of_nat k) = sint (cntr s) - int k \<and> (0 < k \<longrightarrow> pc ((loop_pass first final ^^ k) s) = last (pc_list s))"
proof (induction k)
  case (Suc k)
  let ?u = "(loop_pass first final ^^ k) s"
  have u: "cntr ?u = cntr s - of_nat k" "loop_condition ?u = 14" "pc_list ?u = pc_list s"
    "seq_state ?u = seq_state (s\<lparr>cntr := cntr s - of_nat k\<rparr>)" "sint (cntr s - of_nat k) = sint (cntr s) - int k"
    using Suc assms by (simp_all add: seq_state_def)
  then have n: "1 < sint (cntr ?u)" using Suc.prems by simp
  have "seq_state (loop_pass first final ?u) = seq_state (?u\<lparr>cntr := cntr ?u - 1\<rparr>)"
    "pc (loop_pass first final ?u) = last (pc_list ?u)"
    using pass_again [of ?u] u n assms by simp_all
  moreover have "sint (cntr s - of_nat k - 1) = sint (cntr s) - int k - 1"
    using sint_pred [of "cntr s - of_nat k"] n u by simp
  ultimately show ?case using u by (simp add: seq_state_def algebra_simps)
qed (use assms in simp)

lemma counted:
  assumes "loop_condition s = 14" "pc_list s \<noteq> []" "0 < sint (cntr s)"
  defines "n \<equiv> nat (sint (cntr s))"
  shows "(\<forall>k. 0 < k \<and> k < n \<longrightarrow> pc ((loop_pass first final ^^ k) s) = last (pc_list s)) \<and>
    pc ((loop_pass first final ^^ n) s) = loop_end s + 1 \<and>
    pc_list ((loop_pass first final ^^ n) s) = butlast (pc_list s) \<and>
    loop_list ((loop_pass first final ^^ n) s) = butlast (loop_list s) \<and>
    cntr_list ((loop_pass first final ^^ n) s) = butlast (cntr_list s)"
proof -
  obtain k where k: "n = Suc k" using assms(3) by (cases n) (auto simp: n_def)
  let ?u = "(loop_pass first final ^^ k) s"
  have "int k < sint (cntr s)" using k by (simp add: n_def)
  note p = passes [OF assms(1,2) this]
  have "loop_condition ?u = 14" "sint (cntr ?u) = 1" "loop_end ?u = loop_end s"
    "pc_list ?u = pc_list s" "loop_list ?u = loop_list s" "cntr_list ?u = cntr_list s"
    using p assms(1) k by (simp_all add: seq_state_def n_def)
  moreover have "int j < sint (cntr s)" if "j < n" for j using that unfolding n_def by linarith
  ultimately show ?thesis using pass_leave [of ?u] passes [OF assms(1,2)] by (simp add: k)
qed

end

text \<open>An example of such a body: MODIFY instructions closed by a saturation of MR.\<close>

interpretation modify_body: loop_body "\<lambda>s. modify_address s i m" saturate_mr for i m
  by unfold_locales
    (auto simp: seq_state_def pc_list_def loop_list_def cntr_list_def modify_address_def saturate_mr_def Let_def)

text \<open>
  C26. A counted loop runs its body CNTR times and then ends.  For a loop whose condition is CE and
  whose body leaves the sequencer alone, every end of a pass but the last branches back to the address
  on top of the PC stack; the CNTR-th falls through to the instruction after the loop with PC, loop
  and counter stack each popped once.
\<close>

theorem counted_loop:
  assumes "\<forall>s. seq_state (first s) = seq_state s" "\<forall>s. seq_state (final s) = seq_state s \<and> pc (final s) = pc s"
    and "loop_condition s = 14" "pc_list s \<noteq> []" "0 < sint (cntr s)"
  shows "(\<forall>k. 0 < k \<and> k < nat (sint (cntr s)) \<longrightarrow> pc ((loop_pass first final ^^ k) s) = last (pc_list s)) \<and>
    pc ((loop_pass first final ^^ nat (sint (cntr s))) s) = loop_end s + 1 \<and>
    pc_list ((loop_pass first final ^^ nat (sint (cntr s))) s) = butlast (pc_list s) \<and>
    loop_list ((loop_pass first final ^^ nat (sint (cntr s))) s) = butlast (loop_list s) \<and>
    cntr_list ((loop_pass first final ^^ nat (sint (cntr s))) s) = butlast (cntr_list s)"
proof -
  have "loop_body first final" using assms(1,2) by unfold_locales simp_all
  then show ?thesis using assms(3-5) by (rule loop_body.counted)
qed


definition looping :: adsp2181 where
  "looping = adsp2181_zero\<lparr>cntr := 3, loop_sp := 1, loop_end := 0x123, loop_condition := 14,
     loop_stack := (\<lambda>_. 0x123e), pc_sp := 1, pc_stack := (\<lambda>_. 0x120), cntr_sp := 1, cntr_stack := (\<lambda>_. 9)\<rparr>"

theorem counted_loop_witness:
  "pc ((loop_pass (\<lambda>s. modify_address s 0 0) saturate_mr ^^ 2) looping) = 0x120 \<and>
   pc ((loop_pass (\<lambda>s. modify_address s 0 0) saturate_mr ^^ 3) looping) = 0x124"
proof -
  have "loop_condition looping = 14" "pc_list looping = [0x120]" "sint (cntr looping) = 3" "loop_end looping = 0x123"
    by (simp_all add: looping_def pc_list_def)
  then show ?thesis
    using counted_loop [of "\<lambda>s. modify_address s 0 0" saturate_mr looping]
      modify_body.first_seq modify_body.final_seq modify_body.final_pc by simp
qed

section \<open>Return from interrupts\<close>

definition IF_TRUE_RTI :: u32 where "IF_TRUE_RTI = 0x0a001f"

abbreviation (input) saved_status :: "adsp2181 \<Rightarrow> u16 \<times> u16 \<times> u16" where
  "saved_status s \<equiv> (ucast (mstat s), imask s, ucast (astat s))"

lemma irq_entry_lists:
  assumes "imask s AND drop_bit p 0x200 \<noteq> 0" "pc_sp s < PC_STACK_DEPTH" "stat_sp s < STAT_STACK_DEPTH"
  shows "pc_list (snd (generate_irq s w p)) = pc_list s @ [pc s]"
    "stat_list (snd (generate_irq s w p)) = stat_list s @ [saved_status s]"
  using assms by (simp_all add: generate_irq_def Let_def stat_stack_push_def pc_stack_push_def note_pcsp_def
      pc_list_def stat_list_def)

lemma always_true: "a < 256 \<Longrightarrow> condition_table (push_bit 8 15 OR a)"
proof -
  assume "a < 256"
  then have "drop_bit 8 a = 0" by (simp add: drop_bit_eq_div word_less_nat_alt unat_div word_unat_eq_iff)
  then show ?thesis by (simp add: condition_table_def drop_bit_or Let_def)
qed

lemma map_stack_snoc: "map f [0..<n] = xs @ [x] \<Longrightarrow> n = Suc (length xs) \<and> f (length xs) = x \<and> map f [0..<length xs] = xs"
  by (cases n) auto

lemma stat_restore_fields:
  "pc (stat_restore s) = pc s" "pc_list (stat_restore s) = pc_list s" "irq_lines (stat_restore s) = irq_lines s"
  "stat_list (stat_restore s) = map (stat_stack s) [0..<stat_sp s - 1]"
  by (simp_all add: stat_restore_def update_mstat_def Let_def case_prod_beta pc_list_def irq_lines_def stat_list_def)

lemma stat_restore_status:
  assumes "stat_stack s (stat_sp s - 1) = (m, k, x)" "mstat_prev s = v"
  shows "mstat (stat_restore s) = ucast m" "imask (stat_restore s) = k" "astat (stat_restore s) = ucast x"
    "core (stat_restore s) = (if (ucast m XOR v) AND MSTAT_BANK \<noteq> 0 then alt s else core s)"
  using assms by (simp_all add: stat_restore_def update_mstat_def Let_def)

lemma find_hd_filter: "find Q xs = (if filter Q xs = [] then None else Some (hd (filter Q xs)))"
  by (induction xs) auto

text \<open>The instruction itself: both pops, then the search for interrupts.\<close>

lemma rti_restores:
  assumes "pc_list h = ps @ [a]" "stat_list h = ss @ [(m, k, x)]" "mstat_prev h = mstat h" "astat h < 256"
  obtains r where "exec_op h IF_TRUE_RTI = Some (check_irqs r)" "pc r = a" "pc_list r = ps" "stat_list r = ss"
    "mstat r = ucast m" "imask r = k" "astat r = ucast x" "irq_lines r = irq_lines h"
    "interrupts_enabled r = interrupts_enabled h"
    "core r = (if (ucast m XOR mstat h) AND MSTAT_BANK \<noteq> 0 then alt h else core h)"
proof -
  note p = map_stack_snoc [OF assms(1) [unfolded pc_list_def]] and q = map_stack_snoc [OF assms(2) [unfolded stat_list_def]]
  let ?r = "stat_restore (pc_stack_pop h)"
  have pop: "stat_sp (pc_stack_pop h) = stat_sp h" "stat_stack (pc_stack_pop h) = stat_stack h" "mstat_prev (pc_stack_pop h) = mstat h"
    "pc (pc_stack_pop h) = a" "pc_list (pc_stack_pop h) = ps" "irq_lines (pc_stack_pop h) = irq_lines h"
    "core (pc_stack_pop h) = core h" "alt (pc_stack_pop h) = alt h" "interrupts_enabled (pc_stack_pop h) = interrupts_enabled h"
    using p assms(3) by (simp_all add: pc_stack_pop_def note_pcsp_def Let_def pc_list_def irq_lines_def)
  have "exec_op h IF_TRUE_RTI = Some (stat_stack_pop (pc_stack_pop h))"
    using always_true [OF assms(4)]
    by (simp add: IF_TRUE_RTI_def exec_op_def exec_00_0f_def exec_return_def when_condition_def CONDITION_def Let_def)
  also have "stat_stack_pop (pc_stack_pop h) = check_irqs ?r" using q by (simp add: stat_stack_pop_def pop)
  finally show thesis
    using q stat_restore_status [of "pc_stack_pop h" m k x "mstat h"]
    by (intro that [of ?r]) (simp_all add: stat_restore_fields stat_restore_stack pop)
qed

text \<open>
  C5. Interrupt entry and RTI.  Taking an interrupt of priority \<open>p\<close> with room on both stacks vectors to
  \<open>4 + 4p\<close> with that priority masked.  Whatever the handler does, if it ends with the PC and status
  stack as it found them, the RTI instruction gives back PC, IMASK, MSTAT, ASTAT, the register bank and
  both stacks when no enabled interrupt is requested under the restored mask; otherwise the requested
  one of smallest priority number is entered at once, with the interrupted PC and status saved again.
\<close>

theorem interrupt_round_trip:
  assumes "imask s AND drop_bit priority 0x200 \<noteq> 0" "pc_sp s < 16" "stat_sp s < 4" "mstat s < 128" "astat s < 256"
    and "s1 = snd (generate_irq s which priority)"
    and "pc_list h = pc_list s1" "stat_list h = stat_list s1" "mstat_prev h = mstat h" "astat h < 256"
    and "requested = filter (\<lambda>(w, p, pending). pending \<and> imask s AND drop_bit p 0x200 \<noteq> 0) (irq_lines h)"
  shows "pc s1 = 4 + 4 * of_nat priority \<and> imask s1 AND drop_bit priority 0x200 = 0 \<and>
    (\<exists>t. exec_op h IF_TRUE_RTI = Some t \<and>
      (if interrupts_enabled h \<and> requested \<noteq> []
       then pc t = 4 + 4 * of_nat (Min (fst ` snd ` set requested)) \<and> pc_list t = pc_list s @ [pc s] \<and>
         stat_list t = stat_list s @ [(ucast (mstat s), imask s, ucast (astat s))]
       else pc t = pc s \<and> imask t = imask s \<and> mstat t = mstat s \<and> astat t = astat s \<and>
         pc_list t = pc_list s \<and> stat_list t = stat_list s \<and>
         core t = (if (mstat s XOR mstat h) AND MSTAT_BANK \<noteq> 0 then alt h else core h)))"
proof -
  have u: "ucast (ucast (mstat s) :: u16) = mstat s" "ucast (ucast (astat s) :: u16) = astat s"
    using assms(4,5) by (auto intro!: u32_u16_u32 elim: order.strict_trans)
  have e: "pc_list h = pc_list s @ [pc s]" "stat_list h = stat_list s @ [saved_status s]"
    using irq_entry_lists [OF assms(1)] assms(2,3,6-8) by simp_all
  obtain r where r: "exec_op h IF_TRUE_RTI = Some (check_irqs r)" "pc r = pc s" "pc_list r = pc_list s" "stat_list r = stat_list s"
    "mstat r = mstat s" "imask r = imask s" "astat r = astat s" "irq_lines r = irq_lines h" "interrupts_enabled r = interrupts_enabled h"
    "core r = (if (mstat s XOR mstat h) AND MSTAT_BANK \<noteq> 0 then alt h else core h)"
    using rti_restores [OF e assms(9,10)] unfolding u by blast
  have t: "irq_takeable r = (\<lambda>(w, p, pending). pending \<and> imask s AND drop_bit p 0x200 \<noteq> 0)"
    by (auto simp: irq_takeable_def r(6))
  have c: "check_irqs r = (if interrupts_enabled h \<and> requested \<noteq> [] then snd (generate_irq r (fst (hd requested)) (fst (snd (hd requested)))) else r)"
    by (simp add: check_irqs_def try_irqs_find r(8,9) t assms(11) find_hd_filter case_prod_beta)
  have room: "pc_sp r < 16" "stat_sp r < 4"
    using assms(2,3) arg_cong [OF r(3), of length] arg_cong [OF r(4), of length] by (simp_all add: stat_list_def)
  have min: "Min (fst ` snd ` set requested) = fst (snd (hd requested))" if "requested \<noteq> []"
  proof -
    have "sorted_wrt (\<lambda>a b. fst (snd a) < fst (snd b)) requested"
      unfolding assms(11) by (rule sorted_wrt_filter [OF irq_lines_sorted])
    then show ?thesis using that by (cases requested) (auto intro!: Min_eqI simp: order.strict_implies_order)
  qed
  have "imask r AND drop_bit (fst (snd (hd requested))) 0x200 \<noteq> 0" if "requested \<noteq> []"
    using hd_in_set [OF that] unfolding assms(11) by (auto simp: r(6))
  then have n: "requested \<noteq> [] \<Longrightarrow> pc (snd (generate_irq r w (fst (snd (hd requested))))) = 4 + 4 * of_nat (fst (snd (hd requested)))"
    "requested \<noteq> [] \<Longrightarrow> pc_list (snd (generate_irq r w (fst (snd (hd requested))))) = pc_list s @ [pc s]"
    "requested \<noteq> [] \<Longrightarrow> stat_list (snd (generate_irq r w (fst (snd (hd requested))))) = stat_list s @ [saved_status s]" for w
    using generate_irq_effect(1) [of r] irq_entry_lists [of r] room r by simp_all
  show ?thesis using generate_irq_effect(1,4) [OF assms(1)] r(1) n min r(2-7,10)
    by (simp add: assms(6) c del: imp_disjL)
qed

theorem interrupt_round_trip_witness:
  "let s = adsp2181_zero\<lparr>imask := 0x3ff, pc := 0x123, interrupts_enabled := True\<rparr>; s1 = snd (generate_irq s ADSP2181_SPORT0_RX 4)
   in pc s1 = 20 \<and> (\<exists>t. exec_op s1 IF_TRUE_RTI = Some t \<and> pc t = 0x123 \<and> imask t = 0x3ff)"
proof -
  define s where "s = adsp2181_zero\<lparr>imask := 0x3ff, pc := 0x123, interrupts_enabled := True\<rparr>"
  define s1 where "s1 = snd (generate_irq s ADSP2181_SPORT0_RX 4)"
  have "irq_lines s1 = irq_lines (s\<lparr>irq_latch := (irq_latch s)(3 := False)\<rparr>)" "mstat_prev s1 = mstat s1" "astat s1 < 256"
    by (simp_all add: s1_def s_def generate_irq_def zero_defs Let_def stat_stack_push_def pc_stack_push_def note_pcsp_def
        irq_lines_def fun_upd_def)
  then show ?thesis unfolding Let_def s_def [symmetric] s1_def [symmetric]
    using interrupt_round_trip [where s = s and priority = 4 and which = 3 and h = s1, OF _ _ _ _ _ s1_def refl refl _ _ refl]
    by (auto simp: s_def zero_defs irq_lines_def)
qed

section \<open>The stacks as bounded lists\<close>

datatype 'v stack_op = Push 'v | Pop

fun bounded :: "nat \<Rightarrow> 'v stack_op \<Rightarrow> 'v list \<Rightarrow> 'v list" where
  "bounded depth (Push v) xs = (if length xs < depth then xs @ [v] else xs)"
| "bounded depth Pop xs = butlast xs"

definition apply_op :: "('s \<Rightarrow> 'v \<Rightarrow> 's) \<Rightarrow> ('s \<Rightarrow> 's) \<Rightarrow> 'v stack_op \<Rightarrow> 's \<Rightarrow> 's" where
  "apply_op push pop x s = (case x of Push v \<Rightarrow> push s v | Pop \<Rightarrow> pop s)"

context saturating_stack
begin

lemma simulates: "contents (fold (apply_op push pop) xs s) = fold (bounded depth) xs (contents s)"
proof (induction xs arbitrary: s)
  case (Cons x xs)
  then show ?case by (cases x) (simp_all add: apply_op_def contents_push contents_pop)
qed simp

end

lemma disabled_push_pop:
  "\<not> interrupts_enabled s \<Longrightarrow> \<not> interrupts_enabled (apply_op stat_push_val stat_stack_pop x s) \<and>
     apply_op stat_push_val stat_pop_disabled x s = apply_op stat_push_val stat_stack_pop x s"
  by (cases s, cases x) (auto simp: apply_op_def stat_pop_disabled_def stat_push_val_def stat_stack_push_def warn_stack_over_def
      stat_stack_pop_def check_irqs_def stat_restore_stack split: prod.split stack_op.split)

lemma disabled_stack:
  "\<not> interrupts_enabled s \<Longrightarrow>
     fold (apply_op stat_push_val stat_stack_pop) ys s = fold (apply_op stat_push_val stat_pop_disabled) ys s"
  using disabled_push_pop by (induction ys arbitrary: s) auto

lemma generate_irq_status:
  assumes "imask s AND drop_bit p 0x200 \<noteq> 0"
  shows "stat_list (snd (generate_irq s w p)) = bounded 4 (Push (saved_status s)) (stat_list s)"
  using assms by (simp add: generate_irq_def Let_def stat_stack_push_def pc_stack_push_def note_pcsp_def stat_list_def
      warn_stack_over_def)

lemma stat_pop_then_irq:
  "stat_list (stat_stack_pop s) =
     (if 0 < stat_sp s \<and> interrupts_enabled s \<and> list_ex (irq_takeable (stat_restore s)) (irq_lines s)
      then bounded 4 (Push (saved_status (stat_restore s))) (butlast (stat_list s)) else butlast (stat_list s))"
proof (cases "0 < stat_sp s")
  case True
  let ?r = "stat_restore s"
  have l: "stat_list ?r = butlast (stat_list s)" by (simp add: stat_list_def stat_restore_stack map_stack_pop)
  show ?thesis
  proof (cases "find (irq_takeable ?r) (irq_lines s)")
    case None
    then have "\<not> list_ex (irq_takeable ?r) (irq_lines s)" by (auto simp: find_None_iff list_ex_iff)
    then show ?thesis using True None l
      by (simp add: stat_stack_pop_def check_irqs_def try_irqs_find stat_restore_fields)
  next
    case (Some y)
    obtain w p q where y: "y = (w, p, q)" by (metis prod_cases3)
    have "y \<in> set (irq_lines s)" "irq_takeable ?r y"
      using Some unfolding find_Some_iff by (auto simp: in_set_conv_nth)
    then have "list_ex (irq_takeable ?r) (irq_lines s)" "imask ?r AND drop_bit p 0x200 \<noteq> 0"
      by (blast intro: list_ex_iff [THEN iffD2]) (simp add: \<open>irq_takeable ?r y\<close> [unfolded y irq_takeable_def prod.case])
    then show ?thesis using True Some l generate_irq_status [of ?r p w]
      by (simp add: stat_stack_pop_def check_irqs_def try_irqs_find stat_restore_fields stat_restore_stack y)
  qed
qed (simp add: stat_stack_pop_def stat_list_def)

text \<open>
  C27. The hardware stacks implement bounded lists.  Under any sequence of pushes and pops the PC,
  loop and counter stack, and while interrupts are disabled the status stack (with their pointers,
  arrays and SSTAT bits), hold what a list of at most 16, 4, 4 and 4 entries would hold that ignores
  pushes when full and pops when empty.  A pop of the status stack with interrupts enabled is a pop of
  the list, followed by a push of the status just restored if that lets a requested interrupt in.
\<close>

theorem stacks_refine_lists:
  "pc_list (fold (apply_op pc_stack_push_val (\<lambda>s. snd (pc_stack_pop_val s))) xs s) = fold (bounded 16) xs (pc_list s) \<and>
   loop_list (fold (apply_op loop_stack_push loop_stack_pop) xs s) = fold (bounded 4) xs (loop_list s) \<and>
   cntr_list (fold (apply_op cntr_push_val cntr_stack_pop) xs s) = fold (bounded 4) xs (cntr_list s) \<and>
   (\<not> interrupts_enabled s \<longrightarrow>
     stat_list (fold (apply_op stat_push_val stat_stack_pop) ys s) = fold (bounded 4) ys (stat_list s)) \<and>
   stat_list (stat_stack_pop s) =
     (if 0 < stat_sp s \<and> interrupts_enabled s \<and> list_ex (irq_takeable (stat_restore s)) (irq_lines s)
      then fold (bounded 4) [Pop, Push (ucast (mstat (stat_restore s)), imask (stat_restore s), ucast (astat (stat_restore s)))]
        (stat_list s)
      else bounded 4 Pop (stat_list s))"
  using pcs.simulates [of xs s] loops.simulates [of xs s] cntrs.simulates [of xs s] stats.simulates [of ys s]
    disabled_stack [of s ys] stat_pop_then_irq [of s]
  by simp

theorem stacks_refine_lists_witness:
  "stat_list (fold (apply_op stat_push_val stat_stack_pop) [Pop, Push (1, 2, 3), Push (4, 5, 6), Pop] adsp2181_zero) = [(1, 2, 3)]"
  using stacks_refine_lists [where s = adsp2181_zero and ys = "[Pop, Push (1, 2, 3), Push (4, 5, 6), Pop]"]
  by (simp add: zero_defs stat_list_def)

end
