(* ===== verification/Ham.thy ===== *)
theory Ham
  imports Prelude
begin

text \<open>
  The guarded driver for the Ambient/Intel HaM DSP card
  (\<^verbatim>\<open>tools/ambient_ham_probe/ambient_ham_probe.c\<close>).  The card, the kernel and the firmware file are
  parameters; the state is the history of what the driver did to the card, newest first.  The log
  lines are not kept, the register reads made for them are.
\<close>

section \<open>The card and its history\<close>

text \<open>Register accesses through BAR0, \<^verbatim>\<open>msleep\<close>, and stores to the PCI command word.\<close>

datatype access = Rd nat u8 | Wr nat u8 | Sleep nat | Pci_command u16

type_synonym history = "access list"

text \<open>
  What a read returns and what the kernel's clock shows may depend on everything done so far.
  \<open>stray\<close> is the byte behind a command array, which \<^verbatim>\<open>ham_put_command\<close> may read.
\<close>

record board =
  reply :: "history \<Rightarrow> nat \<Rightarrow> u8"
  jiffies :: "history \<Rightarrow> nat"
  HZ :: nat
  stray :: "history \<Rightarrow> u8"

abbreviation (input) HAM_REG_RESET_STATUS :: nat where "HAM_REG_RESET_STATUS \<equiv> 0x42"
abbreviation (input) HAM_REG_DSP_CFG :: nat where "HAM_REG_DSP_CFG \<equiv> 0xf6"
abbreviation (input) HAM_REG_INT_EVENT :: nat where "HAM_REG_INT_EVENT \<equiv> 0xf7"
abbreviation (input) HAM_REG_PATCH_ADDR_L :: nat where "HAM_REG_PATCH_ADDR_L \<equiv> 0xf8"
abbreviation (input) HAM_REG_PATCH_ADDR_H :: nat where "HAM_REG_PATCH_ADDR_H \<equiv> 0xf9"
abbreviation (input) HAM_REG_PATCH_DATA :: nat where "HAM_REG_PATCH_DATA \<equiv> 0xfa"
abbreviation (input) HAM_REG_RESET :: nat where "HAM_REG_RESET \<equiv> 0xfc"
abbreviation (input) HAM_REG_HOST_TRIGGER :: nat where "HAM_REG_HOST_TRIGGER \<equiv> 0xfe"
abbreviation (input) HAM_REG_DSP_ACK :: nat where "HAM_REG_DSP_ACK \<equiv> 0xff"
abbreviation (input) HAM_CRAM_DSP_PACKET :: nat where "HAM_CRAM_DSP_PACKET \<equiv> 0x00"
abbreviation (input) HAM_CRAM_HOST_PACKET :: nat where "HAM_CRAM_HOST_PACKET \<equiv> 0x40"
abbreviation (input) HAM_PATCH_SIZE :: nat where "HAM_PATCH_SIZE \<equiv> 0x747c"
abbreviation (input) HAM_PATCH_END :: u8 where "HAM_PATCH_END \<equiv> 0x30"
abbreviation (input) HAM_POWERON_OVERLAY :: u8 where "HAM_POWERON_OVERLAY \<equiv> 0x00"
abbreviation (input) HAM_POWERON_REQUEST :: u8 where "HAM_POWERON_REQUEST \<equiv> 0x60"

text \<open>Error codes are negative results, as in the kernel.\<close>

abbreviation (input) ENOENT :: int where "ENOENT \<equiv> 2"
abbreviation (input) ENOMEM :: int where "ENOMEM \<equiv> 12"
abbreviation (input) ENODEV :: int where "ENODEV \<equiv> 19"
abbreviation (input) EINVAL :: int where "EINVAL \<equiv> 22"
abbreviation (input) EPROTO :: int where "EPROTO \<equiv> 71"
abbreviation (input) EOPNOTSUPP :: int where "EOPNOTSUPP \<equiv> 95"
abbreviation (input) ETIMEDOUT :: int where "ETIMEDOUT \<equiv> 110"

definition msleep :: "nat \<Rightarrow> history \<Rightarrow> history" where
  "msleep n h = Sleep n # h"

definition ham_read :: "board \<Rightarrow> nat \<Rightarrow> history \<Rightarrow> u8 \<times> history" where
  "ham_read b reg h = (reply b h reg, Rd reg (reply b h reg) # h)"

text \<open>A write is flushed by a read of the event register.\<close>

definition ham_write :: "board \<Rightarrow> nat \<Rightarrow> u8 \<Rightarrow> history \<Rightarrow> history" where
  "ham_write b reg v h = snd (ham_read b HAM_REG_INT_EVENT (Wr reg v # h))"

text \<open>The six reads of a register log, in the order of its arguments.\<close>

definition ham_log_registers :: "board \<Rightarrow> history \<Rightarrow> history" where
  "ham_log_registers b h =
     fold (\<lambda>reg h. snd (ham_read b reg h))
       [HAM_REG_RESET_STATUS, HAM_REG_DSP_CFG, HAM_REG_INT_EVENT, HAM_REG_PATCH_ADDR_L,
        HAM_REG_PATCH_ADDR_H, HAM_REG_RESET] h"

section \<open>Reset and hook\<close>

text \<open>At most \<open>n\<close> rounds of a millisecond until the status register clears.\<close>

fun status_loop :: "board \<Rightarrow> nat \<Rightarrow> u8 \<Rightarrow> history \<Rightarrow> u8 \<times> history" where
  "status_loop b 0 status h = (status, h)"
| "status_loop b (Suc n) status h =
     (let (status', h') = ham_read b HAM_REG_RESET_STATUS (msleep 1 h)
      in if status' = 0 then (status', h') else status_loop b n status' h')"

definition ham_wait_reset :: "board \<Rightarrow> history \<Rightarrow> int \<times> history" where
  "ham_wait_reset b h =
     (let (status, h1) = status_loop b 500 0xff h
      in if status \<noteq> 0 then (- ETIMEDOUT, h1) else (0, msleep 150 h1))"

definition ham_reset_dsp :: "board \<Rightarrow> history \<Rightarrow> int \<times> history" where
  "ham_reset_dsp b h =
     (let h1 = ham_write b HAM_REG_RESET 0x02 h;
          h2 = ham_write b HAM_REG_INT_EVENT 0x00 h1;
          (cfg, h3) = ham_read b HAM_REG_DSP_CFG h2;
          h4 = ham_write b HAM_REG_DSP_CFG (cfg OR 0x01) h3;
          h5 = ham_write b HAM_REG_RESET_STATUS 0x01 h4;
          h6 = ham_write b HAM_REG_RESET 0x01 h5;
          (status, h7) = status_loop b 500 0xff h6
      in if status \<noteq> 0 then (- ETIMEDOUT, h7) else (0, msleep 150 h7))"

definition ham_quiesce :: "board \<Rightarrow> history \<Rightarrow> history" where
  "ham_quiesce b h =
     (let (v0, h1) = ham_read b 0xf0 h;
          h2 = ham_write b 0xf0 (v0 OR 0x04) h1;
          (v3, h3) = ham_read b 0xf3 h2;
          h4 = ham_write b 0xf3 (v3 AND NOT 0x04) h3;
          (v2, h5) = ham_read b 0xf2 h4;
          h6 = ham_write b 0xf2 (v2 OR 0x04) h5;
          h7 = ham_write b HAM_REG_INT_EVENT 0x00 h6;
          (_, h8) = ham_read b HAM_REG_DSP_ACK h7
      in ham_write b HAM_REG_RESET 0x0a h8)"

definition ham_set_hook :: "board \<Rightarrow> bool \<Rightarrow> history \<Rightarrow> history" where
  "ham_set_hook b off_hook h =
     (let (v0, h1) = ham_read b 0xf0 h;
          h2 = ham_write b 0xf0 (v0 OR 0x04) h1;
          (v3, h3) = ham_read b 0xf3 h2;
          h4 = ham_write b 0xf3 (v3 AND NOT 0x04) h3;
          (v2, h5) = ham_read b 0xf2 h4
      in ham_write b 0xf2 (if off_hook then v2 AND NOT 0x04 else v2 OR 0x04) h5)"

section \<open>The packet mailboxes\<close>

text \<open>At most \<open>n\<close> looks at the ownership byte, a millisecond apart.\<close>

fun host_ready :: "board \<Rightarrow> nat \<Rightarrow> history \<Rightarrow> bool \<times> history" where
  "host_ready b 0 h = (False, h)"
| "host_ready b (Suc n) h =
     (let (v, h1) = ham_read b HAM_CRAM_HOST_PACKET h
      in if v = 0 then (True, h1) else host_ready b n (msleep 1 h1))"

text \<open>A byte of the command array; the padding byte of an odd packet may lie behind its end.\<close>

definition command_byte :: "board \<Rightarrow> u8 list \<Rightarrow> nat \<Rightarrow> history \<Rightarrow> u8" where
  "command_byte b command i h = (if i < length command then command ! i else stray b h)"

definition wire_size :: "u8 list \<Rightarrow> nat" where
  "wire_size command = (let n = unat (command ! 2) + 4 in if odd n then n + 1 else n)"

definition ham_put_command :: "board \<Rightarrow> u8 list \<Rightarrow> history \<Rightarrow> int \<times> history" where
  "ham_put_command b command h =
     (if length command < 4 \<or> length command > 64 \<or> unat (command ! 2) + 4 > length command then (- EINVAL, h)
      else
        (let (ready, h1) = host_ready b 1000 h
         in if \<not> ready then (- ETIMEDOUT, h1)
            else
              (let h2 = fold (\<lambda>i h. ham_write b (HAM_CRAM_HOST_PACKET + i) (command_byte b command i h) h)
                          [1..<wire_size command] h1;
                   h3 = ham_write b HAM_CRAM_HOST_PACKET (command ! 0) h2
               in (0, ham_write b HAM_REG_HOST_TRIGGER 0x01 h3))))"

fun packet_ready :: "board \<Rightarrow> nat \<Rightarrow> history \<Rightarrow> bool \<times> history" where
  "packet_ready b 0 h = (False, h)"
| "packet_ready b (Suc n) h =
     (let (event, h1) = ham_read b HAM_REG_INT_EVENT (msleep 1 h)
      in if event AND 0x01 \<noteq> 0 then (True, h1)
         else
           (let (first, h2) = ham_read b HAM_CRAM_DSP_PACKET h1
            in if first \<noteq> 0 then (True, h2) else packet_ready b n h2))"

fun read_bytes :: "board \<Rightarrow> nat list \<Rightarrow> history \<Rightarrow> u8 list \<times> history" where
  "read_bytes b [] h = ([], h)"
| "read_bytes b (i # is) h =
     (let (v, h1) = ham_read b i h; (vs, h2) = read_bytes b is h1 in (v # vs, h2))"

text \<open>The received bytes; their number is the C function's result.\<close>

definition ham_get_packet :: "board \<Rightarrow> nat \<Rightarrow> history \<Rightarrow> (int + u8 list) \<times> history" where
  "ham_get_packet b packet_size h =
     (let (ready, h1) = packet_ready b 1000 h
      in if \<not> ready then (Inl (- ETIMEDOUT), h1)
         else
           (let (len, h2) = ham_read b 2 h1;
                (packet, h3) = read_bytes b [0..<min (unat len + 4) packet_size] h2;
                h4 = ham_write b HAM_CRAM_DSP_PACKET 0x00 h3;
                (_, h5) = ham_read b HAM_REG_DSP_ACK h4
            in (Inr packet, h5)))"

section \<open>Overlays\<close>

definition le16_at :: "u8 list \<Rightarrow> nat \<Rightarrow> u16" where
  "le16_at fw i = ucast (fw ! i) OR push_bit 8 (ucast (fw ! (i + 1)))"

definition chunk_command :: "u8 \<Rightarrow> u16 \<Rightarrow> u8 list \<Rightarrow> u8 list" where
  "chunk_command rtype chunk_address chunk =
     [0x0c, 0, of_nat (length chunk) + 4, 0, ucast (chunk_address AND 0xff), ucast (drop_bit 8 chunk_address),
      push_bit 4 (rtype AND 0x0e), 0] @ chunk @ replicate (12 - length chunk) 0"

function send_chunks :: "board \<Rightarrow> u8 \<Rightarrow> u16 \<Rightarrow> u8 list \<Rightarrow> nat \<Rightarrow> history \<Rightarrow> int \<times> history" where
  "send_chunks b rtype address payload dn h =
     (if dn < length payload then
        (let chunk = min 12 (length payload - dn);
             (ret, h1) = ham_put_command b
               (chunk_command rtype (address + of_nat (dn div 2)) (take chunk (drop dn payload))) h
         in if ret \<noteq> 0 then (ret, h1) else send_chunks b rtype address payload (dn + chunk) h1)
      else (0, h))"
  by pat_completeness auto
termination by (relation "measure (\<lambda>(_, _, _, payload, dn, _). length payload - dn)") auto

text \<open>The walk over the record list; the number of records supplied, or an error.\<close>

function overlay_records :: "board \<Rightarrow> u8 list \<Rightarrow> u8 \<Rightarrow> nat \<Rightarrow> nat \<Rightarrow> history \<Rightarrow> (int + nat) \<times> history" where
  "overlay_records b fw overlay offset records h =
     (if offset < length fw \<and> fw ! offset \<noteq> HAM_PATCH_END then
        if offset + 6 > length fw then (Inl (- EINVAL), h)
        else
          (let rtype = fw ! offset;
               record_overlay = fw ! (offset + 1);
               address = le16_at fw (offset + 2);
               words = le16_at fw (offset + 4);
               bytes = unat words * 2
           in if offset + 6 + bytes > length fw then (Inl (- EINVAL), h)
              else if record_overlay = overlay then
                if rtype AND 0x01 = 0 then (Inl (- EOPNOTSUPP), h)
                else
                  (let (ret, h1) = send_chunks b rtype address (take bytes (drop (offset + 6) fw)) 0 h
                   in if ret \<noteq> 0 then (Inl ret, h1)
                      else overlay_records b fw overlay (offset + 6 + bytes) (records + 1) h1)
              else overlay_records b fw overlay (offset + 6 + bytes) records h)
      else (Inr records, h))"
  by pat_completeness auto
termination by (relation "measure (\<lambda>(_, fw, _, offset, _, _). length fw - offset)") auto

definition ham_service_overlay :: "board \<Rightarrow> u8 list \<Rightarrow> u8 \<Rightarrow> u8 \<Rightarrow> history \<Rightarrow> int \<times> history" where
  "ham_service_overlay b fw request overlay h =
     (case overlay_records b fw overlay 0 0 h of
        (Inl e, h1) \<Rightarrow> (e, h1)
      | (Inr records, h1) \<Rightarrow>
          if records = 0 then (- ENOENT, h1)
          else ham_put_command b [0xa3, 0x00, 0x02, 0x00, overlay, request] h1)"

section \<open>Commands and replies\<close>

text \<open>
  The wait for a reply has no bound of its own: a card that keeps sending other packets keeps the
  driver in it, and the value is then None.
\<close>

partial_function (option) await_reply ::
  "board \<Rightarrow> u8 list \<Rightarrow> u8 \<Rightarrow> bool \<Rightarrow> nat \<Rightarrow> history \<Rightarrow> (int \<times> u8 list \<times> history) option" where
  "await_reply b fw cmd want_response result_size h =
     (case ham_get_packet b 64 h of
        (Inl e, h1) \<Rightarrow> Some (e, [], h1)
      | (Inr packet, h1) \<Rightarrow>
          if packet ! 0 = 0xd6 \<and> length packet \<ge> 6 then
            (case ham_service_overlay b fw (packet ! 4) (packet ! 5) h1 of
               (ret, h2) \<Rightarrow> if ret \<noteq> 0 then Some (ret, [], h2)
                           else await_reply b fw cmd want_response result_size h2)
          else if packet ! 0 = 0xc0 \<and> length packet \<ge> 5 \<and> packet ! 4 = cmd \<and> \<not> want_response then Some (0, [], h1)
          else if packet ! 0 \<in> {0xc0, 0xc4, 0xce, 0xcf, 0xd1, 0xd4, 0xd5, 0xd7} then
            await_reply b fw cmd want_response result_size h1
          else if want_response then
            Some (int (min (length packet) result_size), take (min (length packet) result_size) packet, h1)
          else await_reply b fw cmd want_response result_size h1)"

definition ham_send_and_wait ::
  "board \<Rightarrow> u8 list \<Rightarrow> u8 list \<Rightarrow> bool \<Rightarrow> nat \<Rightarrow> history \<Rightarrow> (int \<times> u8 list \<times> history) option" where
  "ham_send_and_wait b fw command want_response result_size h =
     (let (ret, h1) = ham_put_command b command h
      in if ret \<noteq> 0 then Some (ret, [], h1)
         else await_reply b fw (command ! 0) want_response result_size h1)"

text \<open>A command whose acknowledgement only is waited for.\<close>

definition ham_order :: "board \<Rightarrow> u8 list \<Rightarrow> u8 list \<Rightarrow> history \<Rightarrow> (int \<times> history) option" where
  "ham_order b fw command h =
     map_option (\<lambda>(ret, _, h'). (ret, h')) (ham_send_and_wait b fw command False 64 h)"

text \<open>\<^verbatim>\<open>if (ret) goto ...\<close>: go on only after a zero result.\<close>

definition if_ok :: "(int \<times> history) option \<Rightarrow> (history \<Rightarrow> (int \<times> history) option) \<Rightarrow> (int \<times> history) option" where
  "if_ok m k = (case m of None \<Rightarrow> None | Some (ret, h) \<Rightarrow> if ret = 0 then k h else Some (ret, h))"

text \<open>\<^verbatim>\<open>jiffies\<close> is a count that does not wrap here.\<close>

partial_function (option) observe_until :: "board \<Rightarrow> u8 list \<Rightarrow> nat \<Rightarrow> history \<Rightarrow> (int \<times> history) option" where
  "observe_until b fw end_time h =
     (if jiffies b h < end_time then
        (case ham_get_packet b 64 h of
           (Inl e, h1) \<Rightarrow> if e = - ETIMEDOUT then observe_until b fw end_time h1 else Some (e, h1)
         | (Inr packet, h1) \<Rightarrow>
             if packet ! 0 = 0xd6 \<and> length packet \<ge> 6 then
               (case ham_service_overlay b fw (packet ! 4) (packet ! 5) h1 of
                  (ret, h2) \<Rightarrow> if ret \<noteq> 0 then Some (ret, h2) else observe_until b fw end_time h2)
             else observe_until b fw end_time h1)
      else Some (0, h))"

definition ham_observe :: "board \<Rightarrow> u8 list \<Rightarrow> nat \<Rightarrow> history \<Rightarrow> (int \<times> history) option" where
  "ham_observe b fw seconds h = observe_until b fw (jiffies b h + seconds * HZ b) h"

section \<open>Calls\<close>

fun dial_digits :: "board \<Rightarrow> u8 list \<Rightarrow> string \<Rightarrow> history \<Rightarrow> (int \<times> history) option" where
  "dial_digits b fw [] h = Some (0, h)"
| "dial_digits b fw (c # cs) h =
     if_ok (ham_order b fw [0x67, 0x00, 0x01, 0x00, of_char c - of_char CHR ''0''] h)
       (\<lambda>h1. dial_digits b fw cs (msleep 250 h1))"

definition dialable :: "string \<Rightarrow> bool" where
  "dialable number \<longleftrightarrow> number \<noteq> [] \<and> length number \<le> 16 \<and>
     list_all (\<lambda>c. of_char CHR ''0'' \<le> (of_char c :: nat) \<and> of_char c \<le> (of_char CHR ''9'' :: nat)) number"

definition ham_dial_playground :: "board \<Rightarrow> u8 list \<Rightarrow> string \<Rightarrow> history \<Rightarrow> (int \<times> history) option" where
  "ham_dial_playground b fw number h =
     (if \<not> dialable number then Some (- EINVAL, h)
      else
        map_option (\<lambda>(ret, h'). (ret, ham_set_hook b False h'))
          (if_ok (ham_order b fw [0x65, 0x00, 0x02, 0x00, 0x01, 0x01] (msleep 500 (ham_set_hook b True h)))
             (\<lambda>h1. if_ok (ham_order b fw [0x66, 0x00, 0x06, 0x00, 100, 100, 0, 0, 100, 0] h1)
               (\<lambda>h2. if_ok (dial_digits b fw number h2)
                 (\<lambda>h3. ham_observe b fw 15 h3)))))"

definition answer_connect :: "int \<Rightarrow> u8 list" where
  "answer_connect mode =
     [0x68, 0x00, 0x06, 0x00, if mode = 0 then 0x02 else if mode = 16 then 0x09 else 0x00, of_int mode,
      0x04, 0x00, 0x00, 0x00]"

definition ham_answer_playground :: "board \<Rightarrow> u8 list \<Rightarrow> int \<Rightarrow> history \<Rightarrow> (int \<times> history) option" where
  "ham_answer_playground b fw mode h =
     (if mode < 0 \<or> mode > 24 then Some (- EINVAL, h)
      else
        if_ok (ham_observe b fw 5 h)
          (\<lambda>h1. map_option (\<lambda>(ret, h'). (ret, ham_set_hook b False h'))
            (if_ok (ham_order b fw [0x7b, 0x00, 0x04, 0x00, 10, 10, 0, 0] (msleep 250 (ham_set_hook b True h1)))
              (\<lambda>h2. if_ok (ham_order b fw (answer_connect mode) h2)
                (\<lambda>h3. ham_observe b fw 30 h3)))))"

section \<open>The power-on patch\<close>

text \<open>The module parameters.\<close>

record ham_params =
  do_reset :: bool
  load_patch :: bool
  survey_speakerphone :: bool
  survey_mode :: int
  dial_number :: "string option"
  answer_mode :: int

definition write_record :: "board \<Rightarrow> u16 \<Rightarrow> u8 list \<Rightarrow> history \<Rightarrow> history" where
  "write_record b address payload h =
     fold (ham_write b HAM_REG_PATCH_DATA) payload
       (ham_write b HAM_REG_PATCH_ADDR_L (ucast (address AND 0xff))
         (ham_write b HAM_REG_PATCH_ADDR_H (ucast (drop_bit 8 address)) h))"

text \<open>Where the walk ended with the numbers of records and words written, or None for a malformed array.\<close>

function patch_records ::
  "board \<Rightarrow> u8 list \<Rightarrow> nat \<Rightarrow> nat \<Rightarrow> nat \<Rightarrow> history \<Rightarrow> (nat \<times> nat \<times> nat) option \<times> history" where
  "patch_records b fw offset loaded_records loaded_words h =
     (if offset < length fw \<and> fw ! offset \<noteq> HAM_PATCH_END then
        if offset + 6 > length fw then (None, h)
        else
          (let overlay = fw ! (offset + 1);
               address = le16_at fw (offset + 2);
               words = le16_at fw (offset + 4);
               bytes = unat words * 2
           in if offset + 6 + bytes > length fw then (None, h)
              else if overlay = HAM_POWERON_OVERLAY then
                patch_records b fw (offset + 6 + bytes) (loaded_records + 1) (loaded_words + unat words)
                  (write_record b address (take bytes (drop (offset + 6) fw)) h)
              else patch_records b fw (offset + 6 + bytes) loaded_records loaded_words h)
      else (Some (offset, loaded_records, loaded_words), h))"
  by pat_completeness auto
termination by (relation "measure (\<lambda>(_, fw, offset, _, _, _). length fw - offset)") auto

definition query_version :: "board \<Rightarrow> u8 list \<Rightarrow> history \<Rightarrow> (int \<times> history) option" where
  "query_version b fw h =
     map_option (\<lambda>(ret, _, h'). (if ret \<ge> 5 then 0 else if ret \<ge> 0 then - EPROTO else ret, h'))
       (ham_send_and_wait b fw [0x94, 0x00, 0x00, 0x00] True 64 h)"

text \<open>The speakerphone survey starts whatever the version query returned.\<close>

definition speakerphone_survey :: "ham_params \<Rightarrow> board \<Rightarrow> u8 list \<Rightarrow> int \<times> history \<Rightarrow> (int \<times> history) option" where
  "speakerphone_survey m b fw = (\<lambda>(ret, h).
     if survey_speakerphone m then
       if_ok (ham_order b fw [0xa2, 0x00, 0x02, 0x00, 0x01, 0x00] h)
         (\<lambda>h1. if_ok (ham_order b fw [0xa2, 0x00, 0x02, 0x00, 0x00, 0x00] h1)
           (\<lambda>h2. ham_order b fw [0x60, 0x00, 0x02, 0x00, 0x00, 0x00] h2))
     else Some (ret, h))"

definition mode_survey :: "ham_params \<Rightarrow> board \<Rightarrow> u8 list \<Rightarrow> history \<Rightarrow> (int \<times> history) option" where
  "mode_survey m b fw h =
     (if survey_mode m \<ge> 0 then
        if survey_mode m > 24 then Some (- EINVAL, h)
        else
          if_ok (ham_order b fw [0x68, 0x00, 0x06, 0x00, 0x00, of_int (survey_mode m), 0x00, 0x00, 0x00, 0x00] h)
            (\<lambda>h1. ham_order b fw [0x60, 0x00, 0x02, 0x00, 0x00, 0x00] h1)
      else Some (0, h))"

definition patch_session :: "ham_params \<Rightarrow> board \<Rightarrow> u8 list \<Rightarrow> history \<Rightarrow> (int \<times> history) option" where
  "patch_session m b fw h =
     (case ham_order b fw [0xa3, 0x00, 0x02, 0x00, 0x00, HAM_POWERON_REQUEST] h of
        None \<Rightarrow> None
      | Some (ret, h1) \<Rightarrow>
          if ret < 0 then Some (ret, h1)
          else
            (case query_version b fw h1 of
               None \<Rightarrow> None
             | Some q \<Rightarrow>
                 if_ok (speakerphone_survey m b fw q)
                   (\<lambda>h2. if_ok (mode_survey m b fw h2)
                     (\<lambda>h3. if_ok (case dial_number m of None \<Rightarrow> Some (0, h3)
                                  | Some number \<Rightarrow> ham_dial_playground b fw number h3)
                       (\<lambda>h4. if answer_mode m \<ge> 0 then ham_answer_playground b fw (answer_mode m) h4
                             else Some (0, h4))))))"

text \<open>\<open>request\<close> is the outcome of \<^verbatim>\<open>request_firmware_direct\<close>.\<close>

definition ham_load_poweron_patch ::
  "int + u8 list \<Rightarrow> ham_params \<Rightarrow> board \<Rightarrow> history \<Rightarrow> (int \<times> history) option" where
  "ham_load_poweron_patch request m b h =
     (case request of
        Inl e \<Rightarrow> Some (e, h)
      | Inr fw \<Rightarrow>
          if length fw \<noteq> HAM_PATCH_SIZE then Some (- EINVAL, h)
          else
            (case patch_records b fw 0 0 0 (ham_write b HAM_REG_RESET 0x0a h) of
               (None, h1) \<Rightarrow> Some (- EINVAL, h1)
             | (Some (offset, loaded_records, loaded_words), h1) \<Rightarrow>
                 if offset \<ge> length fw \<or> loaded_records \<noteq> 3 \<or> loaded_words \<noteq> 823 then Some (- EINVAL, h1)
                 else
                   (let h2 = ham_write b HAM_REG_RESET_STATUS 0x01 h1;
                        (ret, h3) = ham_wait_reset b (ham_write b HAM_REG_RESET 0x09 h2)
                    in if ret \<noteq> 0 then Some (ret, h3) else patch_session m b fw h3)))"

section \<open>Probe and removal\<close>

text \<open>What the kernel's PCI and firmware functions return to the driver.\<close>

record kernel =
  pci_command :: u16
  enable_device :: int
  bar0_memory :: bool
  bar0_len :: nat
  request_regions :: int
  allocates :: bool
  maps_bar0 :: bool
  firmware :: "int + u8 list"

definition restore_command :: "kernel \<Rightarrow> board \<Rightarrow> history \<Rightarrow> history" where
  "restore_command k b h = Pci_command (pci_command k) # ham_quiesce b h"

definition probe_load :: "kernel \<Rightarrow> ham_params \<Rightarrow> board \<Rightarrow> history \<Rightarrow> (int \<times> history) option" where
  "probe_load k m b h =
     (if load_patch m then
        map_option (\<lambda>(ret, h'). let h1 = ham_log_registers b h' in (ret, if ret \<noteq> 0 then restore_command k b h1 else h1))
          (ham_load_poweron_patch (firmware k) m b h)
      else Some (0, h))"

definition ham_probe :: "kernel \<Rightarrow> ham_params \<Rightarrow> board \<Rightarrow> history \<Rightarrow> (int \<times> history) option" where
  "ham_probe k m b h =
     (if enable_device k \<noteq> 0 then Some (enable_device k, h)
      else if \<not> bar0_memory k \<or> bar0_len k < 0x100 then Some (- ENODEV, h)
      else if request_regions k \<noteq> 0 then Some (request_regions k, h)
      else if \<not> allocates k then Some (- ENOMEM, h)
      else if \<not> maps_bar0 k then Some (- ENOMEM, h)
      else
        (let h1 = ham_log_registers b h
         in if do_reset m then
              (let (ret, h2) = ham_reset_dsp b h1;
                   h3 = ham_log_registers b h2
               in if ret \<noteq> 0 then Some (ret, restore_command k b h3) else probe_load k m b h3)
            else probe_load k m b h1))"

definition ham_remove :: "kernel \<Rightarrow> board \<Rightarrow> history \<Rightarrow> history" where
  "ham_remove k b h = Pci_command (pci_command k) # ham_quiesce b h"

declare send_chunks.simps [simp del] overlay_records.simps [simp del] patch_records.simps [simp del]

end
