(* ===== verification/Playground.thy ===== *)
theory Playground
  imports Ham
begin

text \<open>
  What the card driver leaves behind: the locales carry a property of the history over every routine
  of the driver, whatever card answers it, and give that the driver never leaves the line seized.
\<close>

section \<open>Properties of the history\<close>

text \<open>A property no access but a store to the hook register can end.\<close>

definition yields :: "(history \<Rightarrow> bool) \<Rightarrow> (int \<times> history) option \<Rightarrow> bool" where
  "yields P m \<longleftrightarrow> (\<forall>ret h. m = Some (ret, h) \<longrightarrow> P h)"

lemma yields_if_ok: "yields P m \<Longrightarrow> (\<And>h. P h \<Longrightarrow> yields P (k h)) \<Longrightarrow> yields P (if_ok m k)"
  by (auto simp: yields_def if_ok_def split: option.splits if_splits)

lemma yields_Some: "P (snd x) \<Longrightarrow> yields P (Some x)"
  by (auto simp: yields_def)

lemma yields_map: "(\<And>ret h. P (snd (f (ret, h)))) \<Longrightarrow> yields P (map_option f m)"
  by (auto simp: yields_def) (metis snd_conv surj_pair)

locale card_invariant =
  fixes P :: "history \<Rightarrow> bool"
  assumes P_rd: "P h \<Longrightarrow> P (Rd r v # h)"
    and P_sleep: "P h \<Longrightarrow> P (Sleep n # h)"
    and P_wr: "P h \<Longrightarrow> r \<noteq> 0xf2 \<Longrightarrow> P (Wr r v # h)"
begin

lemma read_keeps: "P h \<Longrightarrow> ham_read b r h = (v, h') \<Longrightarrow> P h'"
  by (auto simp: ham_read_def intro: P_rd)

lemma read_snd_keeps: "P h \<Longrightarrow> P (snd (ham_read b r h))"
  by (simp add: ham_read_def P_rd)

lemma write_keeps: "P h \<Longrightarrow> r \<noteq> 0xf2 \<Longrightarrow> P (ham_write b r v h)"
  by (simp add: ham_write_def read_snd_keeps P_wr)

lemma msleep_keeps: "P h \<Longrightarrow> P (msleep n h)"
  by (simp add: msleep_def P_sleep)

lemmas card_intros = msleep_keeps write_keeps read_snd_keeps

lemma fold_keeps: "P h \<Longrightarrow> (\<And>x h. x \<in> set xs \<Longrightarrow> P h \<Longrightarrow> P (f x h)) \<Longrightarrow> P (fold f xs h)"
  by (induction xs arbitrary: h) auto

lemma log_keeps: "P h \<Longrightarrow> P (ham_log_registers b h)"
  unfolding ham_log_registers_def by (rule fold_keeps) (simp_all add: read_snd_keeps)

lemma status_keeps: "P h \<Longrightarrow> P (snd (status_loop b n st h))"
  by (induction n arbitrary: st h) (simp_all add: Let_def case_prod_beta card_intros)

lemma reset_keeps: "P h \<Longrightarrow> P (snd (ham_wait_reset b h))" "P h \<Longrightarrow> P (snd (ham_reset_dsp b h))"
  by (auto simp: ham_wait_reset_def ham_reset_dsp_def Let_def case_prod_beta intro!: card_intros status_keeps)

lemma host_ready_keeps: "P h \<Longrightarrow> P (snd (host_ready b n h))"
  by (induction n arbitrary: h) (simp_all add: Let_def case_prod_beta card_intros)

lemma put_command_keeps: "P h \<Longrightarrow> length c \<le> 64 \<Longrightarrow> P (snd (ham_put_command b c h))"
proof -
  assume h: "P h" and c: "length c \<le> 64"
  have "unat (c ! 2) + 4 \<le> length c \<Longrightarrow> i < wire_size c \<Longrightarrow> HAM_CRAM_HOST_PACKET + i \<noteq> 0xf2" for i
    using c by (auto simp: wire_size_def Let_def split: if_splits)
  then show ?thesis
    using h by (auto simp: ham_put_command_def Let_def case_prod_beta intro!: card_intros fold_keeps host_ready_keeps)
qed

lemma packet_ready_keeps: "P h \<Longrightarrow> P (snd (packet_ready b n h))"
  by (induction n arbitrary: h) (simp_all add: Let_def case_prod_beta card_intros)

lemma read_bytes_keeps: "P h \<Longrightarrow> P (snd (read_bytes b is h))"
  by (induction "is" arbitrary: h) (auto simp: Let_def case_prod_beta intro!: card_intros)

lemma get_packet_keeps: "P h \<Longrightarrow> P (snd (ham_get_packet b n h))"
  by (auto simp: ham_get_packet_def Let_def case_prod_beta intro!: card_intros packet_ready_keeps read_bytes_keeps)

text \<open>A packet is not looked for before a millisecond has passed.\<close>

lemma packet_ready_after: "P (msleep 1 h) \<Longrightarrow> 0 < n \<Longrightarrow> P (snd (packet_ready b n h))"
  by (cases n) (simp_all add: Let_def case_prod_beta card_intros packet_ready_keeps)

lemma get_packet_after: "P (msleep 1 h) \<Longrightarrow> P (snd (ham_get_packet b n h))"
  by (simp add: ham_get_packet_def Let_def case_prod_beta write_keeps read_snd_keeps packet_ready_after read_bytes_keeps)

lemma send_chunks_keeps: "P h \<Longrightarrow> P (snd (send_chunks b t a p d h))"
proof (induction "length p - d" arbitrary: d h rule: less_induct)
  case less
  define c where "c = chunk_command t (a + of_nat (d div 2)) (take (min 12 (length p - d)) (drop d p))"
  obtain ret h1 where r: "ham_put_command b c h = (ret, h1)" by fastforce
  have "length c \<le> 64" by (simp add: c_def chunk_command_def)
  then have "P h1" using put_command_keeps [of h c b] less.prems r by simp
  then show ?case using less r
    by (subst send_chunks.simps) (auto simp: Let_def c_def [symmetric])
qed

lemma overlay_keeps: "P h \<Longrightarrow> P (snd (overlay_records b fw ov off n h))"
proof (induction "length fw - off" arbitrary: off n h rule: less_induct)
  case less
  show ?case by (subst overlay_records.simps)
      (simp add: Let_def case_prod_beta less send_chunks_keeps)
qed

lemma service_keeps: "P h \<Longrightarrow> P (snd (ham_service_overlay b fw q ov h))"
  using overlay_keeps [of h b fw ov 0 0]
  by (auto simp: ham_service_overlay_def split: prod.split sum.split intro!: put_command_keeps)

lemma await_keeps: "await_reply b fw c w n h = Some y \<Longrightarrow> P h \<Longrightarrow> P (snd (snd y))"
proof (induction b fw c w n h y rule: await_reply.raw_induct [rotated, consumes 1])
  case (1 await b fw c w n h y)
  obtain r h1 where g: "ham_get_packet b 64 h = (r, h1)" by fastforce
  then have h1: "P h1" using get_packet_keeps [of h b 64] 1(3) by simp
  have s: "P h2" if "ham_service_overlay b fw q ov h1 = (ret, h2)" for q ov ret h2
    using service_keeps [OF h1, of b fw q ov] that by simp
  show ?case using 1(2) h1 by (cases r) (auto simp: g simp del: insert_iff split: if_splits prod.splits
        dest: 1(1) [OF _ h1] 1(1) [OF _ s] intro: s service_keeps)
qed

lemma send_keeps: "P h \<Longrightarrow> length c \<le> 64 \<Longrightarrow> ham_send_and_wait b fw c w n h = Some y \<Longrightarrow> P (snd (snd y))"
  using put_command_keeps [of h c b]
  by (auto simp: ham_send_and_wait_def case_prod_beta split: if_splits dest!: await_keeps)

lemma order_yields: "P h \<Longrightarrow> length c \<le> 64 \<Longrightarrow> yields P (ham_order b fw c h)"
  by (auto simp: ham_order_def yields_def dest: send_keeps [rotated 2])

lemma observe_keeps: "observe_until b fw t h = Some y \<Longrightarrow> P h \<Longrightarrow> P (snd y)"
proof (induction b fw t h y rule: observe_until.raw_induct [rotated, consumes 1])
  case (1 observe b fw t h y)
  obtain r h1 where g: "ham_get_packet b 64 h = (r, h1)" by fastforce
  then have h1: "P h1" using get_packet_keeps [of h b 64] 1(3) by simp
  have s: "P h2" if "ham_service_overlay b fw q ov h1 = (ret, h2)" for q ov ret h2
    using service_keeps [OF h1, of b fw q ov] that by simp
  show ?case using 1(2,3) h1 by (cases r) (auto simp: g split: if_splits prod.splits
        dest: 1(1) [OF _ h1] 1(1) [OF _ s] intro: s service_keeps)
qed

lemma observe_yields: "P h \<Longrightarrow> yields P (ham_observe b fw n h)"
  by (auto simp: yields_def ham_observe_def dest: observe_keeps)

lemma write_record_keeps: "P h \<Longrightarrow> P (write_record b a xs h)"
  unfolding write_record_def by (rule fold_keeps) (simp_all add: card_intros)

lemma patch_records_keeps: "P h \<Longrightarrow> P (snd (patch_records b fw off n k h))"
proof (induction "length fw - off" arbitrary: off n k h rule: less_induct)
  case less
  show ?case by (subst patch_records.simps) (simp add: Let_def less write_record_keeps)
qed

lemma query_yields: "P h \<Longrightarrow> yields P (query_version b fw h)"
  by (auto simp: query_version_def yields_def dest!: send_keeps [rotated 2])

lemma surveys_yield:
  "P (snd q) \<Longrightarrow> yields P (speakerphone_survey m b fw q)" "P h \<Longrightarrow> yields P (mode_survey m b fw h)"
  by (auto simp: speakerphone_survey_def mode_survey_def case_prod_beta
      intro!: yields_if_ok order_yields yields_Some)

end

section \<open>The hook\<close>

text \<open>Properties that hold again whenever the driver puts the line on hook.\<close>

locale rest_invariant = card_invariant +
  assumes P_hook: "P (ham_set_hook b False h)"
    and P_quiesce: "P (ham_quiesce b h)"
    and P_pci: "P h \<Longrightarrow> P (Pci_command w # h)"
begin

lemma calls_yield:
  "P h \<Longrightarrow> yields P (ham_dial_playground b fw number h)" "P h \<Longrightarrow> yields P (ham_answer_playground b fw mode h)"
  by (auto simp: ham_dial_playground_def ham_answer_playground_def P_hook
      intro!: yields_if_ok yields_map yields_Some observe_yields)

lemma session_yields: "P h \<Longrightarrow> yields P (patch_session m b fw h)"
proof -
  assume h: "P h"
  have "yields P (if_ok (speakerphone_survey m b fw q) (\<lambda>h2. if_ok (mode_survey m b fw h2)
    (\<lambda>h3. if_ok (case dial_number m of None \<Rightarrow> Some (0, h3) | Some number \<Rightarrow> ham_dial_playground b fw number h3)
      (\<lambda>h4. if answer_mode m \<ge> 0 then ham_answer_playground b fw (answer_mode m) h4 else Some (0, h4)))))"
    if "P (snd q)" for q
    using that by (auto intro!: yields_if_ok surveys_yield calls_yield yields_Some split: option.split)
  moreover have "P (snd q)" if "query_version b fw h1 = Some q" "P h1" for h1 q
    using query_yields [OF that(2), of b fw] that(1) by (simp add: yields_def) (metis prod.collapse)
  moreover have "P h1" if "ham_order b fw [0xa3, 0x00, 0x02, 0x00, 0x00, HAM_POWERON_REQUEST] h = Some (ret, h1)" for ret h1
    using order_yields [OF h, of "[0xa3, 0x00, 0x02, 0x00, 0x00, HAM_POWERON_REQUEST]" b fw] that by (simp add: yields_def)
  ultimately show ?thesis unfolding patch_session_def
    by (auto intro!: yields_Some simp: yields_def [where m = None] split: option.split)
qed

lemma load_yields: "P h \<Longrightarrow> yields P (ham_load_poweron_patch r m b h)"
proof -
  assume h: "P h"
  have "P h1" if "patch_records b fw 0 0 0 (ham_write b HAM_REG_RESET 0x0a h) = (z, h1)" for fw z h1
    using patch_records_keeps [OF write_keeps [OF h], of HAM_REG_RESET b fw 0 0 0 b "0x0a"] that by simp
  moreover have "P h3" if "ham_wait_reset b (ham_write b HAM_REG_RESET 0x09 (ham_write b HAM_REG_RESET_STATUS 0x01 h1)) = (z, h3)"
    "P h1" for h1 z h3
    using reset_keeps(1) [of "ham_write b HAM_REG_RESET 0x09 (ham_write b HAM_REG_RESET_STATUS 0x01 h1)" b] that
    by (simp add: write_keeps)
  ultimately show ?thesis unfolding ham_load_poweron_patch_def
    using h by (auto intro!: yields_Some session_yields simp: Let_def split: sum.split prod.split option.split)
qed

lemma probe_yields: "P h \<Longrightarrow> yields P (ham_probe k m b h)"
proof -
  have load: "yields P (probe_load k m b h)" if "P h" for h
    using load_yields [OF that, of "firmware k" m b]
    by (auto simp: probe_load_def yields_def restore_command_def Let_def that log_keeps intro!: P_pci P_quiesce)
  assume "P h"
  then show ?thesis using reset_keeps(2) [of "ham_log_registers b h" b]
    by (auto simp: ham_probe_def Let_def case_prod_beta restore_command_def log_keeps
        intro!: yields_Some load P_pci P_quiesce)
qed

end

section \<open>The card at rest\<close>

fun last_write :: "nat \<Rightarrow> history \<Rightarrow> u8 option" where
  "last_write r [] = None"
| "last_write r (Wr r' v # h) = (if r' = r then Some v else last_write r h)"
| "last_write r (Rd _ _ # h) = last_write r h"
| "last_write r (Sleep _ # h) = last_write r h"
| "last_write r (Pci_command _ # h) = last_write r h"

text \<open>
  The hook relay is released by bit 2 of the latch at 0xf2.  \<open>released\<close>: the driver has stored to the
  latch and its last store releases the relay; \<open>not_seized\<close>: if it has stored to the latch at all, its
  last store releases the relay.  What state the relay is in before the first store is not assumed.
\<close>

definition released :: "history \<Rightarrow> bool" where
  "released h \<longleftrightarrow> (case last_write 0xf2 h of None \<Rightarrow> False | Some v \<Rightarrow> bit v 2)"

definition not_seized :: "history \<Rightarrow> bool" where
  "not_seized h \<longleftrightarrow> (case last_write 0xf2 h of None \<Rightarrow> True | Some v \<Rightarrow> bit v 2)"

definition at_rest :: "kernel \<Rightarrow> history \<Rightarrow> bool" where
  "at_rest k h \<longleftrightarrow> (\<exists>h'. h = Pci_command (pci_command k) # h') \<and> released h \<and>
     last_write HAM_REG_INT_EVENT h = Some 0x00 \<and> last_write HAM_REG_RESET h = Some 0x0a"

text \<open>The probe gets as far as the card: the device is enabled and BAR0 claimed and mapped.\<close>

definition maps_card :: "kernel \<Rightarrow> bool" where
  "maps_card k \<longleftrightarrow> enable_device k = 0 \<and> bar0_memory k \<and> 0x100 \<le> bar0_len k \<and> request_regions k = 0 \<and>
     allocates k \<and> maps_bar0 k"

lemma last_write_access [simp]:
  "last_write r (snd (ham_read b r' h)) = last_write r h"
  "last_write r (ham_write b r' v h) = (if r' = r then Some v else last_write r h)"
  "last_write r (msleep n h) = last_write r h"
  by (simp_all add: ham_read_def ham_write_def msleep_def)

lemma bit_hook: "bit (v OR 0x04 :: u8) 2"
  by (simp add: bit_simps bit_numeral_rec)

interpretation hook: rest_invariant not_seized
  by unfold_locales
    (simp_all add: not_seized_def ham_set_hook_def ham_quiesce_def Let_def case_prod_beta bit_hook)

lemma restored_at_rest: "at_rest k (restore_command k b h)" "at_rest k (ham_remove k b h)"
  by (simp_all add: at_rest_def restore_command_def ham_remove_def released_def ham_quiesce_def Let_def
      case_prod_beta bit_hook)

lemma failed_probe_rests:
  "\<lbrakk>ham_probe k m b h = Some (ret, h'); ret \<noteq> 0\<rbrakk> \<Longrightarrow> if maps_card k then at_rest k h' else h' = h"
  by (auto simp: ham_probe_def probe_load_def maps_card_def Let_def case_prod_beta restored_at_rest split: if_splits)

text \<open>
  C23. The driver never leaves the line seized.  Whatever the card, the firmware file and the module
  parameters are (dialling and answering included): when the probe returns, the driver's last store to
  the hook latch, if it made any, releases the relay.  A probe that fails once BAR0 is mapped has
  released the relay, masked the DSP's interrupts, left it in reset and, last of all, put back the PCI
  command word; one that fails before (device not enabled, BAR0 not the expected window, not claimed or not
  mapped, no memory) has not accessed the card.  A removal after a probe releases the relay, masks the
  interrupts, leaves the DSP in reset and puts back the command word.
\<close>

theorem probe_leaves_line_on_hook:
  assumes "ham_probe k m b [] = Some (ret, h)"
  shows "not_seized h \<and> (ret \<noteq> 0 \<longrightarrow> (if maps_card k then at_rest k h else h = [])) \<and> at_rest k (ham_remove k b h)"
proof -
  have "yields not_seized (ham_probe k m b [])" by (rule hook.probe_yields) (simp add: not_seized_def)
  then show ?thesis using assms failed_probe_rests [OF assms] by (auto simp: yields_def restored_at_rest)
qed

text \<open>A probe without a firmware file: the card is reset, the load fails and all is put back.\<close>

theorem probe_leaves_line_on_hook_witness:
  "\<exists>h. ham_probe \<lparr>pci_command = 0x107, enable_device = 0, bar0_memory = True, bar0_len = 0x100,
        request_regions = 0, allocates = True, maps_bar0 = True, firmware = Inl (- 2)\<rparr>
      \<lparr>do_reset = True, load_patch = True, survey_speakerphone = False, survey_mode = - 1,
        dial_number = Some ''100'', answer_mode = - 1\<rparr>
      \<lparr>reply = (\<lambda>_ _. 0), jiffies = length, HZ = 250, stray = (\<lambda>_. 0)\<rparr> [] = Some (- 2, h) \<and> released h \<and> hd h = Pci_command 0x107"
proof -
  define k where "k = \<lparr>pci_command = 0x107, enable_device = 0, bar0_memory = True, bar0_len = 0x100,
        request_regions = 0, allocates = True, maps_bar0 = True, firmware = Inl (- 2) :: int + u8 list\<rparr>"
  define m where "m = \<lparr>do_reset = True, load_patch = True, survey_speakerphone = False, survey_mode = - 1,
        dial_number = Some ''100'', answer_mode = - 1\<rparr>"
  define b where "b = \<lparr>reply = (\<lambda>_ _. 0), jiffies = length, HZ = 250, stray = (\<lambda>_. 0)\<rparr>"
  have "0 < n \<Longrightarrow> fst (status_loop b n st h) = 0" for n st h
    by (cases n) (simp_all add: b_def ham_read_def)
  then have "fst (ham_reset_dsp b h) = 0" for h
    by (simp add: ham_reset_dsp_def Let_def case_prod_beta)
  then obtain h where h: "ham_probe k m b [] = Some (- 2, h)"
    by (auto simp: ham_probe_def probe_load_def k_def m_def Let_def case_prod_beta ham_load_poweron_patch_def
        restore_command_def)
  then show ?thesis using probe_leaves_line_on_hook [OF h] unfolding k_def [symmetric] m_def [symmetric] b_def [symmetric]
    by (auto simp: at_rest_def maps_card_def k_def)
qed

end
