(* ===== verification/Overlays.thy ===== *)
theory Overlays
  imports Playground
begin

text \<open>
  The card driver's protocol: what a command puts into the mailbox, that an overlay request is
  answered with exactly the words of the firmware's records, and that an observation ends.
\<close>

section \<open>What the DSP is given\<close>

text \<open>The shared memory as the driver last wrote it, and the packets it has announced.\<close>

fun cram :: "history \<Rightarrow> nat \<Rightarrow> u8" where
  "cram [] = (\<lambda>_. 0)"
| "cram (Wr r v # h) = (cram h)(r := v)"
| "cram (Rd _ _ # h) = cram h"
| "cram (Sleep _ # h) = cram h"
| "cram (Pci_command _ # h) = cram h"

definition host_packet :: "(nat \<Rightarrow> u8) \<Rightarrow> u8 list" where
  "host_packet m = map (\<lambda>i. m (HAM_CRAM_HOST_PACKET + i)) [0..<unat (m (HAM_CRAM_HOST_PACKET + 2)) + 4]"

fun published :: "history \<Rightarrow> u8 list list" where
  "published [] = []"
| "published (Wr r v # h) = published h @ (if r = HAM_REG_HOST_TRIGGER then [host_packet (cram h)] else [])"
| "published (Rd _ _ # h) = published h"
| "published (Sleep _ # h) = published h"
| "published (Pci_command _ # h) = published h"

lemma mailbox_access [simp]:
  "cram (snd (ham_read b r h)) = cram h" "published (snd (ham_read b r h)) = published h"
  "cram (msleep n h) = cram h" "published (msleep n h) = published h"
  "cram (ham_write b r v h) = (cram h)(r := v)"
  "published (ham_write b r v h) = published h @ (if r = HAM_REG_HOST_TRIGGER then [host_packet (cram h)] else [])"
  by (simp_all add: ham_read_def msleep_def ham_write_def)

lemma host_ready_mailbox: "cram (snd (host_ready b n h)) = cram h" "published (snd (host_ready b n h)) = published h"
  by (induction n arbitrary: h) (simp_all add: Let_def case_prod_beta)

abbreviation (input) put_body :: "board \<Rightarrow> u8 list \<Rightarrow> nat \<Rightarrow> history \<Rightarrow> history" where
  "put_body b c n h \<equiv>
     fold (\<lambda>i h. ham_write b (HAM_CRAM_HOST_PACKET + i) (command_byte b c i h) h) [1..<n] h"

lemma put_body_mailbox:
  "n \<le> 64 \<Longrightarrow> published (put_body b c n h) = published h"
  "\<lbrakk>0 < i; i < n; i < length c\<rbrakk> \<Longrightarrow> cram (put_body b c n h) (HAM_CRAM_HOST_PACKET + i) = c ! i"
  by (induction n) (auto simp: command_byte_def upt_Suc_append less_Suc_eq)

lemma put_published:
  assumes "ham_put_command b c h = (0, h')"
  shows "published h' = published h @ [take (unat (c ! 2) + 4) c]"
proof -
  define n where "n = unat (c ! 2) + 4"
  define h1 where "h1 = put_body b c (wire_size c) (snd (host_ready b 1000 h))"
  have c: "n \<le> length c" "length c \<le> 64" "h' = ham_write b HAM_REG_HOST_TRIGGER 1 (ham_write b HAM_CRAM_HOST_PACKET (c ! 0) h1)"
    using assms by (auto simp: ham_put_command_def Let_def case_prod_beta n_def h1_def split: if_splits)
  have w: "wire_size c \<le> 64" "n \<le> wire_size c"
    using c(1,2) by (auto simp: wire_size_def Let_def n_def split: if_splits) presburger
  have n: "2 < n" by (simp add: n_def)
  define m where "m = (cram h1)(HAM_CRAM_HOST_PACKET := c ! 0)"
  have m: "m (HAM_CRAM_HOST_PACKET + i) = c ! i" if "i < n" for i
    using that put_body_mailbox(2) [of i "wire_size c" c b "snd (host_ready b 1000 h)"] c(1) w(2)
    by (cases "i = 0") (auto simp: m_def h1_def)
  have "host_packet m = map ((!) c) [0..<n]"
    unfolding host_packet_def m [OF n] n_def [symmetric] using m by simp
  also have "\<dots> = take n c" using c(1) by (auto intro: nth_equalityI)
  finally show ?thesis using put_body_mailbox(1) [OF w(1), of b c "snd (host_ready b 1000 h)"]
    by (simp add: c(3) m_def n_def h1_def host_ready_mailbox)
qed

section \<open>Records and their words\<close>

type_synonym patch_record = "u8 \<times> u8 \<times> u16 \<times> u16 list"

definition le_bytes :: "u16 \<Rightarrow> u8 list" where
  "le_bytes w = [ucast w, ucast (drop_bit 8 w)]"

definition encode_record :: "patch_record \<Rightarrow> u8 list" where
  "encode_record = (\<lambda>(rtype, overlay, address, words).
     [rtype, overlay] @ le_bytes address @ le_bytes (of_nat (length words)) @ concat (map le_bytes words))"

text \<open>What a record asks for: a space, an address and a word each.\<close>

definition record_stores :: "patch_record \<Rightarrow> (u8 \<times> u16 \<times> u16) list" where
  "record_stores = (\<lambda>(rtype, overlay, address, words).
     map (\<lambda>i. (push_bit 4 (rtype AND 0x0e), address + of_nat i, words ! i)) [0..<length words])"

text \<open>What a packet asks for.\<close>

definition packet_stores :: "u8 list \<Rightarrow> (u8 \<times> u16 \<times> u16) list" where
  "packet_stores p =
     (if p ! 0 = 0x0c
      then map (\<lambda>i. (p ! 6, le16_at p 4 + of_nat i, le16_at p (8 + 2 * i)))
             [0..<(unat (p ! 2) - 4) div 2]
      else [])"

lemma le16_join: "(ucast (ucast w :: u8) :: u16) OR push_bit 8 (ucast (ucast (drop_bit 8 w) :: u8)) = w" for w :: u16
  by (rule bit_word_eqI) (auto simp: bit_simps)

lemma le_bytes_at:
  "i < length ws \<Longrightarrow> concat (map le_bytes ws) ! (2 * i) = ucast (ws ! i)
     \<and> concat (map le_bytes ws) ! Suc (2 * i) = ucast (drop_bit 8 (ws ! i))"
proof (induction ws arbitrary: i)
  case (Cons w ws)
  then show ?case by (cases i) (simp_all add: le_bytes_def)
qed simp

lemma length_le_bytes [simp]: "length (concat (map le_bytes ws)) = 2 * length ws"
  by (induction ws) (simp_all add: le_bytes_def)

lemma le_bytes_drop: "drop (2 * k) (concat (map le_bytes ws)) = concat (map le_bytes (drop k ws))"
proof (induction ws arbitrary: k)
  case (Cons w ws)
  then show ?case by (cases k) (simp_all add: le_bytes_def)
qed simp

lemma le_bytes_take: "take (2 * k) (concat (map le_bytes ws)) = concat (map le_bytes (take k ws))"
proof (induction ws arbitrary: k)
  case (Cons w ws)
  then show ?case by (cases k) (simp_all add: le_bytes_def)
qed simp

text \<open>The packet of a chunk of at most six words.\<close>

lemma chunk_packet:
  fixes t :: u8 and a :: u16
  assumes "length cs \<le> 6"
  defines "c \<equiv> chunk_command t a (concat (map le_bytes cs))"
  shows "packet_stores (take (unat (c ! 2) + 4) c) = record_stores (t, ov, a, cs)"
    and "length c = 20" "unat (c ! 2) + 4 \<le> 20"
proof -
  define hd8 where "hd8 = [0x0c, 0, of_nat (2 * length cs) + 4, 0, ucast (a AND 0xff), ucast (drop_bit 8 a),
      push_bit 4 (t AND 0x0e), 0 :: u8]"
  have n: "unat (c ! 2) = 2 * length cs + 4"
  proof -
    have "of_nat (2 * length cs) + 4 = (of_nat (2 * length cs + 4) :: u8)" by simp
    moreover have "unat (of_nat (2 * length cs + 4) :: u8) = 2 * length cs + 4"
      using assms(1) unsigned_of_nat [of "2 * length cs + 4", where ?'b = 8 and ?'a = nat] by (simp add: take_bit_nat_eq_self)
    ultimately show ?thesis by (simp add: c_def chunk_command_def)
  qed
  show "length c = 20" "unat (c ! 2) + 4 \<le> 20" using assms(1) n by (simp_all add: c_def chunk_command_def)
  have p: "take (unat (c ! 2) + 4) c = hd8 @ concat (map le_bytes cs)" (is "?p = _")
  proof -
    have "c = hd8 @ concat (map le_bytes cs) @ replicate (12 - 2 * length cs) 0" "length hd8 = 8"
      by (simp_all add: c_def chunk_command_def hd8_def)
    then show ?thesis unfolding n by simp
  qed
  have a: "le16_at ?p 4 = a"
  proof -
    have "(ucast (a AND mask 8) :: u8) = ucast a" by (rule bit_word_eqI) (auto simp: bit_simps)
    then have "(ucast (a AND 0xff) :: u8) = ucast a" by (simp add: mask_numeral)
    then show ?thesis unfolding p using le16_join [of a] by (simp add: le16_at_def hd8_def)
  qed
  have w: "le16_at ?p (8 + 2 * i) = cs ! i" if "i < length cs" for i
    unfolding p using le_bytes_at [OF that] le16_join [of "cs ! i"]
    by (simp add: le16_at_def hd8_def nth_append)
  have "unat (?p ! 2) - 4 = 2 * length cs" "?p ! 0 = 0x0c" "?p ! 6 = push_bit 4 (t AND 0x0e)"
    using n by (simp_all add: c_def chunk_command_def)
  then show "packet_stores ?p = record_stores (t, ov, a, cs)"
    unfolding packet_stores_def record_stores_def by (simp add: a w)
qed

text \<open>A record is sent in chunks; each answer is a whole number of words in order.\<close>

definition sends :: "history \<Rightarrow> history \<Rightarrow> (u8 \<times> u16 \<times> u16) list \<Rightarrow> bool" where
  "sends h h' xs \<longleftrightarrow> (\<exists>ps. published h' = published h @ ps \<and> concat (map packet_stores ps) = xs)"

lemma sends_refl: "sends h h []"
  by (simp add: sends_def)

lemma sends_trans: "\<lbrakk>sends h h1 xs; sends h1 h2 ys\<rbrakk> \<Longrightarrow> sends h h2 (xs @ ys)"
  unfolding sends_def by (metis append.assoc concat_append map_append)

lemma stores_split:
  "record_stores (t, ov, a, ws) = record_stores (t, ov, a, take k ws) @ record_stores (t, ov, a + of_nat k, drop k ws)"
  if "k \<le> length ws"
  using that by (auto simp: record_stores_def nth_append algebra_simps intro!: nth_equalityI)

lemma send_chunks_step:
  assumes "k < length ws"
  defines "c \<equiv> min 6 (length ws - k)"
  shows "send_chunks b t a (concat (map le_bytes ws)) (2 * k) h =
    (let (ret, h1) = ham_put_command b (chunk_command t (a + of_nat k) (concat (map le_bytes (take c (drop k ws))))) h
     in if ret \<noteq> 0 then (ret, h1) else send_chunks b t a (concat (map le_bytes ws)) (2 * (k + c)) h1)"
proof -
  have c: "min 12 (2 * length ws - 2 * k) = 2 * c" by (auto simp: c_def min_def)
  have "take (2 * c) (drop (2 * k) (concat (map le_bytes ws))) = concat (map le_bytes (take c (drop k ws)))"
    by (simp add: le_bytes_drop le_bytes_take)
  then show ?thesis
    using assms(1) by (subst send_chunks.simps) (simp add: c Let_def case_prod_beta distrib_left)
qed

lemma send_chunks_done: "send_chunks b t a (concat (map le_bytes ws)) (2 * length ws) h = (0, h)"
  by (subst send_chunks.simps) simp

lemma send_chunks_sends:
  "\<lbrakk>send_chunks b t a (concat (map le_bytes ws)) (2 * k) h = (0, h'); k \<le> length ws\<rbrakk>
     \<Longrightarrow> sends h h' (record_stores (t, ov, a + of_nat k, drop k ws))"
proof (induction "length ws - k" arbitrary: k h rule: less_induct)
  case less
  define c where "c = min 6 (length ws - k)"
  show ?case
  proof (cases "k < length ws")
    case True
    define cs where "cs = take c (drop k ws)"
    define cmd where "cmd = chunk_command t (a + of_nat k) (concat (map le_bytes cs))"
    obtain ret h1 where r: "ham_put_command b cmd h = (ret, h1)" by fastforce
    then have ret: "ret = 0" "send_chunks b t a (concat (map le_bytes ws)) (2 * (k + c)) h1 = (0, h')"
      using less.prems(1) send_chunks_step [OF True, of b t a h]
      by (auto simp: c_def [symmetric] cs_def [symmetric] cmd_def [symmetric] split: if_splits)
    have c: "0 < c" "k + c \<le> length ws" "length cs \<le> 6" using True by (auto simp: c_def cs_def)
    have "sends h1 h' (record_stores (t, ov, a + of_nat (k + c), drop (k + c) ws))"
      using less.hyps [OF _ ret(2)] True c by simp
    moreover have "sends h h1 (record_stores (t, ov, a + of_nat k, cs))"
      using put_published [of b cmd h h1] r ret(1) chunk_packet(1) [OF c(3), of t "a + of_nat k" ov]
      by (simp add: sends_def cmd_def)
    ultimately show ?thesis
      using stores_split [of c "drop k ws" t ov "a + of_nat k"] c(2) sends_trans
      by (fastforce simp: cs_def algebra_simps)
  next
    case False
    then show ?thesis using less.prems send_chunks_done [of b t a ws h] by (simp add: sends_refl record_stores_def)
  qed
qed

text \<open>A card that takes every command gets all of them.\<close>

definition ready :: "board \<Rightarrow> bool" where
  "ready b \<longleftrightarrow> (\<forall>h. reply b h HAM_CRAM_HOST_PACKET = 0)"

lemma put_ready: "\<lbrakk>ready b; 4 \<le> length c; length c \<le> 64; unat (c ! 2) + 4 \<le> length c\<rbrakk> \<Longrightarrow> fst (ham_put_command b c h) = 0"
proof -
  assume a: "ready b" "4 \<le> length c" "length c \<le> 64" "unat (c ! 2) + 4 \<le> length c"
  have "0 < n \<Longrightarrow> fst (host_ready b n h)" for n using a(1) by (cases n) (simp_all add: ready_def ham_read_def)
  then have "fst (host_ready b 1000 h)" by simp
  then show ?thesis using a by (simp add: ham_put_command_def Let_def case_prod_beta)
qed

lemma send_chunks_ready: "\<lbrakk>ready b; k \<le> length ws\<rbrakk> \<Longrightarrow> fst (send_chunks b t a (concat (map le_bytes ws)) (2 * k) h) = 0"
proof (induction "length ws - k" arbitrary: k h rule: less_induct)
  case less
  define c where "c = min 6 (length ws - k)"
  define cmd where "cmd = chunk_command t (a + of_nat k) (concat (map le_bytes (take c (drop k ws))))"
  show ?case
  proof (cases "k < length ws")
    case True
    have "length (take c (drop k ws)) \<le> 6" by (simp add: c_def)
    then have "fst (ham_put_command b cmd h) = 0"
      using put_ready [OF less.prems(1)] chunk_packet(2,3) [of "take c (drop k ws)" t "a + of_nat k"]
      by (simp add: cmd_def)
    moreover have "0 < c" "k + c \<le> length ws" using True by (auto simp: c_def)
    ultimately show ?thesis
      using less.hyps [of "k + c" "snd (ham_put_command b cmd h)"] less.prems send_chunks_step [OF True, of b t a h] True
      by (simp add: Let_def case_prod_beta c_def [symmetric] cmd_def [symmetric])
  next
    case False
    then show ?thesis using less.prems send_chunks_done [of b t a ws h] by simp
  qed
qed

section \<open>An overlay request\<close>

definition proper_record :: "patch_record \<Rightarrow> bool" where
  "proper_record = (\<lambda>(rtype, overlay, address, words). rtype \<noteq> HAM_PATCH_END \<and> length words < 0x10000)"

lemma overlay_step:
  fixes t :: u8 and pre rest :: "u8 list"
  assumes "proper_record (t, ov', a, ws)"
  defines "e \<equiv> encode_record (t, ov', a, ws)"
  defines "fw \<equiv> pre @ e @ rest"
  shows "overlay_records b fw ov (length pre) n h =
    (if ov' = ov then
       if t AND 0x01 = 0 then (Inl (- EOPNOTSUPP), h)
       else (let (ret, h1) = send_chunks b t a (concat (map le_bytes ws)) 0 h
             in if ret \<noteq> 0 then (Inl ret, h1) else overlay_records b fw ov (length (pre @ e)) (n + 1) h1)
     else overlay_records b fw ov (length (pre @ e)) n h)"
proof -
  have hd: "fw ! length pre = t" "fw ! (length pre + 1) = ov'" "le16_at fw (length pre + 2) = a"
    "le16_at fw (length pre + 4) = of_nat (length ws)"
    using le16_join [of a] le16_join [of "of_nat (length ws)"]
    by (simp_all add: fw_def e_def encode_record_def le_bytes_def le16_at_def nth_append)
  have n: "unat (of_nat (length ws) :: u16) = length ws"
    using assms(1) by (simp add: proper_record_def unsigned_of_nat take_bit_nat_eq_self)
  have len: "length e = 6 + 2 * length ws" by (simp add: e_def encode_record_def le_bytes_def)
  have "drop 6 e = concat (map le_bytes ws)" by (simp add: e_def encode_record_def le_bytes_def)
  then have body: "take (length ws * 2) (drop (length pre + 6) fw) = concat (map le_bytes ws)"
    using len by (simp add: fw_def mult.commute)
  have "length pre < length fw" "length pre + 6 + length ws * 2 \<le> length fw" using len by (simp_all add: fw_def)
  moreover have "t \<noteq> HAM_PATCH_END" using assms(1) by (simp add: proper_record_def)
  moreover have "length (pre @ e) = length pre + 6 + length ws * 2" by (simp add: len)
  ultimately show ?thesis
    by (subst overlay_records.simps) (simp only: hd n body Let_def case_prod_beta, simp)
qed

abbreviation (input) patch_array :: "patch_record list \<Rightarrow> u8 list \<Rightarrow> u8 list" where
  "patch_array rs rest \<equiv> concat (map encode_record rs) @ HAM_PATCH_END # rest"

definition selected :: "u8 \<Rightarrow> patch_record list \<Rightarrow> patch_record list" where
  "selected ov rs = filter (\<lambda>(rtype, overlay, address, words). overlay = ov) rs"

lemma selected_Cons [simp]:
  "selected ov [] = []"
  "selected ov ((t, ov', a, ws) # rs) = (if ov' = ov then (t, ov', a, ws) # selected ov rs else selected ov rs)"
  by (simp_all add: selected_def)

lemma overlay_error: "overlay_records b fw ov off n h \<noteq> (Inl 0, h')"
proof (induction "length fw - off" arbitrary: off n h rule: less_induct)
  case less
  then show ?case by (subst overlay_records.simps) (auto simp: Let_def case_prod_beta split: if_splits)
qed

lemma overlay_sends:
  "\<lbrakk>overlay_records b (pre @ patch_array rs rest) ov (length pre) n h = (Inr m, h'); list_all proper_record rs\<rbrakk>
     \<Longrightarrow> sends h h' (concat (map record_stores (selected ov rs)))"
proof (induction rs arbitrary: pre n h)
  case Nil
  then show ?case by (subst (asm) overlay_records.simps) (simp add: sends_refl nth_append)
next
  case (Cons r rs)
  obtain t ov' a ws where r: "r = (t, ov', a, ws)" using prod_cases4 by blast
  let ?fw = "pre @ encode_record r @ patch_array rs rest" and ?pre = "pre @ encode_record r"
  have IH: "\<lbrakk>overlay_records b ?fw ov (length ?pre) n' h1 = (Inr m, h')\<rbrakk>
      \<Longrightarrow> sends h1 h' (concat (map record_stores (selected ov rs)))" for n' h1
    using Cons.IH [of ?pre n' h1] Cons.prems(2) by simp
  have step: "overlay_records b ?fw ov (length pre) n h = (Inr m, h')" using Cons.prems(1) by simp
  show ?case
  proof (cases "ov' = ov")
    case True
    obtain ret h1 where c: "send_chunks b t a (concat (map le_bytes ws)) 0 h = (ret, h1)" by fastforce
    have ok: "ret = 0" "overlay_records b ?fw ov (length ?pre) (n + 1) h1 = (Inr m, h')"
      using step overlay_step [of t ov' a ws b pre "patch_array rs rest" ov n h] Cons.prems(2) True c
      by (auto simp: r split: if_splits)
    have "sends h h1 (record_stores (t, ov', a, ws))" using send_chunks_sends [of b t a ws 0 h h1 ov'] c ok(1) by simp
    then show ?thesis using sends_trans [OF _ IH [OF ok(2)]] True by (simp add: r)
  next
    case False
    then show ?thesis using step overlay_step [of t ov' a ws b pre "patch_array rs rest" ov n h] Cons.prems(2) IH
      by (simp add: r)
  qed
qed

lemma overlay_ready:
  "\<lbrakk>ready b; list_all proper_record rs; \<forall>r \<in> set (selected ov rs). bit (fst r) 0\<rbrakk>
     \<Longrightarrow> fst (overlay_records b (pre @ patch_array rs rest) ov (length pre) n h) = Inr (n + length (selected ov rs))"
proof (induction rs arbitrary: pre n h)
  case Nil
  then show ?case by (subst overlay_records.simps) (simp add: nth_append)
next
  case (Cons r rs)
  obtain t ov' a ws where r: "r = (t, ov', a, ws)" using prod_cases4 by blast
  have IH: "fst (overlay_records b (pre @ encode_record r @ patch_array rs rest) ov (length (pre @ encode_record r)) n' h1)
      = Inr (n' + length (selected ov rs))" for n' h1
    using Cons.IH [of "pre @ encode_record r" n' h1] Cons.prems by (auto simp: r split: if_splits)
  have "bit t 0 \<Longrightarrow> t AND 1 \<noteq> 0" by (simp add: and_one_eq odd_iff_mod_2_eq_one bit_0)
  then show ?case
    using overlay_step [of t ov' a ws b pre "patch_array rs rest" ov n h] Cons.prems IH
      send_chunks_ready [OF Cons.prems(1), of 0 ws t a h]
    by (auto simp: r Let_def case_prod_beta)
qed

text \<open>
  C24. An overlay request is answered with the overlay.  For a patch array made of records, if
  \<^verbatim>\<open>ham_service_overlay\<close> succeeds then the packets the DSP was given ask, in order, for exactly the
  words of the records with the requested number, each at its record's address plus its index and in
  its record's space, followed by the announcement that the overlay is loaded; and with a card that
  takes every command it does succeed, provided there is such a record and all are of a downloadable
  type.
\<close>

theorem overlay_delivered:
  assumes "list_all proper_record rs"
  shows "(ham_service_overlay b (patch_array rs rest) request ov h = (0, h') \<longrightarrow>
      (\<exists>ps. published h' = published h @ ps @ [[0xa3, 0x00, 0x02, 0x00, ov, request]]
        \<and> concat (map packet_stores ps) = concat (map record_stores (selected ov rs)))) \<and>
    (ready b \<and> selected ov rs \<noteq> [] \<and> (\<forall>r \<in> set (selected ov rs). bit (fst r) 0) \<longrightarrow>
      fst (ham_service_overlay b (patch_array rs rest) request ov h) = 0)"
proof -
  let ?c = "[0xa3, 0x00, 0x02, 0x00, ov, request] :: u8 list"
  obtain r h1 where o: "overlay_records b (patch_array rs rest) ov 0 0 h = (r, h1)" by fastforce
  have "\<exists>ps. published h' = published h @ ps @ [?c]
        \<and> concat (map packet_stores ps) = concat (map record_stores (selected ov rs))"
    if "ham_service_overlay b (patch_array rs rest) request ov h = (0, h')"
  proof (cases r)
    case (Inl e)
    then have "e = 0" using that o by (simp add: ham_service_overlay_def)
    then show ?thesis using o Inl overlay_error by blast
  next
    case (Inr m)
    then have "ham_put_command b ?c h1 = (0, h')" using that o by (simp add: ham_service_overlay_def split: if_splits)
    then have "published h' = published h1 @ [?c]" using put_published [of b ?c h1 h'] by simp
    moreover have "sends h h1 (concat (map record_stores (selected ov rs)))"
      using overlay_sends [of b "[]" rs rest ov 0 h m h1] o Inr assms by simp
    ultimately show ?thesis by (auto simp: sends_def)
  qed
  moreover have "fst (ham_service_overlay b (patch_array rs rest) request ov h) = 0"
    if "ready b" "selected ov rs \<noteq> []" "\<forall>r \<in> set (selected ov rs). bit (fst r) 0"
    using overlay_ready [OF that(1) assms that(3), of "[]" rest 0 h] o that(2) put_ready [OF that(1), of ?c h1]
    by (simp add: ham_service_overlay_def)
  ultimately show ?thesis by blast
qed

theorem overlay_delivered_witness:
  "\<exists>ps h'. ham_service_overlay \<lparr>reply = (\<lambda>_ _. 0), jiffies = length, HZ = 250, stray = (\<lambda>_. 0)\<rparr>
      (patch_array [(0x03, 5, 0x100, [0x1234, 0x5678]), (0x01, 6, 0x200, [7])] []) 0x61 5 [] = (0, h')
    \<and> published h' = ps @ [[0xa3, 0x00, 0x02, 0x00, 5, 0x61]]
    \<and> concat (map packet_stores ps) = [(0x20, 0x100, 0x1234), (0x20, 0x101, 0x5678)]"
proof -
  let ?b = "\<lparr>reply = (\<lambda>_ _. 0), jiffies = length, HZ = 250, stray = (\<lambda>_. 0)\<rparr>"
    and ?rs = "[(0x03, 5, 0x100, [0x1234, 0x5678]), (0x01, 6, 0x200, [7])] :: patch_record list"
  obtain ret h' where s: "ham_service_overlay ?b (patch_array ?rs []) 0x61 5 [] = (ret, h')" by fastforce
  have "list_all proper_record ?rs" "ready ?b" by (simp_all add: proper_record_def ready_def)
  then show ?thesis using overlay_delivered [of ?rs ?b "[]" "0x61" 5 "[]" h'] s
    by (auto simp: record_stores_def)
qed

section \<open>Waiting\<close>

lemma clock_invariant:
  assumes "\<forall>a h. jiffies b h \<le> jiffies b (a # h)"
  shows "card_invariant (\<lambda>h. t \<le> jiffies b h)"
  using assms by unfold_locales (blast intro: order_trans)+

lemma observe_returns_from:
  assumes "\<forall>a h. jiffies b h \<le> jiffies b (a # h)" "\<forall>n h. jiffies b h < jiffies b (Sleep n # h)"
  shows "\<exists>ret h'. observe_until b fw t h = Some (ret, h') \<and> (ret = 0 \<longrightarrow> t \<le> jiffies b h')"
proof (induction "t - jiffies b h" arbitrary: h rule: less_induct)
  case less
  show ?case
  proof (cases "jiffies b h < t")
    case True
    obtain r h1 where g: "ham_get_packet b 64 h = (r, h1)" by fastforce
    have later: "jiffies b h < jiffies b h1"
      using card_invariant.get_packet_after [OF clock_invariant [OF assms(1)], of "Suc (jiffies b h)" h b 64] assms(2) g
      by (simp add: msleep_def Suc_le_eq)
    have "jiffies b h < jiffies b h2" if "ham_service_overlay b fw q ov h1 = (ret, h2)" for q ov ret h2
      using card_invariant.service_keeps [OF clock_invariant [OF assms(1)], of "Suc (jiffies b h)" h1 b fw q ov] later that
      by (simp add: Suc_le_eq)
    moreover have "e = - ETIMEDOUT" if "r = Inl e" for e
      using g that by (auto simp: ham_get_packet_def Let_def case_prod_beta split: if_splits)
    ultimately show ?thesis
      using True later by (subst observe_until.simps)
        (auto simp: g less diff_less_mono2 split: sum.split prod.split)
  next
    case False
    then show ?thesis by (subst observe_until.simps) simp
  qed
qed

text \<open>
  C25. An observation ends.  With a clock that never goes back and moves on in every \<^verbatim>\<open>msleep\<close>,
  \<^verbatim>\<open>ham_observe\<close> returns whatever the card sends and however often; if it reports no error the
  whole interval has passed.
\<close>

theorem observe_returns:
  assumes "\<forall>a h. jiffies b h \<le> jiffies b (a # h)" "\<forall>n h. jiffies b h < jiffies b (Sleep n # h)"
  shows "\<exists>ret h'. ham_observe b fw seconds h = Some (ret, h')
    \<and> (ret = 0 \<longrightarrow> jiffies b h + seconds * HZ b \<le> jiffies b h')"
  unfolding ham_observe_def by (rule observe_returns_from [OF assms])

theorem observe_returns_witness:
  "\<exists>ret h'. ham_observe \<lparr>reply = (\<lambda>h r. of_nat (length h)), jiffies = length, HZ = 250, stray = (\<lambda>_. 0)\<rparr> [0x30] 15 [] =
     Some (ret, h') \<and> (ret = 0 \<longrightarrow> 3750 \<le> length h')"
  using observe_returns [of "\<lparr>reply = (\<lambda>h r. of_nat (length h)), jiffies = length, HZ = 250, stray = (\<lambda>_. 0)\<rparr>" "[0x30]" 15 "[]"]
  by simp

text \<open>
  The wait for a reply has no such bound: a card that sends nothing but unsolicited packets keeps the
  driver waiting for ever, off hook if it is dialling.
\<close>

definition chatter :: board where
  "chatter = \<lparr>reply = (\<lambda>_ r. if r = 0 then 0xc4 else if r = HAM_REG_INT_EVENT then 0x01 else 0),
     jiffies = length, HZ = 250, stray = (\<lambda>_. 0)\<rparr>"

lemma chatter_packet: "fst (ham_get_packet chatter 64 h) = Inr [0xc4, 0, 0, 0]"
proof -
  have "0 < n \<Longrightarrow> fst (packet_ready chatter n h)" for n
    by (cases n) (simp_all add: ham_read_def chatter_def)
  then show ?thesis
    by (simp add: ham_get_packet_def Let_def case_prod_beta ham_read_def upt_rec) (simp add: chatter_def)
qed

lemma chatter_endless: "await_reply chatter fw cmd want n h = None"
proof -
  have "b = chatter \<Longrightarrow> False" if "await_reply b fw cmd want n h = Some y" for b y
    using that
  proof (induction b fw cmd want n h y rule: await_reply.raw_induct [rotated, consumes 1])
    case (1 await b fw cmd want n h y)
    then show ?case using chatter_packet [of h] by (cases y) (auto split: prod.splits)
  qed
  then show ?thesis by (cases "await_reply chatter fw cmd want n h") auto
qed

end
