(* ===== verification/Bitqueue.thy ===== *)
theory Bitqueue
  imports Prelude
begin

text \<open>
  The bit queues of the two V.90 bridges (\<^verbatim>\<open>tx_bits\<close>, \<^verbatim>\<open>rx_bits\<close> in
  \<^verbatim>\<open>v90_digital_phase3_event_bridge.c\<close>, the queue of \<^verbatim>\<open>idle_bit_source_t\<close> in
  \<^verbatim>\<open>v90a_phase3_bridge_probe.c\<close>): rings of bytes that hold a bit each, filled from and emptied into
  256-byte packets.  The locale \<open>bit_queue\<close> states what a queue of bits promises; the ring keeps it.
\<close>

section \<open>Rings\<close>

definition DATA_BYTES :: nat where "DATA_BYTES = 256"
definition DATA_BITS :: nat where "DATA_BITS = DATA_BYTES * 8"
definition DATA_QUEUE_BITS :: nat where "DATA_QUEUE_BITS = 64 * 1024 * 1024"

record bit_ring =
  cells :: "nat \<Rightarrow> u8"
  rd :: nat
  wr :: nat
  count :: nat

definition empty_ring :: bit_ring where
  "empty_ring = \<lparr>cells = (\<lambda>_. 0), rd = 0, wr = 0, count = 0\<rparr>"

text \<open>The store of a bit into a queue known not to be full.\<close>

definition ring_put :: "u8 \<Rightarrow> bit_ring \<Rightarrow> bit_ring" where
  "ring_put v r = r\<lparr>cells := (cells r)(wr r := v), wr := (wr r + 1) mod DATA_QUEUE_BITS, count := count r + 1\<rparr>"

text \<open>The next bit, or an idle 1.\<close>

definition ring_get :: "bit_ring \<Rightarrow> u8 \<times> bit_ring" where
  "ring_get r =
     (if count r \<noteq> 0
      then (cells r (rd r), r\<lparr>rd := (rd r + 1) mod DATA_QUEUE_BITS, count := count r - 1\<rparr>)
      else (1, r))"

text \<open>\<^verbatim>\<open>bridge_queue_input\<close> and \<^verbatim>\<open>queue_input_bits\<close>: the loop stops when the queue is full.\<close>

fun queue_loop :: "u8 list \<Rightarrow> nat list \<Rightarrow> bit_ring \<Rightarrow> bit_ring" where
  "queue_loop packed [] r = r"
| "queue_loop packed (i # is) r =
     (if count r < DATA_QUEUE_BITS
      then queue_loop packed is (ring_put (drop_bit (i mod 8) (packed ! (i div 8)) AND 1) r)
      else r)"

definition queue_input :: "u8 list \<Rightarrow> nat \<Rightarrow> bit_ring \<Rightarrow> bit_ring" where
  "queue_input packed n r = queue_loop packed [0..<min n DATA_BITS] r"

text \<open>\<^verbatim>\<open>bridge_pack_output\<close>: the count is taken off after the loop.\<close>

fun pack_loop :: "nat list \<Rightarrow> u8 list \<Rightarrow> bit_ring \<Rightarrow> u8 list \<times> bit_ring" where
  "pack_loop [] packed r = (packed, r)"
| "pack_loop (i # is) packed r =
     pack_loop is (packed[i div 8 := packed ! (i div 8) OR push_bit (i mod 8) (cells r (rd r))])
       (r\<lparr>rd := (rd r + 1) mod DATA_QUEUE_BITS\<rparr>)"

definition pack_output :: "bit_ring \<Rightarrow> nat \<times> u8 list \<times> bit_ring" where
  "pack_output r =
     (let n = min (count r) DATA_BITS;
          (packed, r') = pack_loop [0..<n] (replicate DATA_BYTES 0) r
      in (n, packed, r'\<lparr>count := count r' - n\<rparr>))"

section \<open>Queues of bits\<close>

locale bit_queue =
  fixes ok :: "'q \<Rightarrow> bool" and contents :: "'q \<Rightarrow> u8 list" and put :: "u8 \<Rightarrow> 'q \<Rightarrow> 'q"
    and get :: "'q \<Rightarrow> u8 \<times> 'q" and capacity :: nat
  assumes bounded: "ok q \<Longrightarrow> length (contents q) \<le> capacity"
    and put_ok: "\<lbrakk>ok q; length (contents q) < capacity\<rbrakk> \<Longrightarrow> ok (put v q)"
    and put_contents: "\<lbrakk>ok q; length (contents q) < capacity\<rbrakk> \<Longrightarrow> contents (put v q) = contents q @ [v]"
    and get_ok: "ok q \<Longrightarrow> ok (snd (get q))"
    and get_value: "ok q \<Longrightarrow> fst (get q) = (case contents q of [] \<Rightarrow> 1 | v # _ \<Rightarrow> v)"
    and get_contents: "ok q \<Longrightarrow> contents (snd (get q)) = tl (contents q)"
begin

text \<open>\<open>n\<close> bits taken one after the other.\<close>

primrec taken :: "nat \<Rightarrow> 'q \<Rightarrow> u8 list" where
  "taken 0 q = []"
| "taken (Suc n) q = fst (get q) # taken n (snd (get q))"

lemma taken_contents: "ok q \<Longrightarrow> taken n q = take n (contents q) @ replicate (n - length (contents q)) 1"
proof (induction n arbitrary: q)
  case (Suc n)
  then show ?case using get_ok get_value get_contents by (cases "contents q") simp_all
qed simp

lemma puts_contents:
  "\<lbrakk>ok q; length (contents q) + length vs \<le> capacity\<rbrakk> \<Longrightarrow> ok (fold put vs q) \<and> contents (fold put vs q) = contents q @ vs"
proof (induction vs arbitrary: q)
  case (Cons v vs)
  have "ok (put v q)" "contents (put v q) = contents q @ [v]"
    using Cons.prems put_ok put_contents by simp_all
  then show ?case using Cons.IH [of "put v q"] Cons.prems(2) by simp
qed simp

text \<open>First in, first out: what is put comes out after what was there, and then ones.\<close>

lemma fifo:
  assumes "ok q" "length (contents q) + length vs \<le> capacity"
  shows "taken n (fold put vs q) = take n (contents q @ vs) @ replicate (n - length (contents q @ vs)) 1"
  using taken_contents [of "fold put vs q" n] puts_contents [OF assms] by simp

end

section \<open>The ring as a queue\<close>

definition ring_ok :: "bit_ring \<Rightarrow> bool" where
  "ring_ok r \<longleftrightarrow> rd r < DATA_QUEUE_BITS \<and> count r \<le> DATA_QUEUE_BITS \<and> wr r = (rd r + count r) mod DATA_QUEUE_BITS"

definition ring_bits :: "bit_ring \<Rightarrow> u8 list" where
  "ring_bits r = map (\<lambda>i. cells r ((rd r + i) mod DATA_QUEUE_BITS)) [0..<count r]"

lemma queue_positive [simp]: "0 < DATA_QUEUE_BITS" "DATA_QUEUE_BITS \<noteq> 0"
  by (simp_all add: DATA_QUEUE_BITS_def)

lemma ring_slots_differ:
  assumes "i < k" "k < DATA_QUEUE_BITS"
  shows "(s + i) mod DATA_QUEUE_BITS \<noteq> (s + k) mod DATA_QUEUE_BITS"
proof
  assume "(s + i) mod DATA_QUEUE_BITS = (s + k) mod DATA_QUEUE_BITS"
  then have "DATA_QUEUE_BITS dvd (s + k) - (s + i)" using assms by (subst mod_eq_dvd_iff_nat [symmetric]) simp_all
  then show False using assms by (auto dest: dvd_imp_le)
qed

interpretation ring: bit_queue ring_ok ring_bits ring_put ring_get DATA_QUEUE_BITS
proof
  fix r v
  assume ok: "ring_ok r"
  then show "length (ring_bits r) \<le> DATA_QUEUE_BITS" by (simp add: ring_ok_def ring_bits_def)
  show "ring_ok (snd (ring_get r))"
    using ok by (cases "count r") (auto simp: ring_ok_def ring_get_def mod_simps)
  show "fst (ring_get r) = (case ring_bits r of [] \<Rightarrow> 1 | v # _ \<Rightarrow> v)"
    using ok by (auto simp: ring_ok_def ring_get_def ring_bits_def upt_rec split: list.split)
  show "ring_bits (snd (ring_get r)) = tl (ring_bits r)"
    using ok by (cases "count r") (auto simp: ring_ok_def ring_get_def ring_bits_def mod_simps upt_conv_Cons map_Suc_upt [symmetric] simp del: upt_Suc intro!: nth_equalityI)
  assume room: "length (ring_bits r) < DATA_QUEUE_BITS"
  then show "ring_ok (ring_put v r)"
    using ok by (auto simp: ring_ok_def ring_put_def ring_bits_def mod_simps)
  show "ring_bits (ring_put v r) = ring_bits r @ [v]"
    using ok room ring_slots_differ [of _ "count r" "rd r"]
    by (auto simp: ring_ok_def ring_put_def ring_bits_def)
qed

section \<open>Packets\<close>

definition packed_bit :: "u8 list \<Rightarrow> nat \<Rightarrow> u8" where
  "packed_bit packed i = drop_bit (i mod 8) (packed ! (i div 8)) AND 1"

lemma packed_bit_of_bool: "packed_bit packed i = of_bool (bit (packed ! (i div 8)) (i mod 8))"
  by (simp add: packed_bit_def and_one_eq bit_iff_odd_drop_bit mod_2_eq_odd)

lemma queue_loop_puts:
  "\<lbrakk>ring_ok r; count r + length is \<le> DATA_QUEUE_BITS\<rbrakk>
     \<Longrightarrow> queue_loop packed is r = fold ring_put (map (packed_bit packed) is) r"
proof (induction "is" arbitrary: r)
  case (Cons i "is")
  have "ring_ok (ring_put (packed_bit packed i) r)"
    using ring.put_ok [OF Cons.prems(1)] Cons.prems(2) by (simp add: ring_bits_def)
  then show ?case using Cons.IH [of "ring_put (packed_bit packed i) r"] Cons.prems(2)
    by (simp add: packed_bit_def ring_put_def)
qed simp

lemma queue_input_contents:
  assumes "ring_ok r" "count r + min n DATA_BITS \<le> DATA_QUEUE_BITS"
  shows "ring_ok (queue_input packed n r)"
    "ring_bits (queue_input packed n r) = ring_bits r @ map (packed_bit packed) [0..<min n DATA_BITS]"
  using assms ring.puts_contents [OF assms(1), of "map (packed_bit packed) [0..<min n DATA_BITS]"]
  by (simp_all add: queue_input_def queue_loop_puts ring_bits_def [of r])

text \<open>What the packing loop has written after \<open>j\<close> of the bits \<open>vs\<close>.\<close>

definition packed_upto :: "u8 list \<Rightarrow> nat \<Rightarrow> u8 list \<Rightarrow> bool" where
  "packed_upto vs j packed \<longleftrightarrow> length packed = DATA_BYTES \<and>
     (\<forall>i < DATA_BITS. bit (packed ! (i div 8)) (i mod 8) \<longleftrightarrow> i < j \<and> vs ! i = 1)"

lemma packed_upto_Suc:
  assumes "packed_upto vs j packed" "j < DATA_BITS" "vs ! j \<in> {0, 1}"
  shows "packed_upto vs (Suc j) (packed[j div 8 := packed ! (j div 8) OR push_bit (j mod 8) (vs ! j)])"
proof -
  have "j div 8 < length packed" using assms(1,2) by (simp add: packed_upto_def DATA_BITS_def less_mult_imp_div_less)
  moreover have "i = j" if "j div 8 = i div 8" "i mod 8 = j mod 8" for i using that by (metis div_mult_mod_eq)
  ultimately show ?thesis using assms
    by (auto simp: packed_upto_def nth_list_update bit_simps less_Suc_eq) metis+
qed

lemma pack_loop_bits:
  "\<lbrakk>packed_upto vs j packed; n \<le> DATA_BITS; set vs \<subseteq> {0, 1}; n \<le> length vs; j \<le> n;
    \<forall>i < n - j. cells r ((rd r + i) mod DATA_QUEUE_BITS) = vs ! (j + i); rd r < DATA_QUEUE_BITS\<rbrakk>
     \<Longrightarrow> packed_upto vs n (fst (pack_loop [j..<n] packed r)) \<and>
       snd (pack_loop [j..<n] packed r) = r\<lparr>rd := (rd r + (n - j)) mod DATA_QUEUE_BITS\<rparr>"
proof (induction "n - j" arbitrary: j packed r)
  case (Suc k)
  let ?r = "r\<lparr>rd := (rd r + 1) mod DATA_QUEUE_BITS\<rparr>"
  let ?p = "packed[j div 8 := packed ! (j div 8) OR push_bit (j mod 8) (vs ! j)]"
  have j: "j < n" using Suc.hyps(2) by simp
  have c: "cells r (rd r) = vs ! j" using Suc.prems(6,7) j by (auto dest: spec [of _ 0])
  have "vs ! j \<in> {0, 1}" using Suc.prems(3,4) j by (metis nth_mem order_less_le_trans subsetD)
  then have "packed_upto vs (Suc j) ?p" using packed_upto_Suc Suc.prems(1,2) j by simp
  moreover have "\<forall>i < n - Suc j. cells ?r ((rd ?r + i) mod DATA_QUEUE_BITS) = vs ! (Suc j + i)"
  proof (intro allI impI)
    fix i assume "i < n - Suc j"
    then have "cells r ((rd r + Suc i) mod DATA_QUEUE_BITS) = vs ! (j + Suc i)"
      using Suc.prems(6) [rule_format, of "Suc i"] j by linarith
    then show "cells ?r ((rd ?r + i) mod DATA_QUEUE_BITS) = vs ! (Suc j + i)" by (simp add: mod_simps)
  qed
  ultimately have "packed_upto vs n (fst (pack_loop [Suc j..<n] ?p ?r)) \<and>
      snd (pack_loop [Suc j..<n] ?p ?r) = ?r\<lparr>rd := (rd ?r + (n - Suc j)) mod DATA_QUEUE_BITS\<rparr>"
    using Suc.hyps(1) [of "Suc j" ?p ?r] Suc.hyps(2) Suc.prems j by simp
  moreover have "((rd r + 1) mod DATA_QUEUE_BITS + (n - Suc j)) mod DATA_QUEUE_BITS = (rd r + (n - j)) mod DATA_QUEUE_BITS"
    using mod_add_left_eq [of "rd r + 1" DATA_QUEUE_BITS "n - Suc j"] Suc_diff_Suc [OF j]
    by (metis add.assoc plus_1_eq_Suc)
  then have "?r\<lparr>rd := (rd ?r + (n - Suc j)) mod DATA_QUEUE_BITS\<rparr> = r\<lparr>rd := (rd r + (n - j)) mod DATA_QUEUE_BITS\<rparr>"
    by (cases r) (simp only: bit_ring.select_convs bit_ring.update_convs)
  ultimately show ?case unfolding upt_conv_Cons [OF j] pack_loop.simps c by (simp only:)
next
  case 0
  then show ?case by simp
qed

lemma pack_output_bits:
  assumes "ring_ok r" "set (ring_bits r) \<subseteq> {0, 1}"
  defines "n \<equiv> min (count r) DATA_BITS"
  obtains packed r' where "pack_output r = (n, packed, r')" "ring_ok r'" "ring_bits r' = drop n (ring_bits r)"
    "map (packed_bit packed) [0..<n] = take n (ring_bits r)" "length packed = DATA_BYTES"
proof -
  obtain packed q where p: "pack_loop [0..<n] (replicate DATA_BYTES 0) r = (packed, q)" by fastforce
  have "packed_upto (ring_bits r) 0 (replicate DATA_BYTES 0)"
    by (auto simp: packed_upto_def DATA_BITS_def less_mult_imp_div_less)
  moreover have "\<forall>i < n - 0. cells r ((rd r + i) mod DATA_QUEUE_BITS) = ring_bits r ! (0 + i)"
    by (simp add: ring_bits_def n_def)
  ultimately have u: "packed_upto (ring_bits r) n packed" "q = r\<lparr>rd := (rd r + n) mod DATA_QUEUE_BITS\<rparr>"
    using pack_loop_bits [of "ring_bits r" 0 "replicate DATA_BYTES 0" n r] assms p
    by (auto simp: ring_ok_def ring_bits_def)
  let ?r = "q\<lparr>count := count q - n\<rparr>"
  have n: "n \<le> count r" by (simp add: n_def)
  show thesis
  proof
    show "pack_output r = (n, packed, ?r)" by (simp add: pack_output_def n_def [symmetric] p)
    show "ring_ok ?r" using assms(1) n mod_add_left_eq [of "rd r + n" DATA_QUEUE_BITS "count r - n"]
      by (auto simp: u ring_ok_def)
    show "ring_bits ?r = drop n (ring_bits r)"
      using n by (auto simp: u ring_bits_def mod_simps add.assoc intro!: nth_equalityI)
    show "map (packed_bit packed) [0..<n] = take n (ring_bits r)"
    proof (rule nth_equalityI)
      fix i assume "i < length (map (packed_bit packed) [0..<n])"
      then have i: "i < n" "ring_bits r ! i \<in> {0, 1}" using assms(2) n by (auto simp: ring_bits_def image_subset_iff)
      then show "map (packed_bit packed) [0..<n] ! i = take n (ring_bits r) ! i"
        using u(1) by (auto simp: packed_bit_of_bool packed_upto_def n_def)
    qed (simp add: ring_bits_def n_def)
    show "length packed = DATA_BYTES" using u(1) by (simp add: packed_upto_def)
  qed
qed

text \<open>
  C36. Bits cross the stream in order.  The packet one side makes of its queue holds as many of the
  oldest bits as fit; the other side that queues the packet has exactly those bits appended to its
  own, in order, and reading them out gives the older bits, the new ones and then idle ones.
\<close>

theorem bits_cross_stream:
  assumes "ring_ok r" "set (ring_bits r) \<subseteq> {0, 1}" "ring_ok r2"
    and room: "count r2 + min (count r) DATA_BITS \<le> DATA_QUEUE_BITS"
    and "pack_output r = (n, packed, r')"
  shows "n = min (count r) DATA_BITS \<and> ring_bits r' = drop n (ring_bits r) \<and>
    ring_bits (queue_input packed n r2) = ring_bits r2 @ take n (ring_bits r) \<and>
    ring.taken k (queue_input packed n r2) =
      take k (ring_bits r2 @ take n (ring_bits r)) @ replicate (k - (count r2 + n)) 1"
proof -
  obtain packed' q where p: "pack_output r = (min (count r) DATA_BITS, packed', q)"
    "ring_bits q = drop (min (count r) DATA_BITS) (ring_bits r)"
    "map (packed_bit packed') [0..<min (count r) DATA_BITS] = take (min (count r) DATA_BITS) (ring_bits r)"
    using pack_output_bits [OF assms(1,2)] by metis
  have e: "n = min (count r) DATA_BITS" "packed = packed'" "r' = q" using p(1) assms(5) by simp_all
  have "ring_ok (queue_input packed n r2)" "ring_bits (queue_input packed n r2) = ring_bits r2 @ take n (ring_bits r)"
    using queue_input_contents [OF assms(3), of n packed] room p(3) by (simp_all add: e)
  then show ?thesis using ring.taken_contents [of "queue_input packed n r2" k] p(2)
    by (simp add: e ring_bits_def)
qed

theorem bits_cross_stream_witness:
  "ring.taken 3 (queue_input (fst (snd (pack_output (ring_put 1 (ring_put 0 empty_ring))))) 2 empty_ring) = [0, 1, 1]"
proof -
  let ?r = "ring_put 1 (ring_put 0 empty_ring)"
  have e: "ring_ok empty_ring" "ring_bits empty_ring = []" by (simp_all add: ring_ok_def ring_bits_def empty_ring_def)
  have r: "ring_ok ?r \<and> ring_bits ?r = [0, 1]" using ring.puts_contents [OF e(1), of "[0, 1]"] e(2)
    by (simp add: DATA_QUEUE_BITS_def)
  have c: "count ?r = 2" "count empty_ring = 0" by (simp_all add: ring_put_def empty_ring_def)
  have s: "set (ring_bits ?r) \<subseteq> {0, 1}" using r by simp
  have m: "count empty_ring + min (count ?r) DATA_BITS \<le> DATA_QUEUE_BITS"
    by (simp add: c DATA_BITS_def DATA_BYTES_def DATA_QUEUE_BITS_def)
  obtain n packed r' where p: "pack_output ?r = (n, packed, r')" by (cases "pack_output ?r") blast
  note h = bits_cross_stream [OF conjunct1 [OF r] s e(1) m p, of 3]
  then have "n = 2" using c by (simp add: DATA_BITS_def DATA_BYTES_def)
  then show ?thesis using h r e(2) c(2) p by auto
qed

end
