(* ===== verification/Companding.thy ===== *)
theory Companding
  imports Prelude
begin

text \<open>
  The G.711 \<open>\<mu>\<close>-law codes of the bridges: \<^verbatim>\<open>pcmu_decode\<close> of
  \<^verbatim>\<open>v90_digital_phase3_event_bridge.c\<close> (the same function as \<^verbatim>\<open>pcmu\<close> of
  \<^verbatim>\<open>p3_segment_probe.c\<close>), on a 14-bit scale, and \<^verbatim>\<open>pcmu_encode\<close> of
  \<^verbatim>\<open>v90a_phase3_bridge_probe.c\<close>, on a 16-bit scale.
\<close>

definition pcmu_decode :: "u8 \<Rightarrow> int" where
  "pcmu_decode code =
     (let v = NOT code;
          magnitude = push_bit (unat (drop_bit 4 v AND 7)) (push_bit 1 (uint (v AND 0x0f)) + 33) - 33
      in if v AND 0x80 \<noteq> 0 then - magnitude else magnitude)"

text \<open>The exponent is found by shifting a mask down from bit 14.\<close>

fun segment_loop :: "nat \<Rightarrow> int \<Rightarrow> int \<Rightarrow> nat" where
  "segment_loop 0 msk magnitude = 0"
| "segment_loop (Suc e) msk magnitude =
     (if magnitude AND msk = 0 then segment_loop e (drop_bit 1 msk) magnitude else Suc e)"

definition pcmu_encode :: "int \<Rightarrow> u8" where
  "pcmu_encode sample =
     (let sgn = (if sample < 0 then 0x80 else 0);
          magnitude = min (if sample < 0 then - sample else sample) 32635 + 0x84;
          e = segment_loop 7 0x4000 magnitude;
          mantissa = drop_bit (e + 3) magnitude AND 0x0f
      in NOT (sgn OR push_bit 4 (of_nat e) OR of_int mantissa))"

section \<open>Segments\<close>

lemma int_div_bound: "a div d < k" if "0 < d" "a < k * d" for a d k :: int
proof (rule ccontr)
  assume "\<not> a div d < k"
  then have "k * d \<le> a div d * d" using that by (intro mult_right_mono) simp_all
  moreover have "a div d * d \<le> a" using div_mult_mod_eq [of a d] pos_mod_sign [OF that(1), of a] by linarith
  ultimately show False using that by linarith
qed

lemma mod_window_16: "16 \<le> q \<Longrightarrow> q < 32 \<Longrightarrow> q mod 16 = q - 16" for q :: int
  by presburger

lemma segment_loop_spec:
  assumes "0 \<le> x" "x < 2 ^ (e + 8)"
  shows "segment_loop e (2 ^ (e + 7)) x \<le> e \<and> x < 2 ^ (segment_loop e (2 ^ (e + 7)) x + 8)
    \<and> (segment_loop e (2 ^ (e + 7)) x \<noteq> 0 \<longrightarrow> 2 ^ (segment_loop e (2 ^ (e + 7)) x + 7) \<le> x)"
  using assms
proof (induction e)
  case (Suc e)
  have b: "x AND 2 ^ (Suc e + 7) = 0 \<longleftrightarrow> x < 2 ^ (e + 8)"
  proof -
    have "x AND 2 ^ (Suc e + 7) = 0 \<longleftrightarrow> \<not> bit x (Suc e + 7)"
      by (simp add: and_exp_eq_0_iff_not_bit)
    also have "\<dots> \<longleftrightarrow> even (x div 2 ^ (e + 8))" by (simp add: bit_iff_odd algebra_simps)
    also have "\<dots> \<longleftrightarrow> x < 2 ^ (e + 8)"
      using Suc.prems int_div_pos_eq [of x "2 ^ (e + 8)" 1 "x - 2 ^ (e + 8)"]
      by (cases "x < 2 ^ (e + 8)") (simp_all add: div_pos_pos_trivial power_add)
    finally show ?thesis .
  qed
  show ?case
  proof (cases "x < 2 ^ (e + 8)")
    case True
    moreover have "(2 :: int) ^ (Suc e + 7) div 2 = 2 ^ (e + 7)" by (simp add: power_add)
    ultimately show ?thesis using Suc b by (simp add: drop_bit_eq_div del: add_Suc)
  next
    case False
    then show ?thesis using Suc.prems b by (simp add: algebra_simps)
  qed
qed simp

lemma segment_loop_7:
  assumes "0 \<le> x" "x < 32768"
  shows "segment_loop 7 0x4000 x \<le> 7" "x < 2 ^ (segment_loop 7 0x4000 x + 8)"
    "0x80 \<le> x \<Longrightarrow> 2 ^ (segment_loop 7 0x4000 x + 7) \<le> x"
  using segment_loop_spec [of x 7] assms by auto

definition code_of :: "bool \<Rightarrow> nat \<Rightarrow> int \<Rightarrow> u8" where
  "code_of neg e m = NOT ((if neg then 0x80 else 0) OR push_bit 4 (of_nat e) OR of_int m)"

text \<open>The code of a magnitude in segment \<open>e\<close>.\<close>

lemma encode_parts:
  assumes "\<bar>x\<bar> \<le> 32635"
  defines "g \<equiv> \<bar>x\<bar> + 0x84"
  obtains e m r where "e \<le> 7" "0 \<le> m" "m < 16" "0 \<le> r" "r < 2 ^ (e + 3)" "g = (16 + m) * 2 ^ (e + 3) + r"
    "pcmu_encode x = code_of (x < 0) e m"
proof
  let ?e = "segment_loop 7 0x4000 g"
  let ?q = "g div 2 ^ (?e + 3)"
  have g: "0x84 \<le> g" "g < 32768" using assms by auto
  note s = segment_loop_7 [of g]
  show "?e \<le> 7" using s g by simp
  have "2 ^ (?e + 7) \<le> g" "g < 2 ^ (?e + 8)" using s g by simp_all
  then have "16 * 2 ^ (?e + 3) \<le> g" "g < 32 * 2 ^ (?e + 3)" by (simp_all add: power_add)
  then have q: "16 \<le> ?q" "?q < 32"
    using zdiv_mono1 [of "16 * 2 ^ (?e + 3)" g "2 ^ (?e + 3)"] by (simp_all add: int_div_bound)
  show "0 \<le> ?q - 16" "?q - 16 < 16" using q by simp_all
  show "0 \<le> g mod 2 ^ (?e + 3)" "g mod 2 ^ (?e + 3) < 2 ^ (?e + 3)" by simp_all
  show "g = (16 + (?q - 16)) * 2 ^ (?e + 3) + g mod 2 ^ (?e + 3)"
    using div_mult_mod_eq [of g "2 ^ (?e + 3)"] by simp
  have "drop_bit (?e + 3) g AND 0x0f = ?q - 16"
  proof -
    have "drop_bit (?e + 3) g AND mask 4 = ?q mod 16" by (simp add: drop_bit_eq_div take_bit_eq_mod flip: take_bit_eq_mask)
    also have "\<dots> = ?q - 16" using q mod_window_16 by simp
    finally show ?thesis by (simp add: mask_numeral)
  qed
  moreover have "min (if x < 0 then - x else x) 32635 + 0x84 = g" using assms(1) by (simp add: g_def)
  ultimately show "pcmu_encode x = code_of (x < 0) ?e (?q - 16)"
    unfolding pcmu_encode_def code_of_def Let_def by (simp only:)
qed

section \<open>Codes\<close>

lemma codes:
  "list_all (\<lambda>e. list_all (\<lambda>m. pcmu_decode (code_of neg e (int m)) = (if neg then - 1 else 1) * ((2 * int m + 33) * 2 ^ e - 33))
     [0..<16]) [0..<8]"
  by (cases neg) (simp_all add: upt_rec pcmu_decode_def code_of_def)

lemma decode_code:
  assumes "e \<le> 7" "0 \<le> m" "m < 16"
  shows "pcmu_decode (code_of neg e m) = (if neg then - 1 else 1) * ((2 * m + 33) * 2 ^ e - 33)"
proof -
  obtain k where "m = int k" "k < 16" using assms by (metis nonneg_int_cases of_nat_less_iff of_nat_numeral)
  then show ?thesis using codes [of neg] assms(1) by (auto simp: list_all_iff)
qed

text \<open>Segment and mantissa are determined by the biased magnitude.\<close>

lemma segment_unique:
  fixes m m' r r' :: int
  assumes "0 \<le> m" "m < 16" "0 \<le> r" "r < 2 ^ (e + 3)" "0 \<le> m'" "m' < 16" "0 \<le> r'" "r' < 2 ^ (e' + 3)"
    and g: "(16 + m) * 2 ^ (e + 3) + r = (16 + m') * 2 ^ (e' + 3) + r'"
  shows "e = e' \<and> m = m'"
proof -
  have range: "2 ^ (k + 7) \<le> (16 + n) * 2 ^ (k + 3) + q \<and> (16 + n) * 2 ^ (k + 3) + q < (2 :: int) ^ (k + 8)"
    if "0 \<le> n" "n < 16" "0 \<le> q" "q < 2 ^ (k + 3)" for n q :: int and k
  proof -
    have "16 * (2 :: int) ^ (k + 3) \<le> (16 + n) * 2 ^ (k + 3)" "(16 + n) * 2 ^ (k + 3) \<le> 31 * (2 :: int) ^ (k + 3)"
      using that by (auto intro!: mult_right_mono)
    moreover have "(2 :: int) ^ (k + 7) = 16 * 2 ^ (k + 3)" "(2 :: int) ^ (k + 8) = 32 * 2 ^ (k + 3)"
      by (simp_all add: power_add)
    ultimately show ?thesis using that(3,4) by linarith
  qed
  have less: "a < b \<Longrightarrow> (2 :: int) ^ (a + 8) \<le> 2 ^ (b + 7)" for a b by (intro power_increasing) auto
  have "\<not> e < e'"
  proof
    assume "e < e'"
    from less [OF this] show False using range [OF assms(1-4)] range [OF assms(5-8)] g by linarith
  qed
  moreover have "\<not> e' < e"
  proof
    assume "e' < e"
    from less [OF this] show False using range [OF assms(1-4)] range [OF assms(5-8)] g by linarith
  qed
  ultimately have e: "e = e'" by simp
  have "k = ((16 + n) * 2 ^ (e + 3) + q) div 2 ^ (e + 3)" if "0 \<le> q" "q < 2 ^ (e + 3)" "k = 16 + n" for n q k :: int
    using that by (simp add: div_pos_pos_trivial)
  then have "16 + m = 16 + m'" using assms(3,4,7,8) g unfolding e by metis
  then show ?thesis using e by simp
qed

lemma code_exists: "\<exists>neg e m. e \<le> 7 \<and> 0 \<le> m \<and> m < 16 \<and> c = code_of neg e m"
proof -
  define v where "v = NOT c"
  have v: "v = push_bit 7 (of_bool (bit v 7)) OR push_bit 4 (drop_bit 4 v AND mask 3) OR (v AND mask 4)"
  proof (rule bit_word_eqI)
    fix n assume "n < LENGTH(8)"
    then consider "n < 4" | "4 \<le> n" "n < 7" | "n = 7" by fastforce
    then show "bit v n \<longleftrightarrow> bit (push_bit 7 (of_bool (bit v 7)) OR push_bit 4 (drop_bit 4 v AND mask 3) OR (v AND mask 4)) n"
      by cases (auto simp: bit_simps)
  qed
  have "code_of (bit v 7) (unat (drop_bit 4 v AND 7)) (uint (v AND 0x0f)) =
      NOT (push_bit 7 (of_bool (bit v 7)) OR push_bit 4 (drop_bit 4 v AND mask 3) OR (v AND mask 4))"
    by (simp add: code_of_def mask_numeral)
  also have "\<dots> = c" unfolding v [symmetric] by (simp add: v_def)
  finally have "c = code_of (bit v 7) (unat (drop_bit 4 v AND 7)) (uint (v AND 0x0f))" ..
  moreover have "unat (drop_bit 4 v AND 7) \<le> 7" using unat_and_le [of "drop_bit 4 v" 7] by simp
  moreover have "uint (v AND 0x0f) < 16"
  proof -
    have "unat (v AND 0x0f) \<le> 15" using unat_and_le [of v "0x0f"] by simp
    moreover have "uint (v AND 0x0f) = int (unat (v AND 0x0f))" by simp
    ultimately show ?thesis by linarith
  qed
  ultimately show ?thesis by (metis uint_ge_0)
qed

lemma decode_encode: "c \<noteq> 0x7f \<Longrightarrow> pcmu_encode (4 * pcmu_decode c) = c"
proof -
  assume "c \<noteq> 0x7f"
  obtain neg e m where c: "e \<le> 7" "0 \<le> m" "m < 16" "c = code_of neg e m" using code_exists by metis
  define y where "y = (2 * m + 33) * 2 ^ e - 33"
  have y: "4 * y + 132 = (16 + m) * 2 ^ (e + 3) + 4 * 2 ^ e" by (simp add: y_def power_add algebra_simps)
  have d: "pcmu_decode c = (if neg then - y else y)" using decode_code [OF c(1-3), of neg] by (simp add: c(4) y_def)
  have "(2 :: int) ^ e \<le> 2 ^ 7" using c(1) by (intro power_increasing) simp_all
  then have r: "0 \<le> y" "y \<le> 8031"
    using mult_mono [of 33 "2 * m + 33" 1 "2 ^ e"] mult_mono [of "2 * m + 33" 63 "2 ^ e" "2 ^ 7"] c(2,3)
    by (simp_all add: y_def)
  let ?x = "4 * pcmu_decode c"
  have x: "\<bar>?x\<bar> = 4 * y" using d r by simp
  then obtain e' m' r' where p: "e' \<le> 7" "0 \<le> m'" "m' < 16" "0 \<le> r'" "r' < 2 ^ (e' + 3)"
    "\<bar>?x\<bar> + 0x84 = (16 + m') * 2 ^ (e' + 3) + r'" "pcmu_encode ?x = code_of (?x < 0) e' m'"
    using encode_parts [of ?x] r by auto
  have u: "e = e' \<and> m = m'"
    by (rule segment_unique [of m "4 * 2 ^ e" e m' r' e']) (use c p x y in \<open>simp_all add: power_add\<close>)
  have "y \<noteq> 0" if neg
  proof
    assume "y = 0"
    then have decodes_zero: "(2 * m + 33) * 2 ^ e = 33" by (simp add: y_def)
    have "e = 0"
    proof (rule ccontr)
      assume "e \<noteq> 0"
      then have "(2 :: int) ^ 1 \<le> 2 ^ e" by (intro power_increasing) simp_all
      then show False using mult_mono [of 33 "2 * m + 33" 2 "2 ^ e"] c(2) decodes_zero by simp
    qed
    then have "c = code_of True 0 0" using decodes_zero that c(4) by simp
    then show False using \<open>c \<noteq> 0x7f\<close> by (simp add: code_of_def)
  qed
  then show ?thesis using p(7) u d r c(4) by (cases neg) auto
qed

lemma encode_error: "\<bar>x\<bar> \<le> 32635 \<Longrightarrow> 32 * \<bar>4 * pcmu_decode (pcmu_encode x) - x\<bar> \<le> \<bar>x\<bar> + 132"
proof -
  assume "\<bar>x\<bar> \<le> 32635"
  then obtain e m r where p: "e \<le> 7" "0 \<le> m" "m < 16" "0 \<le> r" "r < 2 ^ (e + 3)"
    "\<bar>x\<bar> + 0x84 = (16 + m) * 2 ^ (e + 3) + r" "pcmu_encode x = code_of (x < 0) e m"
    using encode_parts by blast
  define y where "y = (2 * m + 33) * 2 ^ e - 33"
  have y: "4 * y + 132 = (16 + m) * 2 ^ (e + 3) + 4 * 2 ^ e" by (simp add: y_def power_add algebra_simps)
  have "pcmu_decode (pcmu_encode x) = (if x < 0 then - y else y)"
    using decode_code [OF p(1-3), of "x < 0"] by (simp add: p(7) y_def)
  then have "\<bar>4 * pcmu_decode (pcmu_encode x) - x\<bar> = \<bar>4 * y - \<bar>x\<bar>\<bar>" by auto
  moreover have "4 * y - \<bar>x\<bar> = 4 * 2 ^ e - r" using y p(6) by simp
  moreover have "(2 :: int) ^ (e + 3) = 8 * 2 ^ e" by (simp add: power_add)
  ultimately have "\<bar>4 * pcmu_decode (pcmu_encode x) - x\<bar> \<le> 4 * 2 ^ e" using p(4,5) by linarith
  moreover have "128 * (2 :: int) ^ e \<le> (16 + m) * 2 ^ (e + 3)"
    using p(2) mult_right_mono [of 16 "16 + m" "2 ^ (e + 3)"] by (simp add: power_add)
  ultimately have "32 * \<bar>4 * pcmu_decode (pcmu_encode x) - x\<bar> \<le> (16 + m) * 2 ^ (e + 3)" by simp
  also have "\<dots> \<le> \<bar>x\<bar> + 132" using p(4,6) by simp
  finally show ?thesis .
qed

text \<open>
  C37. Codes and samples.  Decoding a code, rescaling it from 14 to 16 bits and encoding it gives the
  code back (of the two zeros the positive one); and a sample that is encoded and decoded differs
  from what it was by at most a thirty-second of its biased magnitude.
\<close>

theorem pcmu_round_trip:
  "pcmu_encode (4 * pcmu_decode c) = (if c = 0x7f then 0xff else c) \<and>
   (\<bar>x\<bar> \<le> 32635 \<longrightarrow> 32 * \<bar>4 * pcmu_decode (pcmu_encode x) - x\<bar> \<le> \<bar>x\<bar> + 132)"
proof -
  have "pcmu_encode (4 * pcmu_decode 0x7f) = 0xff" by code_simp
  then show ?thesis using decode_encode [of c] encode_error [of x] by auto
qed

theorem pcmu_round_trip_witness: "32 * \<bar>4 * pcmu_decode (pcmu_encode (- 1000)) + 1000\<bar> \<le> 1132"
  using pcmu_round_trip [of 0 "- 1000"] by simp

end
