(* ===== verification/P3.thy ===== *)
theory P3
  imports Companding CText
begin

text \<open>
  The phase 3 demodulator of the sibling checkout (\<^verbatim>\<open>p3_demod.h\<close>, not part of this repository) as a
  record of functions, the data it hands over, and the two small clients of it: the stream event
  bridge \<^verbatim>\<open>v90_stream_event_bridge.c\<close> and the capture classifier \<^verbatim>\<open>p3_segment_probe.c\<close>.  The
  floating-point numbers are only passed on: their type is a parameter \<open>'r\<close>.
\<close>

section \<open>What the demodulator hands over\<close>

datatype p3_signal = P3_SIGNAL_UNKNOWN | P3_SIGNAL_SILENCE | P3_SIGNAL_S | P3_SIGNAL_S_BAR | P3_SIGNAL_PP
  | P3_SIGNAL_TRN | P3_SIGNAL_J | P3_SIGNAL_J_PRIME | P3_SIGNAL_RU | P3_SIGNAL_UR | P3_SIGNAL_OTHER int

record 'r p3_symbol =
  sample_index :: int
  dibit :: int
  bit0 :: int
  bit1 :: int
  re :: 'r
  im :: 'r
  magnitude :: 'r

record 'r p3_segment =
  seg_type :: p3_signal
  start_symbol :: int
  seg_length :: int
  start_sample :: int
  end_sample :: int
  confidence :: 'r

text \<open>The arrays of a result with the number of entries in use.\<close>

record 'r p3_result =
  symbols :: "'r p3_symbol list"
  symbol_count :: int
  segments :: "'r p3_segment list"
  segment_count :: int
  locked :: int
  estimates :: "'r list"

text \<open>\<open>'d\<close> is the state of a demodulator.\<close>

record ('d, 'r) p3_demod =
  p3_demod_init :: "int \<Rightarrow> int \<Rightarrow> int \<Rightarrow> 'd"
  p3_demod_reset :: "'d \<Rightarrow> 'd"
  p3_demod_process :: "int list \<Rightarrow> int \<Rightarrow> 'd \<Rightarrow> 'r p3_result \<Rightarrow> 'd \<times> 'r p3_result"
  p3_segment_symbols :: "'r p3_result \<Rightarrow> int \<times> 'r p3_result"
  p3_result_alloc :: "int \<Rightarrow> int \<Rightarrow> 'r p3_result option"
  p3_demod_run :: "int list \<Rightarrow> int \<Rightarrow> int \<Rightarrow> int \<Rightarrow> int \<Rightarrow> 'r p3_result option"
  P3_BAUD_3200 :: int
  P3_BAUD_COUNT :: int
  P3_CARRIER_LOW :: int
  P3_CARRIER_HIGH :: int

section \<open>The stream event bridge\<close>

record ('d, 'r) stream_bridge =
  stream_demod :: 'd
  stream_result :: "'r p3_result"
  emitted_symbols :: int

definition v90_stream_bridge_create ::
  "('d, 'r) p3_demod \<Rightarrow> bool \<Rightarrow> int \<Rightarrow> int \<Rightarrow> int \<Rightarrow> ('d, 'r) stream_bridge option" where
  "v90_stream_bridge_create P calloc_ok baud_code carrier sample_rate =
     (if \<not> calloc_ok then None
      else case p3_result_alloc P 32768 4096 of
             None \<Rightarrow> None
           | Some r \<Rightarrow> Some \<lparr>stream_demod = p3_demod_init P baud_code carrier sample_rate,
                            stream_result = r, emitted_symbols = 0\<rparr>)"

definition v90_stream_bridge_reset :: "('d, 'r) p3_demod \<Rightarrow> ('d, 'r) stream_bridge \<Rightarrow> ('d, 'r) stream_bridge" where
  "v90_stream_bridge_reset P b =
     b\<lparr>stream_demod := p3_demod_reset P (stream_demod b),
       stream_result := (stream_result b)\<lparr>symbol_count := 0, segment_count := 0\<rparr>, emitted_symbols := 0\<rparr>"

text \<open>
  The copies: a pointer that may be null is an option.  The loop copies entry by entry every field of
  the symbol; the entries lie in the array when the count does.
\<close>

definition v90_stream_bridge_process ::
  "('d, 'r) p3_demod \<Rightarrow> ('d, 'r) stream_bridge option \<Rightarrow> int list option \<Rightarrow> int \<Rightarrow> bool \<Rightarrow> int
     \<Rightarrow> 'r p3_symbol list \<times> ('d, 'r) stream_bridge option" where
  "v90_stream_bridge_process P bridge samples sample_offset out out_capacity =
     (case (bridge, samples) of
        (Some b, Some s) \<Rightarrow>
          if \<not> out \<or> out_capacity \<le> 0 then ([], bridge)
          else
            (let before = symbol_count (stream_result b);
                 (d, r) = p3_demod_process P s sample_offset (stream_demod b) (stream_result b);
                 count = min (symbol_count r - before) out_capacity
             in (map (\<lambda>i. symbols r ! nat (before + i)) [0..count - 1],
                 Some (b\<lparr>stream_demod := d, stream_result := r, emitted_symbols := emitted_symbols b + count\<rparr>)))
      | _ \<Rightarrow> ([], bridge))"

definition v90_stream_bridge_segments ::
  "('d, 'r) p3_demod \<Rightarrow> ('d, 'r) stream_bridge option \<Rightarrow> bool \<Rightarrow> int
     \<Rightarrow> 'r p3_segment list \<times> ('d, 'r) stream_bridge option" where
  "v90_stream_bridge_segments P bridge out out_capacity =
     (case bridge of
        Some b \<Rightarrow>
          if \<not> out \<or> out_capacity \<le> 0 then ([], bridge)
          else
            (let (n, r) = p3_segment_symbols P (stream_result b);
                 count = min n out_capacity
             in (map (\<lambda>i. segments r ! nat i) [0..count - 1], Some (b\<lparr>stream_result := r\<rparr>)))
      | None \<Rightarrow> ([], bridge))"

text \<open>A client that hands over blocks of samples, each with its offset and the room it has.\<close>

fun stream_run ::
  "('d, 'r) p3_demod \<Rightarrow> (int list \<times> int \<times> int) list \<Rightarrow> ('d, 'r) stream_bridge
     \<Rightarrow> 'r p3_symbol list \<times> ('d, 'r) stream_bridge" where
  "stream_run P [] b = ([], b)"
| "stream_run P ((s, at, room) # blocks) b =
     (let (out, b1) = v90_stream_bridge_process P (Some b) (Some s) at True room;
          (rest, b2) = stream_run P blocks (the b1)
      in (out @ rest, b2))"

section \<open>The capture classifier\<close>

fun signal_name :: "p3_signal \<Rightarrow> string" where
  "signal_name P3_SIGNAL_S = ''S''"
| "signal_name P3_SIGNAL_S_BAR = ''S-bar''"
| "signal_name P3_SIGNAL_PP = ''PP''"
| "signal_name P3_SIGNAL_TRN = ''TRN''"
| "signal_name P3_SIGNAL_J = ''J''"
| "signal_name P3_SIGNAL_J_PRIME = ''J-prime''"
| "signal_name P3_SIGNAL_RU = ''Ru''"
| "signal_name P3_SIGNAL_UR = ''uR''"
| "signal_name P3_SIGNAL_SILENCE = ''silence''"
| "signal_name _ = ''unknown''"

text \<open>
  The sample window of the arguments, if it is valid: \<^verbatim>\<open>to\<close> is cut to the size of the file.
  The \<^verbatim>\<open>long\<close> products stay below $2^{63}$ for fewer than $10^{15}$ seconds.
\<close>

definition probe_window :: "string list \<Rightarrow> int \<Rightarrow> (int \<times> int) option" where
  "probe_window argv fsize =
     (let from = (if length argv \<ge> 3 then fst (strtol 10 (argv ! 2)) * 8000 else 0);
          to = (if length argv = 4 then fst (strtol 10 (argv ! 3)) * 8000 else - 1);
          to = (if to < 0 \<or> to > fsize then fsize else to)
      in if from < 0 \<or> from \<ge> to then None else Some (from, to))"

definition segment_line :: "('r \<Rightarrow> string) \<Rightarrow> nat \<Rightarrow> 'r p3_segment \<Rightarrow> string" where
  "segment_line f3 i s =
     (if seg_type s = P3_SIGNAL_UNKNOWN \<or> seg_type s = P3_SIGNAL_SILENCE then []
      else ''segment '' @ decimal (int i) @ '' type='' @ signal_name (seg_type s) @ '' start='' @ decimal (start_sample s)
        @ '' length='' @ decimal (seg_length s) @ '' confidence='' @ f3 (confidence s) @ [CHR 0x0A])"

text \<open>
  \<^verbatim>\<open>main\<close>: exit status and standard output.  \<open>file\<close> reads a file, \<open>mem\<close> says whether the two
  allocations succeed, \<open>f1\<close>, \<open>f2\<close>, \<open>f3\<close> print a float with one, two and three decimals.
\<close>

definition p3_segment_probe_main ::
  "('d, 'r) p3_demod \<Rightarrow> (nat \<Rightarrow> 'r \<Rightarrow> string) \<Rightarrow> (string \<Rightarrow> u8 list option) \<Rightarrow> bool \<Rightarrow> string list \<Rightarrow> nat \<times> string" where
  "p3_segment_probe_main P fl file mem argv =
     (if length argv < 2 \<or> length argv > 4 then (2, [])
      else case file (argv ! 1) of
        None \<Rightarrow> (2, [])
      | Some content \<Rightarrow>
          (case probe_window argv (int (length content)) of
             None \<Rightarrow> (2, [])
           | Some (from, to) \<Rightarrow>
               if \<not> mem then (2, [])
               else
                 (let samples = map pcmu_decode (take (nat (to - from)) (drop (nat from) content)) in
                  case p3_demod_run P samples from (P3_BAUD_3200 P) (P3_CARRIER_LOW P) 8000 of
                    None \<Rightarrow> (1, [])
                  | Some r \<Rightarrow>
                      (0, ''symbols='' @ decimal (symbol_count r) @ '' segments='' @ decimal (segment_count r)
                          @ '' locked='' @ decimal (locked r) @ '' snr='' @ fl 2 (estimates r ! 0)
                          @ '' carrier='' @ fl 1 (estimates r ! 1) @ '' baud='' @ fl 1 (estimates r ! 2) @ [CHR 0x0A]
                          @ concat (map (\<lambda>i. segment_line (fl 3) i (segments r ! i)) [0..<nat (segment_count r)])))))"

section \<open>Delivery\<close>

text \<open>
  What the bridge relies on: a call of the demodulator leaves the symbols it found before in their
  places and does not lower their number.
\<close>

definition extends :: "'r p3_result \<Rightarrow> 'r p3_result \<Rightarrow> bool" where
  "extends r r' \<longleftrightarrow> symbol_count r \<le> symbol_count r' \<and>
     (\<forall>i. 0 \<le> i \<and> i < symbol_count r \<longrightarrow> symbols r' ! nat i = symbols r ! nat i)"

definition demod_appends :: "('d, 'r) p3_demod \<Rightarrow> bool" where
  "demod_appends P \<longleftrightarrow> (\<forall>s at d r. extends r (snd (p3_demod_process P s at d r)))"

definition found_symbols :: "'r p3_result \<Rightarrow> int \<Rightarrow> 'r p3_symbol list" where
  "found_symbols r from = map (\<lambda>i. symbols r ! nat i) [from..symbol_count r - 1]"

text \<open>The room of every block is enough for the symbols found in it.\<close>

fun room_enough :: "('d, 'r) p3_demod \<Rightarrow> (int list \<times> int \<times> int) list \<Rightarrow> ('d, 'r) stream_bridge \<Rightarrow> bool" where
  "room_enough P [] b = True"
| "room_enough P ((s, at, room) # blocks) b =
     (let r = snd (p3_demod_process P s at (stream_demod b) (stream_result b))
      in 0 < room \<and> symbol_count r - symbol_count (stream_result b) \<le> room \<and>
         room_enough P blocks (the (snd (v90_stream_bridge_process P (Some b) (Some s) at True room))))"

lemma upto_shift: "map (\<lambda>i. f (a + i)) [0..n - 1] = map f [a..a + n - 1]" for a n :: int
proof -
  have "map ((+) a) [0..n - 1] = [a..a + n - 1]"
  proof (induction "nat n" arbitrary: n)
    case 0
    then show ?case by simp
  next
    case (Suc k)
    then have "map ((+) a) [0..(n - 1) - 1] = [a..a + (n - 1) - 1]" by (intro Suc.hyps(1)) simp
    then show ?case using Suc.hyps(2) by (simp add: upto_rec2 [of 0 "n - 1"] upto_rec2 [of a "a + n - 1"] algebra_simps)
  qed
  then show ?thesis by (metis (no_types, lifting) comp_def map_map map_eq_conv)
qed

lemma upto_append: "a \<le> b \<Longrightarrow> b - 1 \<le> c \<Longrightarrow> [a..b - 1] @ [b..c] = [a..c]" for a b c :: int
  using upto_split2 [of a "b - 1" c] by (cases "a = b") simp_all

lemma extends_refl: "extends r r"
  by (simp add: extends_def)

lemma extends_trans: "extends r s \<Longrightarrow> extends s t \<Longrightarrow> extends r t"
  by (simp add: extends_def)

lemma extends_found:
  assumes "extends r r'" "0 \<le> from" "from \<le> symbol_count r"
  shows "found_symbols r from @ found_symbols r' (symbol_count r) = found_symbols r' from"
proof -
  have "found_symbols r from = map (\<lambda>i. symbols r' ! nat i) [from..symbol_count r - 1]"
    using assms(1,2) by (simp add: found_symbols_def extends_def)
  moreover have "[from..symbol_count r - 1] @ [symbol_count r..symbol_count r' - 1] = [from..symbol_count r' - 1]"
    using upto_append [of "from" "symbol_count r" "symbol_count r' - 1"] assms by (simp add: extends_def)
  ultimately show ?thesis by (metis found_symbols_def map_append)
qed

lemma process_extends:
  assumes "demod_appends P"
  shows "extends (stream_result b) (stream_result (the (snd (v90_stream_bridge_process P (Some b) (Some s) at out room))))"
  using assms [unfolded demod_appends_def, rule_format, of "stream_result b" s at "stream_demod b"]
  by (auto simp: v90_stream_bridge_process_def Let_def extends_refl split: prod.split)

lemma run_extends:
  "\<lbrakk>demod_appends P; stream_run P blocks b = (out, b')\<rbrakk> \<Longrightarrow> extends (stream_result b) (stream_result b')"
proof (induction P blocks b arbitrary: out rule: stream_run.induct)
  case (2 P s at room blocks b)
  obtain o1 b1 where "v90_stream_bridge_process P (Some b) (Some s) at True room = (o1, b1)" by fastforce
  then show ?case using 2 process_extends [OF 2(2), of b s at True room]
    by (auto split: prod.splits intro: extends_trans)
qed (simp add: extends_refl)

lemma process_found:
  assumes "0 < room" "p3_demod_process P s at (stream_demod b) (stream_result b) = (d, r)"
    "symbol_count r - symbol_count (stream_result b) \<le> room"
  shows "v90_stream_bridge_process P (Some b) (Some s) at True room =
    (found_symbols r (symbol_count (stream_result b)),
     Some (b\<lparr>stream_demod := d, stream_result := r,
       emitted_symbols := emitted_symbols b + (symbol_count r - symbol_count (stream_result b))\<rparr>))"
  using assms upto_shift [of "\<lambda>i. symbols r ! nat i" "symbol_count (stream_result b)"
    "symbol_count r - symbol_count (stream_result b)"]
  by (simp add: v90_stream_bridge_process_def found_symbols_def Let_def)

text \<open>
  C39. The stream bridge hands over every symbol once.  When the demodulator only appends and the
  caller's room is enough for each block, the symbols of all the calls together are the symbols of
  the result from the first call on, in order, and \<^verbatim>\<open>emitted_symbols\<close> has grown by their number.
\<close>

theorem stream_delivers_all:
  assumes "demod_appends P" "0 \<le> symbol_count (stream_result b)" "room_enough P blocks b"
    "stream_run P blocks b = (out, b')"
  shows "out = found_symbols (stream_result b') (symbol_count (stream_result b)) \<and>
    emitted_symbols b' = emitted_symbols b + int (length out)"
  using assms(2-4)
proof (induction blocks arbitrary: b out)
  case Nil
  then show ?case by (simp add: found_symbols_def)
next
  case (Cons blk blocks)
  obtain s at room where blk: "blk = (s, at, room)" by (cases blk)
  obtain d r where p: "p3_demod_process P s at (stream_demod b) (stream_result b) = (d, r)" by fastforce
  let ?n = "symbol_count r - symbol_count (stream_result b)"
  let ?b = "b\<lparr>stream_demod := d, stream_result := r, emitted_symbols := emitted_symbols b + ?n\<rparr>"
  have q: "v90_stream_bridge_process P (Some b) (Some s) at True room =
      (found_symbols r (symbol_count (stream_result b)), Some ?b)"
    using process_found [OF _ p] Cons.prems(2) p by (simp add: blk)
  obtain rest where rest: "stream_run P blocks ?b = (rest, b')" "out = found_symbols r (symbol_count (stream_result b)) @ rest"
    using Cons.prems(3) q by (auto simp: blk split: prod.splits)
  have n: "0 \<le> ?n" using assms(1) p by (metis demod_appends_def diff_ge_0_iff_ge extends_def snd_conv)
  have "rest = found_symbols (stream_result b') (symbol_count r) \<and> emitted_symbols b' = emitted_symbols ?b + int (length rest)"
    using Cons.IH [OF _ _ rest(1)] Cons.prems(1,2) q n by (simp add: blk)
  moreover have "found_symbols r (symbol_count (stream_result b)) @ found_symbols (stream_result b') (symbol_count r) =
      found_symbols (stream_result b') (symbol_count (stream_result b))"
    using extends_found run_extends [OF assms(1) rest(1)] Cons.prems(1) n by simp
  moreover have "int (length (found_symbols r (symbol_count (stream_result b)))) = ?n"
    using n by (simp add: found_symbols_def)
  ultimately show ?case using rest by (metis (no_types, lifting) add.assoc length_append of_nat_add stream_bridge.select_convs(3) stream_bridge.surjective stream_bridge.update_convs(3))
qed

text \<open>A demodulator that finds one symbol per sample.\<close>

definition sample_demod :: "(unit, int) p3_demod" where
  "sample_demod = \<lparr>p3_demod_init = (\<lambda>_ _ _. ()), p3_demod_reset = (\<lambda>_. ()),
     p3_demod_process = (\<lambda>s at _ r. ((),
       if symbol_count r \<noteq> int (length (symbols r)) then r
       else r\<lparr>symbols := symbols r @ map (\<lambda>x. \<lparr>sample_index = at, dibit = 0, bit0 = 0, bit1 = 0, re = x, im = 0, magnitude = x\<rparr>) s,
              symbol_count := symbol_count r + int (length s)\<rparr>)),
     p3_segment_symbols = (\<lambda>r. (0, r)),
     p3_result_alloc = (\<lambda>_ _. Some \<lparr>symbols = [], symbol_count = 0, segments = [], segment_count = 0, locked = 0, estimates = [0, 0, 0]\<rparr>),
     p3_demod_run = (\<lambda>_ _ _ _ _. None), P3_BAUD_3200 = 4, P3_BAUD_COUNT = 6, P3_CARRIER_LOW = 0, P3_CARRIER_HIGH = 1\<rparr>"

lemma sample_demod_appends: "demod_appends sample_demod"
  by (auto simp: demod_appends_def sample_demod_def extends_def nth_append nat_less_iff)

theorem stream_delivers_all_witness:
  "case v90_stream_bridge_create sample_demod True 4 0 8000 of None \<Rightarrow> False
   | Some b \<Rightarrow> (\<exists>b'. stream_run sample_demod [([5, 6], 0, 2), ([7], 2, 8)] b =
       (found_symbols (stream_result b') 0, b') \<and> emitted_symbols b' = 3)"
proof -
  let ?b = "\<lparr>stream_demod = (), stream_result = \<lparr>symbols = [], symbol_count = 0, segments = [], segment_count = 0, locked = 0,
    estimates = [0, 0, 0]\<rparr>, emitted_symbols = 0\<rparr> :: (unit, int) stream_bridge"
  have c: "v90_stream_bridge_create sample_demod True 4 0 8000 = Some ?b"
    by (simp add: v90_stream_bridge_create_def sample_demod_def)
  obtain out b' where r: "stream_run sample_demod [([5, 6], 0, 2), ([7], 2, 8)] ?b = (out, b')" by fastforce
  have "room_enough sample_demod [([5, 6], 0, 2), ([7], 2, 8)] ?b"
    by (simp add: sample_demod_def v90_stream_bridge_process_def Let_def)
  moreover have "length out = 3"
    using r by (auto simp: sample_demod_def v90_stream_bridge_process_def Let_def)
  ultimately show ?thesis using stream_delivers_all [OF sample_demod_appends _ _ r] r c by simp
qed

text \<open>
  A block with more symbols than room loses them: the next call starts at the count of the result,
  not at what was handed over.
\<close>

lemma stream_overflow_lost:
  assumes "p3_demod_process P s at (stream_demod b) (stream_result b) = (d, r)" "0 < room"
    "room < symbol_count r - symbol_count (stream_result b)"
  shows "\<exists>out b'. v90_stream_bridge_process P (Some b) (Some s) at True room = (out, Some b') \<and>
    int (length out) = room \<and> symbol_count (stream_result b') = symbol_count r \<and>
    emitted_symbols b' - emitted_symbols b < symbol_count r - symbol_count (stream_result b)"
  using assms by (simp add: v90_stream_bridge_process_def Let_def)

end
