(* ===== verification/Bridge.thy ===== *)
theory Bridge
  imports Bitqueue P3
begin

text \<open>
  The V.90 digital phase 3 event bridge, \<^verbatim>\<open>tools/v90_digital_phase3_event_bridge.c\<close>: the state
  \<^verbatim>\<open>bridge_t\<close>, the callbacks the modem library makes into it and the calls it makes into the
  library.  The library (\<^verbatim>\<open>v90.h\<close>, \<^verbatim>\<open>v34\<close>, \<^verbatim>\<open>v90_cp_rx.h\<close>, \<^verbatim>\<open>v90_cp_live.h\<close>) is not part of this
  repository: it is a record \<open>modem\<close> of functions on an abstract state \<open>'m\<close> (the \<^verbatim>\<open>v90_state_t\<close> with
  its \<^verbatim>\<open>v34_state_t\<close>, the CP receiver and the demodulator); \<open>'f\<close> is the type of its CP frames.  Messages
  on the error stream are left out.
\<close>

section \<open>The modem library\<close>

datatype v90_rx_event = V90_RX_EVENT_NONE | V90_RX_EVENT_S | V90_RX_EVENT_J | V90_RX_EVENT_CP_VALID

record 'f cp_diag =
  valid :: bool
  frame :: 'f

record live_meta =
  frame_sample :: int
  last_sample :: int

text \<open>
  A call that may call back is a tree: it returns, or it hands its state to a callback of the bridge
  and goes on with what the callback left.  The calls the bridge makes inside a callback are plain
  functions of the state.
\<close>

datatype ('m, 'a) call =
    Ret 'a 'm
  | Get_bit 'm "int \<Rightarrow> 'm \<Rightarrow> ('m, 'a) call"
  | Put_phase4_bit int 'm "'m \<Rightarrow> ('m, 'a) call"
  | Put_data_bit int 'm "'m \<Rightarrow> ('m, 'a) call"

datatype ('m, 'f) cp_call =
    Cp_ret 'm
  | Cp_frame "'f cp_diag" 'm "'m \<Rightarrow> ('m, 'f) cp_call"

record ('d, 'm, 'f, 'r) modem =
  p3 :: "('d, 'r) p3_demod"
  v34_begin_rx_data :: "'m \<Rightarrow> int \<times> 'm"
  v34_rx :: "int list \<Rightarrow> 'm \<Rightarrow> ('m, unit) call"
  v34_reject_v90_phase4_hypothesis :: "'m \<Rightarrow> 'm"
  v34_v90_upstream_rx_acquired :: "'m \<Rightarrow> bool"
  v34_v90_prepare_upstream_data :: "int \<Rightarrow> bool \<Rightarrow> int \<Rightarrow> 'm \<Rightarrow> int \<times> 'm"
  v34_force_v90_phase4_cp_rx :: "'m \<Rightarrow> 'm"
  v90_cp_rx_init :: "'m \<Rightarrow> 'm"
  v90_cp_rx_put_bit :: "int \<Rightarrow> 'm \<Rightarrow> ('m, 'f) cp_call"
  rejected_frames :: "'m \<Rightarrow> u32"
  acknowledge :: "'f \<Rightarrow> bool"
  zero_frame :: 'f
  v90_cp_live_recover :: "int list \<Rightarrow> int \<Rightarrow> int \<Rightarrow> bool \<Rightarrow> (('f cp_diag) \<times> live_meta) option"
  v90_init :: "'m option"
  v90_load_default_dil :: "'m \<Rightarrow> 'm option"
  v90_start_phase3 :: "int \<Rightarrow> 'm \<Rightarrow> 'm"
  v90_set_phase4_cp :: "'f \<Rightarrow> 'm \<Rightarrow> bool \<times> 'm"
  v90_handle_rx_event :: "v90_rx_event \<Rightarrow> 'm \<Rightarrow> bool \<times> 'm"
  v90_get_tx_phase :: "'m \<Rightarrow> int"
  v90_training_complete :: "'m \<Rightarrow> bool"
  v90_phase3_tx_codewords :: "'m \<Rightarrow> ('m, int \<times> u8) call"
  v90_data_input_bytes_needed :: "'m \<Rightarrow> int"
  v90_tx_data_frame_codewords :: "u8 list \<Rightarrow> int \<Rightarrow> 'm \<Rightarrow> ('m, int \<times> u8 list) call"
  V90_TX_WAIT_JA :: int
  V90_TX_JD :: int
  V90_TX_DIL :: int
  V90_TX_RI :: int
  V90_TX_DATA :: int

section \<open>The state\<close>

definition FRAME :: nat where "FRAME = 160"
definition DATA_FRAME :: nat where "DATA_FRAME = 6"
definition MAX_REPORTED_EVENTS :: nat where "MAX_REPORTED_EVENTS = 128"
definition RESULT_TAIL_SYMBOLS :: int where "RESULT_TAIL_SYMBOLS = 2048"
definition SEGMENT_SCAN_FRAMES :: int where "SEGMENT_SCAN_FRAMES = 4"
definition CP_LIVE_MAX_SAMPLES :: int where "CP_LIVE_MAX_SAMPLES = 60 * 8000 + 160"
definition CP_LIVE_FIRST_TRY_DELAY :: int where "CP_LIVE_FIRST_TRY_DELAY = 800"
definition CP_LIVE_SEARCH_TAIL :: int where "CP_LIVE_SEARCH_TAIL = 2000"
definition CP_LIVE_RETRY_SAMPLES :: int where "CP_LIVE_RETRY_SAMPLES = 320"
definition CP_LIVE_MAX_ATTEMPTS :: int where "CP_LIVE_MAX_ATTEMPTS = 1024"

lemmas bridge_consts = FRAME_def DATA_FRAME_def MAX_REPORTED_EVENTS_def RESULT_TAIL_SYMBOLS_def SEGMENT_SCAN_FRAMES_def
  CP_LIVE_MAX_SAMPLES_def CP_LIVE_FIRST_TRY_DELAY_def CP_LIVE_SEARCH_TAIL_def CP_LIVE_RETRY_SAMPLES_def
  CP_LIVE_MAX_ATTEMPTS_def

record reported_event =
  ev_start :: int
  ev_type :: p3_signal
  last_phase :: int
  accepted :: bool

text \<open>
  What the mutex guards, with the worker thread: it is blocked on the condition variable, about to
  test its condition, recovering a frame from the job it took (its local variables) or gone.  A
  snapshot is \<open>None\<close> where the pointer is null.
\<close>

record live_job =
  job_samples :: "int list option"
  job_count :: int
  job_offset :: int
  job_hint :: int
  job_expected :: bool

datatype worker = Testing | Blocked | Recovering live_job | Exited

record 'f mailbox =
  live_stop :: bool
  live_job :: bool
  live_worker_running :: bool
  live_job_count :: int
  live_job_offset :: int
  live_job_hint :: int
  live_job_expected :: bool
  live_job_samples :: "int list option"
  live_result_ready :: bool
  live_result_found :: bool
  live_result_expected :: bool
  live_diag :: "'f cp_diag"
  live_meta :: live_meta
  live_thread :: worker

record ('d, 'm, 'f, 'r) bridge =
  demod :: 'd
  result :: "'r p3_result"
  v90 :: 'm
  sample_offset :: int
  event_arm_sample :: int
  reported :: "reported_event list"
  segment_scan_frames :: int
  live_samples :: "nat \<Rightarrow> int"
  live_sample_count :: int
  live_phase4_hint :: int
  live_next_try :: int
  live_attempts :: int
  live_cp_accepted :: bool
  live_data_cp_accepted :: bool
  live_cp_done :: bool
  live_enabled :: bool
  connected_reported :: bool
  connected_sample :: int
  data_frame :: "u8 list"
  data_frame_pos :: nat
  last_codeword :: u8
  data_frames :: int
  tx_queue :: bit_ring
  tx_consumed_frame :: u32
  rx_queue :: bit_ring
  upstream_rx_started :: bool
  upstream_e_ones :: int
  upstream_e_complete :: bool
  upstream_e_post_bits :: int
  upstream_look_for_e :: bool
  upstream_prepared :: bool
  upstream_replayed_current_frame :: bool
  upstream_audio_delay :: int
  upstream_prepare_at :: int
  upstream_begin_at :: int
  upstream_begin_pending :: bool
  baud_code :: int
  high_carrier :: bool
  upstream_bps :: int
  live_sync_initialized :: bool
  live :: "'f mailbox"

section \<open>Callbacks\<close>

definition bridge_begin_upstream_data ::
  "('d, 'm, 'f, 'r) modem \<Rightarrow> ('d, 'm, 'f, 'r) bridge \<Rightarrow> int \<times> ('d, 'm, 'f, 'r) bridge" where
  "bridge_begin_upstream_data M b = (let (r, m) = v34_begin_rx_data M (v90 b) in (r, b\<lparr>v90 := m\<rparr>))"

definition bridge_prepare ::
  "('d, 'm, 'f, 'r) modem \<Rightarrow> ('d, 'm, 'f, 'r) bridge \<Rightarrow> int \<times> ('d, 'm, 'f, 'r) bridge" where
  "bridge_prepare M b =
     (let (r, m) = v34_v90_prepare_upstream_data M (baud_code b) (high_carrier b) (upstream_bps b) (v90 b)
      in (r, b\<lparr>v90 := m\<rparr>))"

definition bridge_get_bit :: "('d, 'm, 'f, 'r) bridge \<Rightarrow> int \<times> ('d, 'm, 'f, 'r) bridge" where
  "bridge_get_bit b =
     (let (v, q) = ring_get (tx_queue b)
      in (uint v, b\<lparr>tx_queue := q, tx_consumed_frame := tx_consumed_frame b + 1\<rparr>))"

definition bridge_cp_frame ::
  "('d, 'm, 'f, 'r) modem \<Rightarrow> 'f cp_diag \<Rightarrow> ('d, 'm, 'f, 'r) bridge \<Rightarrow> ('d, 'm, 'f, 'r) bridge" where
  "bridge_cp_frame M diag b =
     (if \<not> valid diag \<or> (live_enabled b \<and> \<not> acknowledge M (frame diag)) then b
      else
        (let (ok, m) = v90_set_phase4_cp M (frame diag) (v90 b); b = b\<lparr>v90 := m\<rparr> in
         if \<not> ok then b
         else
           (let b = b\<lparr>upstream_look_for_e := True\<rparr>;
                b = (if upstream_prepared b then b
                     else let (r, b) = bridge_prepare M b in if r = 0 then b\<lparr>upstream_prepared := True\<rparr> else b);
                (_, m) = v90_handle_rx_event M V90_RX_EVENT_CP_VALID (v90 b)
            in b\<lparr>v90 := m\<rparr>)))"

primrec cp_interact ::
  "('d, 'm, 'f, 'r) modem \<Rightarrow> ('m, 'f) cp_call \<Rightarrow> ('d, 'm, 'f, 'r) bridge \<Rightarrow> ('d, 'm, 'f, 'r) bridge" where
  "cp_interact M (Cp_ret m) b = b\<lparr>v90 := m\<rparr>"
| "cp_interact M (Cp_frame diag m k) b =
     (let b = bridge_cp_frame M diag (b\<lparr>v90 := m\<rparr>) in cp_interact M (k (v90 b)) b)"

definition upstream_e_step :: "int \<Rightarrow> ('d, 'm, 'f, 'r) bridge \<Rightarrow> ('d, 'm, 'f, 'r) bridge" where
  "upstream_e_step v b =
     (if \<not> upstream_e_complete b
      then let ones = (if v \<noteq> 0 then upstream_e_ones b + 1 else 0)
           in b\<lparr>upstream_e_ones := ones, upstream_e_complete := ones \<ge> 20\<rparr>
      else b\<lparr>upstream_e_post_bits := upstream_e_post_bits b + 1\<rparr>)"

definition cp_control :: "('d, 'm, 'f, 'r) modem \<Rightarrow> int \<Rightarrow> ('d, 'm, 'f, 'r) bridge \<Rightarrow> ('d, 'm, 'f, 'r) bridge" where
  "cp_control M v b =
     (let rejected_before = rejected_frames M (v90 b);
          b = cp_interact M (v90_cp_rx_put_bit M v (v90 b)) b
      in if rejected_frames M (v90 b) \<noteq> rejected_before
         then b\<lparr>v90 := v34_reject_v90_phase4_hypothesis M (v90 b)\<rparr> else b)"

definition bridge_put_bit :: "('d, 'm, 'f, 'r) modem \<Rightarrow> int \<Rightarrow> ('d, 'm, 'f, 'r) bridge \<Rightarrow> ('d, 'm, 'f, 'r) bridge" where
  "bridge_put_bit M v b =
     (if v \<noteq> 0 \<and> v \<noteq> 1 then b
      else
        (let b = (if upstream_rx_started b then b else cp_control M v b) in
         if upstream_rx_started b \<or> \<not> upstream_look_for_e b then b
         else
           (let b = upstream_e_step v b in
            if upstream_e_complete b \<and> upstream_e_post_bits b \<ge> 2 \<and> upstream_prepared b \<and> \<not> upstream_rx_started b
            then let (r, b) = bridge_begin_upstream_data M b in if r = 0 then b\<lparr>upstream_rx_started := True\<rparr> else b
            else b)))"

definition bridge_put_data_bit :: "('d, 'm, 'f, 'r) modem \<Rightarrow> int \<Rightarrow> ('d, 'm, 'f, 'r) bridge \<Rightarrow> ('d, 'm, 'f, 'r) bridge" where
  "bridge_put_data_bit M v b =
     (if \<not> v34_v90_upstream_rx_acquired M (v90 b) \<or> (v \<noteq> 0 \<and> v \<noteq> 1) \<or> count (rx_queue b) \<ge> DATA_QUEUE_BITS then b
      else b\<lparr>rx_queue := ring_put (of_int v AND 1) (rx_queue b)\<rparr>)"

text \<open>A call of the library with the callbacks that are registered with it.\<close>

primrec interact ::
  "('d, 'm, 'f, 'r) modem \<Rightarrow> ('m, 'a) call \<Rightarrow> ('d, 'm, 'f, 'r) bridge \<Rightarrow> 'a \<times> ('d, 'm, 'f, 'r) bridge" where
  "interact M (Ret x m) b = (x, b\<lparr>v90 := m\<rparr>)"
| "interact M (Get_bit m k) b =
     (let (v, b) = bridge_get_bit (b\<lparr>v90 := m\<rparr>) in interact M (k v (v90 b)) b)"
| "interact M (Put_phase4_bit v m k) b =
     (let b = bridge_put_bit M v (b\<lparr>v90 := m\<rparr>) in interact M (k (v90 b)) b)"
| "interact M (Put_data_bit v m k) b =
     (let b = bridge_put_data_bit M v (b\<lparr>v90 := m\<rparr>) in interact M (k (v90 b)) b)"

section \<open>The upstream receiver\<close>

definition v34_scale :: "int \<Rightarrow> int" where
  "v34_scale s = (let sample = s * 4 in if sample > 32767 then 32767 else if sample < - 32768 then - 32768 else sample)"

function bridge_v34_rx ::
  "('d, 'm, 'f, 'r) modem \<Rightarrow> int list \<Rightarrow> ('d, 'm, 'f, 'r) bridge \<Rightarrow> ('d, 'm, 'f, 'r) bridge" where
  "bridge_v34_rx M samples b =
     (if samples = [] then b
      else bridge_v34_rx M (drop FRAME samples) (snd (interact M (v34_rx M (map v34_scale (take FRAME samples)) (v90 b)) b)))"
  by pat_completeness auto
termination by (relation "measure (\<lambda>(_, s, _). length s)") (auto simp: FRAME_def)

declare bridge_v34_rx.simps [simp del]

lemma bridge_v34_rx_code [code]:
  "bridge_v34_rx M [] b = b"
  "bridge_v34_rx M (s # ss) b = bridge_v34_rx M (drop FRAME (s # ss))
     (snd (interact M (v34_rx M (map v34_scale (take FRAME (s # ss))) (v90 b)) b))"
  by (simp_all add: bridge_v34_rx.simps [of M "[]"] bridge_v34_rx.simps [of M "s # ss"])

definition bridge_feed_upstream ::
  "('d, 'm, 'f, 'r) modem \<Rightarrow> int list \<Rightarrow> int \<Rightarrow> ('d, 'm, 'f, 'r) bridge \<Rightarrow> ('d, 'm, 'f, 'r) bridge" where
  "bridge_feed_upstream M samples sample_start b =
     (let begin_at = upstream_begin_at b; cnt = int (length samples) in
      if cnt \<le> 0 then b
      else if upstream_begin_pending b \<and> \<not> upstream_rx_started b \<and> begin_at \<ge> 0 \<and> \<not> begin_at \<ge> sample_start + cnt
      then
        (let before = nat (if begin_at \<le> sample_start then 0 else begin_at - sample_start);
             b = (if before > 0 then bridge_v34_rx M (take before samples) b else b);
             (r, b) = bridge_begin_upstream_data M b;
             b = (if r = 0 then b\<lparr>upstream_rx_started := True, upstream_begin_pending := False\<rparr> else b)
         in bridge_v34_rx M (drop before samples) b)
      else bridge_v34_rx M samples b)"

section \<open>The CP worker\<close>

definition cond_signal :: "'f mailbox \<Rightarrow> 'f mailbox" where
  "cond_signal w = (if live_thread w = Blocked then w\<lparr>live_thread := Testing\<rparr> else w)"

definition worker_take :: "'f mailbox \<Rightarrow> 'f mailbox" where
  "worker_take w =
     w\<lparr>live_thread := Recovering \<lparr>job_samples = live_job_samples w, job_count = live_job_count w,
         job_offset = live_job_offset w, job_hint = live_job_hint w, job_expected = live_job_expected w\<rparr>,
       live_job_samples := None, live_job := False, live_worker_running := True\<rparr>"

definition worker_recover :: "('d, 'm, 'f, 'r) modem \<Rightarrow> int \<Rightarrow> live_job \<Rightarrow> ('f cp_diag \<times> live_meta) option" where
  "worker_recover M baud j =
     (case job_samples j of
        None \<Rightarrow> None
      | Some s \<Rightarrow>
          map_option (\<lambda>(diag, meta). (diag, meta\<lparr>frame_sample := frame_sample meta + job_offset j,
              last_sample := last_sample meta + job_offset j\<rparr>))
            (v90_cp_live_recover M (take (nat (job_count j)) s) (job_hint j) baud (job_expected j)))"

definition worker_finish :: "('d, 'm, 'f, 'r) modem \<Rightarrow> int \<Rightarrow> live_job \<Rightarrow> 'f mailbox \<Rightarrow> 'f mailbox" where
  "worker_finish M baud j w =
     (let w = w\<lparr>live_worker_running := False, live_thread := Testing\<rparr> in
      if live_stop w then w
      else
        (let w = w\<lparr>live_result_expected := job_expected j, live_result_ready := True\<rparr> in
         case worker_recover M baud j of
           None \<Rightarrow> w\<lparr>live_result_found := False\<rparr>
         | Some (diag, meta) \<Rightarrow> w\<lparr>live_result_found := True, live_diag := diag, live_meta := meta\<rparr>))"

text \<open>
  \<^verbatim>\<open>bridge_live_cp_worker\<close>: what the thread does while it holds the mutex, up to the point where
  it next gives it up.
\<close>

definition worker_step :: "('d, 'm, 'f, 'r) modem \<Rightarrow> int \<Rightarrow> 'f mailbox \<Rightarrow> 'f mailbox" where
  "worker_step M baud w =
     (case live_thread w of
        Testing \<Rightarrow> if live_stop w then w\<lparr>live_thread := Exited\<rparr>
                   else if live_job w then worker_take w
                   else w\<lparr>live_thread := Blocked\<rparr>
      | Blocked \<Rightarrow> w
      | Recovering j \<Rightarrow> worker_finish M baud j w
      | Exited \<Rightarrow> w)"

text \<open>A schedule of the worker: it runs on, or it wakes up without a signal.\<close>

datatype worker_event = Proceed | Spurious

definition worker_run :: "('d, 'm, 'f, 'r) modem \<Rightarrow> worker_event list \<Rightarrow> ('d, 'm, 'f, 'r) bridge \<Rightarrow> ('d, 'm, 'f, 'r) bridge" where
  "worker_run M es b =
     (if live_sync_initialized b
      then b\<lparr>live := fold (\<lambda>e. case e of Proceed \<Rightarrow> worker_step M (baud_code b) | Spurious \<Rightarrow> cond_signal) es (live b)\<rparr>
      else b)"

record startup =
  getenv :: "string \<Rightarrow> string option"
  calloc_ok :: bool
  mutex_init_ok :: bool
  cond_init_ok :: bool
  pthread_create_ok :: bool

definition bridge_live_cp_start :: "startup \<Rightarrow> ('d, 'm, 'f, 'r) bridge \<Rightarrow> ('d, 'm, 'f, 'r) bridge option" where
  "bridge_live_cp_start S b =
     (if \<not> live_enabled b then Some b
      else if mutex_init_ok S \<and> cond_init_ok S \<and> pthread_create_ok S
      then Some (b\<lparr>live_sync_initialized := True, live := (live b)\<lparr>live_thread := Testing\<rparr>\<rparr>)
      else None)"

text \<open>\<^verbatim>\<open>pthread_join\<close> waits for the worker: two of its steps are enough (\<open>stop_joins\<close> of theory \<open>Media\<close>).\<close>

definition worker_join :: "('d, 'm, 'f, 'r) modem \<Rightarrow> int \<Rightarrow> 'f mailbox \<Rightarrow> 'f mailbox" where
  "worker_join M baud w = worker_step M baud (worker_step M baud w)"

definition bridge_live_cp_stop :: "('d, 'm, 'f, 'r) modem \<Rightarrow> ('d, 'm, 'f, 'r) bridge \<Rightarrow> ('d, 'm, 'f, 'r) bridge" where
  "bridge_live_cp_stop M b =
     (if \<not> live_sync_initialized b then b
      else
        (let w = worker_join M (baud_code b) (cond_signal ((live b)\<lparr>live_stop := True\<rparr>))
         in b\<lparr>live := w\<lparr>live_job_samples := None\<rparr>, live_sync_initialized := False\<rparr>))"

definition live_slice :: "('d, 'm, 'f, 'r) bridge \<Rightarrow> int \<Rightarrow> int \<Rightarrow> int list" where
  "live_slice b at n = map (live_samples b) [nat at..<nat (at + n)]"

definition bridge_replay :: "('d, 'm, 'f, 'r) modem \<Rightarrow> int \<Rightarrow> ('d, 'm, 'f, 'r) bridge \<Rightarrow> ('d, 'm, 'f, 'r) bridge" where
  "bridge_replay M at b =
     (let replay_start = (if at < 0 then 0 else at);
          b = b\<lparr>upstream_e_ones := 0, upstream_e_complete := False, upstream_e_post_bits := 0\<rparr>;
          b = bridge_v34_rx M (live_slice b replay_start (live_sample_count b - replay_start)) b
      in b\<lparr>upstream_replayed_current_frame := True\<rparr>)"

text \<open>The part of \<^verbatim>\<open>bridge_live_cp_apply\<close> for a CP of data mode (\<^verbatim>\<open>expected\<close>).\<close>

definition live_data_cp ::
  "('d, 'm, 'f, 'r) modem \<Rightarrow> 'f cp_diag \<Rightarrow> live_meta \<Rightarrow> ('d, 'm, 'f, 'r) bridge \<Rightarrow> ('d, 'm, 'f, 'r) bridge" where
  "live_data_cp M diag meta b =
     (let b = b\<lparr>live_data_cp_accepted := True, upstream_look_for_e := True, upstream_begin_pending := True\<rparr>;
          (newly_prepared, b) =
            (if upstream_prepared b then (False, b)
             else let (r, b) = bridge_prepare M b in if r = 0 then (True, b\<lparr>upstream_prepared := True\<rparr>) else (False, b));
          b = (if \<not> upstream_prepared b \<and> upstream_prepare_at b < 0 then b\<lparr>upstream_prepare_at := last_sample meta\<rparr> else b);
          b = (if newly_prepared \<and> last_sample meta < live_sample_count b then bridge_replay M (last_sample meta) b else b)
      in if \<not> acknowledge M (frame diag) then b
         else
           (let b = b\<lparr>live_cp_done := True\<rparr> in
            if upstream_rx_started b then b
            else
              (let (r, b) = bridge_prepare M b in
               if r = 0 \<and> last_sample meta < live_sample_count b
               then bridge_replay M (last_sample meta) (b\<lparr>upstream_prepared := True, upstream_look_for_e := True\<rparr>)
               else b)))"

definition bridge_live_cp_apply :: "('d, 'm, 'f, 'r) modem \<Rightarrow> ('d, 'm, 'f, 'r) bridge \<Rightarrow> ('d, 'm, 'f, 'r) bridge" where
  "bridge_live_cp_apply M b =
     (if \<not> live_enabled b \<or> \<not> live_result_ready (live b) then b
      else
        (let w = live b; expected = live_result_expected w; diag = live_diag w; meta = live_meta w;
             b = b\<lparr>live := w\<lparr>live_result_ready := False\<rparr>\<rparr> in
         if \<not> live_result_found w \<or> (expected \<and> live_data_cp_accepted b \<and> \<not> acknowledge M (frame diag)) then b
         else
           (let (ok, m) = v90_set_phase4_cp M (frame diag) (v90 b); b = b\<lparr>v90 := m\<rparr> in
            if \<not> ok then b
            else
              (let b = b\<lparr>live_cp_accepted := True\<rparr>;
                   b = (if expected then live_data_cp M diag meta b else b);
                   (_, m) = v90_handle_rx_event M V90_RX_EVENT_CP_VALID (v90 b)
               in b\<lparr>v90 := m\<rparr>))))"

definition bridge_live_cp_try :: "bool \<Rightarrow> ('d, 'm, 'f, 'r) bridge \<Rightarrow> ('d, 'm, 'f, 'r) bridge" where
  "bridge_live_cp_try malloc_ok b =
     (let w = live b in
      if \<not> live_enabled b \<or> live_cp_done b \<or> live_phase4_hint b < 0 \<or> live_attempts b \<ge> CP_LIVE_MAX_ATTEMPTS
         \<or> live_sample_count b < live_next_try b
         \<or> live_job w \<or> live_worker_running w \<or> live_result_ready w \<or> \<not> malloc_ok then b
      else
        (let offset = live_sample_count b - CP_LIVE_SEARCH_TAIL;
             offset = (if offset < 0 then 0 else offset);
             cnt = live_sample_count b - offset
         in b\<lparr>live := cond_signal (w\<lparr>live_job_samples := Some (live_slice b offset cnt), live_job_count := cnt,
                live_job_offset := offset, live_job_hint := 1, live_job_expected := live_cp_accepted b, live_job := True\<rparr>),
              live_attempts := live_attempts b + 1,
              live_next_try := live_sample_count b + CP_LIVE_RETRY_SAMPLES\<rparr>))"

definition bridge_note_phase4 :: "('d, 'm, 'f, 'r) modem \<Rightarrow> ('d, 'm, 'f, 'r) bridge \<Rightarrow> ('d, 'm, 'f, 'r) bridge" where
  "bridge_note_phase4 M b =
     (if \<not> live_enabled b \<or> live_phase4_hint b \<ge> 0 then b
      else
        (let phase = v90_get_tx_phase M (v90 b) in
         if V90_TX_RI M \<le> phase \<and> phase \<le> V90_TX_DATA M
         then b\<lparr>live_phase4_hint := live_sample_count b, live_next_try := live_sample_count b + CP_LIVE_FIRST_TRY_DELAY\<rparr>
         else b))"

section \<open>Initialisation and reset\<close>

definition env_int :: "startup \<Rightarrow> string \<Rightarrow> int \<Rightarrow> int" where
  "env_int S name dflt = (case getenv S name of None \<Rightarrow> dflt | Some t \<Rightarrow> if t = [] then dflt else atoi t)"

definition zero_mailbox :: "('d, 'm, 'f, 'r) modem \<Rightarrow> 'f mailbox" where
  "zero_mailbox M =
     \<lparr>live_stop = False, live_job = False, live_worker_running = False, live_job_count = 0, live_job_offset = 0,
      live_job_hint = 0, live_job_expected = False, live_job_samples = None, live_result_ready = False,
      live_result_found = False, live_result_expected = False, live_diag = \<lparr>valid = False, frame = zero_frame M\<rparr>,
      live_meta = \<lparr>frame_sample = 0, last_sample = 0\<rparr>, live_thread = Exited\<rparr>"

text \<open>The settings of the environment, each with its range check.\<close>

definition setting_baud :: "('d, 'm, 'f, 'r) modem \<Rightarrow> startup \<Rightarrow> int" where
  "setting_baud M S =
     (let v = env_int S ''EICON_V90D_BRIDGE_BAUD_CODE'' (P3_BAUD_3200 (p3 M))
      in if v < 0 \<or> v \<ge> P3_BAUD_COUNT (p3 M) then P3_BAUD_3200 (p3 M) else v)"

definition setting_carrier :: "('d, 'm, 'f, 'r) modem \<Rightarrow> startup \<Rightarrow> int" where
  "setting_carrier M S =
     (let v = env_int S ''EICON_V90D_BRIDGE_CARRIER'' (P3_CARRIER_LOW (p3 M))
      in if v \<noteq> P3_CARRIER_LOW (p3 M) \<and> v \<noteq> P3_CARRIER_HIGH (p3 M) then P3_CARRIER_LOW (p3 M) else v)"

definition setting_arm :: "startup \<Rightarrow> int" where
  "setting_arm S = (let v = env_int S ''EICON_V90D_BRIDGE_EVENT_ARM_SAMPLES'' 12000 in if v < 0 then 0 else v)"

definition setting_bps :: "startup \<Rightarrow> int" where
  "setting_bps S =
     (let v = env_int S ''EICON_V90D_BRIDGE_UPSTREAM_BPS'' 31200
      in if v < 4800 \<or> v > 33600 \<or> v mod 2400 \<noteq> 0 then 31200 else v)"

definition setting_delay :: "startup \<Rightarrow> int" where
  "setting_delay S =
     (let v = env_int S ''EICON_V90D_BRIDGE_UPSTREAM_DELAY_SAMPLES'' 0
      in if v < 0 \<or> v > CP_LIVE_SEARCH_TAIL * 2 then 0 else v)"

definition setting_live :: "startup \<Rightarrow> bool" where
  "setting_live S = (case getenv S ''EICON_V90D_BRIDGE_CP_LIVE'' of None \<Rightarrow> False | Some t \<Rightarrow> atoi t \<noteq> 0)"

text \<open>
  \<open>None\<close> is the result -1.  The library state after \<^verbatim>\<open>v90_init\<close> has the callbacks above registered.
\<close>

definition bridge_init :: "('d, 'm, 'f, 'r) modem \<Rightarrow> startup \<Rightarrow> ('d, 'm, 'f, 'r) bridge option" where
  "bridge_init M S =
     (if \<not> calloc_ok S then None
      else case (p3_result_alloc (p3 M) 32768 4096, v90_init M) of
        (Some res, Some m) \<Rightarrow>
          (case v90_load_default_dil M (v34_force_v90_phase4_cp_rx M m) of
             None \<Rightarrow> None
           | Some m \<Rightarrow>
               bridge_live_cp_start S
                 \<lparr>demod = p3_demod_init (p3 M) (setting_baud M S) (setting_carrier M S) 8000, result = res,
                  v90 = v90_cp_rx_init M (v90_start_phase3 M 78 m), sample_offset = 0, event_arm_sample = setting_arm S,
                  reported = [], segment_scan_frames = 0, live_samples = (\<lambda>_. 0), live_sample_count = 0,
                  live_phase4_hint = - 1, live_next_try = 0, live_attempts = 0, live_cp_accepted = False,
                  live_data_cp_accepted = False, live_cp_done = False, live_enabled = setting_live S,
                  connected_reported = False, connected_sample = 0, data_frame = replicate DATA_FRAME 0,
                  data_frame_pos = DATA_FRAME, last_codeword = 0xff, data_frames = 0, tx_queue = empty_ring,
                  tx_consumed_frame = 0, rx_queue = empty_ring, upstream_rx_started = False, upstream_e_ones = 0,
                  upstream_e_complete = False, upstream_e_post_bits = 0, upstream_look_for_e = False,
                  upstream_prepared = False, upstream_replayed_current_frame = False,
                  upstream_audio_delay = setting_delay S, upstream_prepare_at = - 1, upstream_begin_at = - 1,
                  upstream_begin_pending = False, baud_code = setting_baud M S,
                  high_carrier = (setting_carrier M S = P3_CARRIER_HIGH (p3 M)), upstream_bps = setting_bps S,
                  live_sync_initialized = False, live = zero_mailbox M\<rparr>)
      | _ \<Rightarrow> None)"

text \<open>The frees leave nothing a later operation reads: what matters is that the worker is joined.\<close>

definition bridge_free :: "('d, 'm, 'f, 'r) modem \<Rightarrow> ('d, 'm, 'f, 'r) bridge \<Rightarrow> ('d, 'm, 'f, 'r) bridge" where
  "bridge_free M b = bridge_live_cp_stop M b"

text \<open>
  \<open>mtime\<close> is the time of the reset file, if there is one; \<open>None\<close> is the result -1.  Nothing of the
  bridge that is freed is read by the new one.
\<close>

definition bridge_reset_if_requested ::
  "('d, 'm, 'f, 'r) modem \<Rightarrow> startup \<Rightarrow> int option \<Rightarrow> int \<Rightarrow> ('d, 'm, 'f, 'r) bridge \<Rightarrow> (('d, 'm, 'f, 'r) bridge \<times> int) option" where
  "bridge_reset_if_requested M S mtime last_mtime b =
     (case mtime of
        None \<Rightarrow> Some (b, last_mtime)
      | Some t \<Rightarrow> if t = last_mtime then Some (b, last_mtime) else (let freed = bridge_free M b in map_option (\<lambda>b'. (b', t)) (bridge_init M S)))"

section \<open>Events\<close>

definition report_event ::
  "('d, 'm, 'f, 'r) modem \<Rightarrow> p3_signal \<Rightarrow> ('d, 'm, 'f, 'r) bridge \<Rightarrow> bool \<times> ('d, 'm, 'f, 'r) bridge" where
  "report_event M type b =
     (let phase = v90_get_tx_phase M (v90 b);
          event = (if type = P3_SIGNAL_S \<or> type = P3_SIGNAL_S_BAR
                   then (if phase \<noteq> V90_TX_JD M \<and> phase \<noteq> V90_TX_DIL M then V90_RX_EVENT_NONE else V90_RX_EVENT_S)
                   else if type = P3_SIGNAL_J
                   then (if phase \<noteq> V90_TX_WAIT_JA M then V90_RX_EVENT_NONE else V90_RX_EVENT_J)
                   else V90_RX_EVENT_NONE)
      in if event = V90_RX_EVENT_NONE then (False, b)
         else let (ok, m) = v90_handle_rx_event M event (v90 b) in (ok, b\<lparr>v90 := m\<rparr>))"

definition same_event :: "'r p3_segment \<Rightarrow> reported_event \<Rightarrow> bool" where
  "same_event s e \<longleftrightarrow> ev_start e = start_sample s \<and> ev_type e = seg_type s"

definition find_event :: "'r p3_segment \<Rightarrow> reported_event list \<Rightarrow> nat option" where
  "find_event s es = find (\<lambda>j. same_event s (es ! j)) [0..<length es]"

definition mark_event ::
  "('d, 'm, 'f, 'r) modem \<Rightarrow> 'r p3_segment \<Rightarrow> int \<Rightarrow> nat \<Rightarrow> ('d, 'm, 'f, 'r) bridge \<Rightarrow> ('d, 'm, 'f, 'r) bridge" where
  "mark_event M s phase j b =
     (let (ok, b) = report_event M (seg_type s) b
      in b\<lparr>reported := (reported b)[j := \<lparr>ev_start = start_sample s, ev_type = seg_type s, last_phase = phase, accepted = ok\<rparr>]\<rparr>)"

definition bridge_event ::
  "('d, 'm, 'f, 'r) modem \<Rightarrow> 'r p3_segment \<Rightarrow> ('d, 'm, 'f, 'r) bridge \<Rightarrow> ('d, 'm, 'f, 'r) bridge" where
  "bridge_event M s b =
     (if seg_type s \<in> {P3_SIGNAL_UNKNOWN, P3_SIGNAL_SILENCE, P3_SIGNAL_PP, P3_SIGNAL_TRN, P3_SIGNAL_RU, P3_SIGNAL_UR} then b
      else if start_sample s < event_arm_sample b then b
      else if seg_type s \<notin> {P3_SIGNAL_S, P3_SIGNAL_S_BAR, P3_SIGNAL_J} then b
      else
        (let phase = v90_get_tx_phase M (v90 b) in
         case find_event s (reported b) of
           Some j \<Rightarrow>
             if accepted (reported b ! j) \<or> last_phase (reported b ! j) = phase then b else mark_event M s phase j b
         | None \<Rightarrow>
             if length (reported b) < MAX_REPORTED_EVENTS
             then mark_event M s phase (length (reported b))
                    (b\<lparr>reported := reported b @ [\<lparr>ev_start = start_sample s, ev_type = seg_type s, last_phase = 0, accepted = False\<rparr>]\<rparr>)
             else b))"

definition bridge_events :: "('d, 'm, 'f, 'r) modem \<Rightarrow> ('d, 'm, 'f, 'r) bridge \<Rightarrow> ('d, 'm, 'f, 'r) bridge" where
  "bridge_events M b =
     (let (n, r) = p3_segment_symbols (p3 M) (result b)
      in fold (\<lambda>i. bridge_event M (segments r ! i)) [0..<nat n] (b\<lparr>result := r\<rparr>))"

definition bridge_trim_result :: "('d, 'm, 'f, 'r) bridge \<Rightarrow> ('d, 'm, 'f, 'r) bridge" where
  "bridge_trim_result b =
     (let r = result b; keep = RESULT_TAIL_SYMBOLS in
      if symbol_count r \<le> keep * 2 then b
      else b\<lparr>result := r\<lparr>symbols := take (nat keep) (drop (nat (symbol_count r - keep)) (symbols r)) @ drop (nat keep) (symbols r),
                        symbol_count := keep\<rparr>\<rparr>)"

section \<open>Transmission\<close>

fun collect_bits :: "nat list \<Rightarrow> u8 \<Rightarrow> ('d, 'm, 'f, 'r) bridge \<Rightarrow> u8 \<times> ('d, 'm, 'f, 'r) bridge" where
  "collect_bits [] byte b = (byte, b)"
| "collect_bits (i # is) byte b =
     (let (v, b) = bridge_get_bit b in collect_bits is (byte OR push_bit i (of_int v)) b)"

fun collect_bytes :: "nat \<Rightarrow> ('d, 'm, 'f, 'r) bridge \<Rightarrow> u8 list \<times> ('d, 'm, 'f, 'r) bridge" where
  "collect_bytes 0 b = ([], b)"
| "collect_bytes (Suc n) b =
     (let (byte, b) = collect_bits [0..<8] 0 b; (rest, b) = collect_bytes n b in (byte # rest, b))"

definition next_data_frame :: "('d, 'm, 'f, 'r) modem \<Rightarrow> ('d, 'm, 'f, 'r) bridge \<Rightarrow> bool \<times> ('d, 'm, 'f, 'r) bridge" where
  "next_data_frame M b =
     (let needed = v90_data_input_bytes_needed M (v90 b);
          needed = (if needed > 8 then 8 else needed);
          (bytes, b) = collect_bytes (nat needed) b;
          ((n, cw), b) = interact M (v90_tx_data_frame_codewords M (bytes @ replicate (8 - nat needed) 0) needed (v90 b)) b;
          b = b\<lparr>data_frame := cw\<rparr>
      in if n \<noteq> int DATA_FRAME then (False, b)
         else (True, b\<lparr>data_frame_pos := 0, data_frames := data_frames b + 1\<rparr>))"

definition next_codeword :: "('d, 'm, 'f, 'r) bridge \<Rightarrow> u8 \<times> ('d, 'm, 'f, 'r) bridge" where
  "next_codeword b =
     (let c = data_frame b ! data_frame_pos b
      in (c, b\<lparr>data_frame_pos := data_frame_pos b + 1, last_codeword := c\<rparr>))"

fun bridge_tx_codewords :: "('d, 'm, 'f, 'r) modem \<Rightarrow> nat \<Rightarrow> ('d, 'm, 'f, 'r) bridge \<Rightarrow> u8 list \<times> ('d, 'm, 'f, 'r) bridge" where
  "bridge_tx_codewords M 0 b = ([], b)"
| "bridge_tx_codewords M (Suc n) b =
     (if \<not> v90_training_complete M (v90 b)
      then
        (let ((r, c), b) = interact M (v90_phase3_tx_codewords M (v90 b)) b in
         if r \<noteq> 1 then (replicate (Suc n) (last_codeword b), b)
         else let (out, b) = bridge_tx_codewords M n (b\<lparr>last_codeword := c\<rparr>) in (c # out, b))
      else
        (let (ok, b) = (if data_frame_pos b \<ge> DATA_FRAME then next_data_frame M b else (True, b)) in
         if \<not> ok then (replicate (Suc n) (last_codeword b), b)
         else
           (let (c, b) = next_codeword b; (out, b) = bridge_tx_codewords M n b in (c # out, b))))"

section \<open>A frame\<close>

text \<open>
  What the surroundings decide in a frame: the reset file's time, whether allocations and writes
  succeed, and what the worker does before each of the three sections of the main thread that take
  the mutex.  Between them the main thread touches nothing the worker reads or writes.
\<close>

record surroundings =
  start :: startup
  reset_mtime :: "int option"
  snapshot_ok :: bool
  before_copy :: "worker_event list"
  before_apply :: "worker_event list"
  before_try :: "worker_event list"
  codewords_written :: bool
  data_written :: bool

definition live_append :: "int list \<Rightarrow> ('d, 'm, 'f, 'r) bridge \<Rightarrow> ('d, 'm, 'f, 'r) bridge" where
  "live_append linear b =
     (if live_enabled b \<and> \<not> connected_reported b
      then
        (let copy = int FRAME;
             copy = (if live_sample_count b + copy > CP_LIVE_MAX_SAMPLES then CP_LIVE_MAX_SAMPLES - live_sample_count b else copy)
         in if copy > 0
            then b\<lparr>live_samples := (\<lambda>i. if live_sample_count b \<le> int i \<and> int i < live_sample_count b + copy
                                    then linear ! (i - nat (live_sample_count b)) else live_samples b i),
                   live_sample_count := live_sample_count b + copy\<rparr>
            else b)
      else b)"

definition delayed_sample :: "('d, 'm, 'f, 'r) bridge \<Rightarrow> int \<Rightarrow> int" where
  "delayed_sample b at = (if at \<ge> 0 \<and> at < live_sample_count b then live_samples b (nat at) else 0)"

definition feed_delayed :: "('d, 'm, 'f, 'r) modem \<Rightarrow> ('d, 'm, 'f, 'r) bridge \<Rightarrow> ('d, 'm, 'f, 'r) bridge" where
  "feed_delayed M b =
     (let delayed_at = sample_offset b - upstream_audio_delay b;
          b = (if \<not> upstream_prepared b \<and> upstream_prepare_at b \<ge> 0 \<and> delayed_at + int FRAME \<ge> upstream_prepare_at b
               then let (r, b) = bridge_prepare M b in if r = 0 then b\<lparr>upstream_prepared := True\<rparr> else b
               else b);
          b = (if upstream_begin_pending b \<and> upstream_prepared b \<and> \<not> upstream_rx_started b
               then let (r, b) = bridge_begin_upstream_data M b
                    in if r = 0 then b\<lparr>upstream_rx_started := True, upstream_begin_pending := False\<rparr> else b
               else b)
      in bridge_v34_rx M (map (\<lambda>i. delayed_sample b (delayed_at + int i)) [0..<FRAME]) b)"

definition feed_frame :: "('d, 'm, 'f, 'r) modem \<Rightarrow> int list \<Rightarrow> ('d, 'm, 'f, 'r) bridge \<Rightarrow> ('d, 'm, 'f, 'r) bridge" where
  "feed_frame M linear b =
     (if upstream_replayed_current_frame b then b\<lparr>upstream_replayed_current_frame := False\<rparr>
      else if upstream_audio_delay b > 0 then feed_delayed M b
      else bridge_feed_upstream M linear (sample_offset b) b)"

definition scan_segments :: "('d, 'm, 'f, 'r) modem \<Rightarrow> ('d, 'm, 'f, 'r) bridge \<Rightarrow> ('d, 'm, 'f, 'r) bridge" where
  "scan_segments M b =
     (if connected_reported b then b
      else let b = b\<lparr>segment_scan_frames := segment_scan_frames b + 1\<rparr>
           in if segment_scan_frames b \<ge> SEGMENT_SCAN_FRAMES then bridge_events M (b\<lparr>segment_scan_frames := 0\<rparr>) else b)"

definition note_connected :: "('d, 'm, 'f, 'r) modem \<Rightarrow> ('d, 'm, 'f, 'r) bridge \<Rightarrow> ('d, 'm, 'f, 'r) bridge" where
  "note_connected M b =
     (if \<not> connected_reported b \<and> (v90_training_complete M (v90 b) \<or> v90_get_tx_phase M (v90 b) \<ge> V90_TX_DATA M)
      then b\<lparr>connected_reported := True, connected_sample := sample_offset b\<rparr> else b)"

definition demodulate :: "('d, 'm, 'f, 'r) modem \<Rightarrow> int list \<Rightarrow> ('d, 'm, 'f, 'r) bridge \<Rightarrow> ('d, 'm, 'f, 'r) bridge" where
  "demodulate M linear b =
     (if connected_reported b then b
      else let (d, r) = p3_demod_process (p3 M) linear (sample_offset b) (demod b) (result b)
           in b\<lparr>demod := d, result := r\<rparr>)"

text \<open>The body of the loop from the decoded samples to the codewords.\<close>

definition bridge_media ::
  "('d, 'm, 'f, 'r) modem \<Rightarrow> surroundings \<Rightarrow> int list \<Rightarrow> ('d, 'm, 'f, 'r) bridge \<Rightarrow> ('d, 'm, 'f, 'r) bridge" where
  "bridge_media M E linear b =
     (let b = live_append linear (worker_run M (before_copy E) b);
          b = demodulate M linear b;
          b = worker_run M (before_apply E) b;
          b = (if connected_reported b then b else bridge_live_cp_apply M b);
          b = feed_frame M linear b;
          b = b\<lparr>sample_offset := sample_offset b + int FRAME\<rparr>;
          b = scan_segments M b;
          b = worker_run M (before_try E) b;
          b = (if connected_reported b then b else bridge_live_cp_try (snapshot_ok E) (bridge_note_phase4 M b));
          b = note_connected M b
      in bridge_trim_result b)"

definition header_half :: "u32 \<Rightarrow> u8 list" where
  "header_half x = [ucast (x AND 0xff), ucast (drop_bit 8 x AND 0xff)]"

text \<open>The packet after the codewords: bits consumed and received, and the received bits.\<close>

definition data_packet :: "('d, 'm, 'f, 'r) modem \<Rightarrow> ('d, 'm, 'f, 'r) bridge \<Rightarrow> u8 list \<times> ('d, 'm, 'f, 'r) bridge" where
  "data_packet M b =
     (let (n, packed, q) = pack_output (rx_queue b); b = b\<lparr>rx_queue := q\<rparr>;
          received = (if v90_training_complete M (v90 b) then of_nat n OR 0x8000 else of_nat n)
      in (header_half (tx_consumed_frame b) @ header_half received @ packed, b))"

definition bridge_queue_input :: "u8 list \<Rightarrow> ('d, 'm, 'f, 'r) bridge \<Rightarrow> ('d, 'm, 'f, 'r) bridge" where
  "bridge_queue_input packet b =
     b\<lparr>tx_queue := queue_input (drop 4 packet) (unat (packet ! 0) + 256 * unat (packet ! 1)) (tx_queue b),
       tx_consumed_frame := 0\<rparr>"

definition PACKET :: nat where "PACKET = 4 + DATA_BYTES"

text \<open>
  An iteration of \<^verbatim>\<open>main\<close>'s loop on the bytes it reads: what it writes, whether the loop goes on, the
  time of the last reset and the bridge.  A short read ends the loop before anything is done.
\<close>

definition chunk_size :: "bool \<Rightarrow> nat" where
  "chunk_size data_stream = (if data_stream then FRAME + PACKET else FRAME)"

definition bridge_frame ::
  "('d, 'm, 'f, 'r) modem \<Rightarrow> bool \<Rightarrow> surroundings \<Rightarrow> u8 list \<Rightarrow> int \<Rightarrow> ('d, 'm, 'f, 'r) bridge
     \<Rightarrow> u8 list \<times> bool \<times> int \<times> ('d, 'm, 'f, 'r) bridge" where
  "bridge_frame M data_stream E chunk mtime b =
     (let b = (if data_stream then bridge_queue_input (drop FRAME chunk) b else b) in
      case bridge_reset_if_requested M (start E) (reset_mtime E) mtime b of
        None \<Rightarrow> ([], False, mtime, b)
      | Some (b, mtime) \<Rightarrow>
          (let b = bridge_media M E (map pcmu_decode (take FRAME chunk)) b;
               (out, b) = bridge_tx_codewords M FRAME b in
           if \<not> codewords_written E then ([], False, mtime, b)
           else if \<not> data_stream then (out, True, mtime, b)
           else
             (let (packet, b) = data_packet M b in
              if \<not> data_written E then (out, False, mtime, b) else (out @ packet, True, mtime, b))))"

text \<open>The loop; \<open>E k\<close> are the surroundings of frame \<open>k\<close>.\<close>

function bridge_loop ::
  "('d, 'm, 'f, 'r) modem \<Rightarrow> bool \<Rightarrow> (nat \<Rightarrow> surroundings) \<Rightarrow> nat \<Rightarrow> u8 list \<Rightarrow> int \<Rightarrow> ('d, 'm, 'f, 'r) bridge
     \<Rightarrow> u8 list \<times> ('d, 'm, 'f, 'r) bridge" where
  "bridge_loop M data_stream E k stdin mtime b =
     (if length stdin < chunk_size data_stream then ([], b)
      else
        (let (out, go_on, mtime, b) = bridge_frame M data_stream (E k) (take (chunk_size data_stream) stdin) mtime b in
         if \<not> go_on then (out, b)
         else
           (let (rest, b) = bridge_loop M data_stream E (Suc k) (drop (chunk_size data_stream) stdin) mtime b
            in (out @ rest, b))))"
  by pat_completeness auto
termination by (relation "measure (\<lambda>(_, _, _, _, s, _, _). length s)") (auto simp: FRAME_def chunk_size_def)

declare bridge_loop.simps [simp del]

text \<open>The arguments after the program's name: whether there is a reset file, and the data stream.\<close>

fun bridge_args :: "string list \<Rightarrow> string option \<Rightarrow> bool \<Rightarrow> (string option \<times> bool) option" where
  "bridge_args [] reset_file data_stream = Some (reset_file, data_stream)"
| "bridge_args (a # as) reset_file data_stream =
     (if a = ''--reset-file'' \<and> as \<noteq> [] then bridge_args (tl as) (Some (hd as)) data_stream
      else if a = ''--stream'' then bridge_args as reset_file data_stream
      else if a = ''--data-stream'' then bridge_args as reset_file True
      else None)"

text \<open>\<open>stat k path\<close>: the modification time of a file in frame \<open>k\<close>.\<close>

definition bridge_main ::
  "('d, 'm, 'f, 'r) modem \<Rightarrow> (nat \<Rightarrow> surroundings) \<Rightarrow> (nat \<Rightarrow> string \<Rightarrow> int option) \<Rightarrow> string list \<Rightarrow> u8 list \<Rightarrow> nat \<times> u8 list" where
  "bridge_main M E stat args stdin =
     (case bridge_args args None False of
        None \<Rightarrow> (2, [])
      | Some (reset_file, data_stream) \<Rightarrow>
          (case bridge_init M (start (E 0)) of
             None \<Rightarrow> (1, [])
           | Some b \<Rightarrow>
               (0, fst (bridge_loop M data_stream
                    (\<lambda>k. (E k)\<lparr>reset_mtime := Option.bind reset_file (stat k)\<rparr>) 0 stdin 0 b))))"

end
