(* ===== verification/Callbacks.thy ===== *)
theory Callbacks
  imports Bridge
begin

text \<open>
  What a call of the modem library can do to the digital bridge through its callbacks: it moves the
  bit queues, the search for E and the library's own state, and nothing else (\<open>core\<close>), and it keeps
  the invariant \<open>callback_ok\<close> of those.
\<close>

section \<open>Invariants of the callbacks\<close>

text \<open>
  A property of the bridge that the callbacks keep survives every call of the library.  The laws ask
  for it one callback at a time; the search for E may only move while it is under way, and reception
  may only start after E and two more bits, with the receiver prepared.
\<close>

locale callback_invariant =
  fixes M :: "('d, 'm, 'f, 'r) modem" and I :: "('d, 'm, 'f, 'r) bridge \<Rightarrow> bool"
  assumes lib: "I b \<Longrightarrow> I (b\<lparr>v90 := m\<rparr>)"
    and get_bit: "I b \<Longrightarrow> I (snd (bridge_get_bit b))"
    and cp_frame: "I b \<Longrightarrow> I (bridge_cp_frame M diag b)"
    and e_step: "\<lbrakk>I b; \<not> upstream_rx_started b; upstream_look_for_e b; v = 0 \<or> v = 1\<rbrakk> \<Longrightarrow> I (upstream_e_step v b)"
    and begin_data: "\<lbrakk>I b; upstream_e_complete b; upstream_e_post_bits b \<ge> 2; upstream_prepared b\<rbrakk>
      \<Longrightarrow> I (b\<lparr>v90 := m, upstream_rx_started := True\<rparr>)"
    and put_data: "I b \<Longrightarrow> I (bridge_put_data_bit M v b)"
begin

lemma cp_interact_keeps: "I b \<Longrightarrow> I (cp_interact M c b)"
  by (induction c arbitrary: b) (simp_all add: lib cp_frame Let_def)

lemma cp_control_keeps: "I b \<Longrightarrow> I (cp_control M v b)"
  by (simp add: cp_control_def Let_def lib cp_interact_keeps)

lemma put_bit_keeps:
  assumes "I b"
  shows "I (bridge_put_bit M v b)"
proof (cases "v = 0 \<or> v = 1")
  case True
  define b1 where "b1 = (if upstream_rx_started b then b else cp_control M v b)"
  have 1: "I b1" using assms by (simp add: b1_def cp_control_keeps)
  show ?thesis
  proof (cases "upstream_rx_started b1 \<or> \<not> upstream_look_for_e b1")
    case False
    then have 2: "I (upstream_e_step v b1)" using e_step [OF 1] True by simp
    obtain r m where r: "v34_begin_rx_data M (v90 (upstream_e_step v b1)) = (r, m)" by fastforce
    show ?thesis
      using True False 2 lib [OF 2] begin_data [OF 2, of m]
      by (simp add: bridge_put_bit_def Let_def flip: b1_def) (auto simp: bridge_begin_upstream_data_def r)
  qed (use True 1 in \<open>auto simp: bridge_put_bit_def b1_def [symmetric] Let_def\<close>)
qed (use assms in \<open>simp add: bridge_put_bit_def\<close>)

lemma interact_keeps: "I b \<Longrightarrow> I (snd (interact M c b))"
proof (induction c arbitrary: b)
  case (Get_bit m k)
  obtain v b' where "bridge_get_bit (b\<lparr>v90 := m\<rparr>) = (v, b')" by fastforce
  moreover have "I b'" using get_bit [OF lib [OF Get_bit.prems, of m]] calculation by simp
  ultimately show ?case using Get_bit.IH [OF rangeI rangeI] by simp
qed (simp_all add: lib put_bit_keeps put_data Let_def)

lemma v34_rx_keeps: "I b \<Longrightarrow> I (bridge_v34_rx M s b)"
proof (induction s arbitrary: b rule: measure_induct_rule [of length])
  case (less s)
  have "length (drop FRAME s) < length s" if "s \<noteq> []" using that by (simp add: FRAME_def)
  moreover have "I (snd (interact M (v34_rx M (map v34_scale (take FRAME s)) (v90 b)) b))"
    using interact_keeps [OF less.prems] .
  ultimately show ?case using less by (subst bridge_v34_rx.simps) simp
qed

end

section \<open>What callbacks leave alone\<close>

definition core :: "('d, 'm, 'f, 'r) bridge \<Rightarrow> ('d, 'm, 'f, 'r) bridge" where
  "core b = b\<lparr>v90 := undefined, tx_queue := empty_ring, tx_consumed_frame := 0, rx_queue := empty_ring,
     upstream_rx_started := False, upstream_e_ones := 0, upstream_e_complete := False, upstream_e_post_bits := 0,
     upstream_look_for_e := False, upstream_prepared := False\<rparr>"

lemma core_updates [frame_simps]:
  "core (b\<lparr>v90 := m\<rparr>) = core b" "core (b\<lparr>tx_queue := q\<rparr>) = core b" "core (b\<lparr>tx_consumed_frame := n\<rparr>) = core b"
  "core (b\<lparr>rx_queue := q\<rparr>) = core b" "core (b\<lparr>upstream_rx_started := t\<rparr>) = core b"
  "core (b\<lparr>upstream_e_ones := z\<rparr>) = core b" "core (b\<lparr>upstream_e_complete := t\<rparr>) = core b"
  "core (b\<lparr>upstream_e_post_bits := z\<rparr>) = core b" "core (b\<lparr>upstream_look_for_e := t\<rparr>) = core b"
  "core (b\<lparr>upstream_prepared := t\<rparr>) = core b"
  by (simp_all add: core_def)

interpretation cb_core: callback_invariant M "\<lambda>b'. core b' = c" for M c
  by unfold_locales
    (simp_all add: bridge_get_bit_def bridge_cp_frame_def bridge_prepare_def upstream_e_step_def bridge_put_data_bit_def
      Let_def case_prod_unfold frame_simps)

section \<open>The state callbacks move\<close>

definition callback_ok :: "('d, 'm, 'f, 'r) bridge \<Rightarrow> bool" where
  "callback_ok b \<longleftrightarrow> ring_ok (tx_queue b) \<and> set (ring_bits (tx_queue b)) \<subseteq> {0, 1} \<and>
     ring_ok (rx_queue b) \<and> set (ring_bits (rx_queue b)) \<subseteq> {0, 1} \<and>
     (upstream_rx_started b \<longrightarrow> upstream_prepared b) \<and>
     0 \<le> upstream_e_ones b \<and> upstream_e_ones b \<le> 20 \<and> (upstream_e_complete b \<longleftrightarrow> upstream_e_ones b = 20) \<and>
     0 \<le> upstream_e_post_bits b \<and> (0 < upstream_e_post_bits b \<longrightarrow> upstream_e_complete b) \<and>
     (\<not> upstream_look_for_e b \<longrightarrow> upstream_e_ones b = 0)"

lemma ring_bits_get:
  "\<lbrakk>ring_ok q; set (ring_bits q) \<subseteq> {0, 1}\<rbrakk> \<Longrightarrow> ring_ok (snd (ring_get q)) \<and> set (ring_bits (snd (ring_get q))) \<subseteq> {0, 1}"
  using ring.get_ok ring.get_contents by (metis list.set_sel(2) subset_eq tl_Nil)

lemma ring_bits_put:
  "\<lbrakk>ring_ok q; set (ring_bits q) \<subseteq> {0, 1}; count q < DATA_QUEUE_BITS; v \<in> {0, 1}\<rbrakk>
     \<Longrightarrow> ring_ok (ring_put v q) \<and> set (ring_bits (ring_put v q)) \<subseteq> {0, 1}"
  using ring.put_ok [of q v] ring.put_contents [of q v] by (simp add: ring_bits_def [of q])

interpretation cb_ok: callback_invariant M callback_ok for M
proof
  fix b :: "('a, 'b, 'c, 'd) bridge" and m v diag
  assume I: "callback_ok b"
  show "callback_ok (b\<lparr>v90 := m\<rparr>)" using I by (auto simp: callback_ok_def)
  show "callback_ok (snd (bridge_get_bit b))"
    using I ring_bits_get [of "tx_queue b"] by (auto simp: callback_ok_def bridge_get_bit_def case_prod_unfold Let_def)
  show "callback_ok (bridge_cp_frame M diag b)"
    using I by (auto simp: callback_ok_def bridge_cp_frame_def bridge_prepare_def Let_def case_prod_unfold)
  show "callback_ok (bridge_put_data_bit M v b)"
    using I ring_bits_put [of "rx_queue b" "of_int v AND 1"]
    by (auto simp: callback_ok_def bridge_put_data_bit_def)
next
  fix b :: "('a, 'b, 'c, 'd) bridge" and v :: int
  assume "callback_ok b" "\<not> upstream_rx_started b" "upstream_look_for_e b" "v = 0 \<or> v = 1"
  then show "callback_ok (upstream_e_step v b)"
    by (auto simp: callback_ok_def upstream_e_step_def)
next
  fix b :: "('a, 'b, 'c, 'd) bridge" and m
  assume "callback_ok b" "upstream_e_complete b" "2 \<le> upstream_e_post_bits b" "upstream_prepared b"
  then show "callback_ok (b\<lparr>v90 := m, upstream_rx_started := True\<rparr>)" by (auto simp: callback_ok_def)
qed

section \<open>A small modem\<close>

text \<open>
  A library of the simplest kind, to evaluate the bridge on: its state counts the codewords sent, the
  training never ends, each frame of samples brings one control bit,
  a CP frame comes with every recovered one.
\<close>

definition small_modem :: "(unit, nat, bool, int) modem" where
  "small_modem = \<lparr>p3 = sample_demod,
     v34_begin_rx_data = (\<lambda>m. (0, m)),
     v34_rx = (\<lambda>s m. Put_phase4_bit 1 m (Ret ())),
     v34_reject_v90_phase4_hypothesis = (\<lambda>m. m), v34_v90_upstream_rx_acquired = (\<lambda>_. True),
     v34_v90_prepare_upstream_data = (\<lambda>_ _ _ m. (0, m)), v34_force_v90_phase4_cp_rx = (\<lambda>m. m),
     v90_cp_rx_init = (\<lambda>m. m),
     v90_cp_rx_put_bit = (\<lambda>v m. if v = 1 then Cp_frame \<lparr>valid = True, frame = True\<rparr> m Cp_ret else Cp_ret m),
     rejected_frames = (\<lambda>_. 0), acknowledge = (\<lambda>f. f), zero_frame = False,
     v90_cp_live_recover = (\<lambda>s _ _ _. Some (\<lparr>valid = True, frame = True\<rparr>, \<lparr>frame_sample = 0, last_sample = int (length s)\<rparr>)),
     v90_init = Some 0, v90_load_default_dil = Some, v90_start_phase3 = (\<lambda>_ m. m),
     v90_set_phase4_cp = (\<lambda>_ m. (True, m)), v90_handle_rx_event = (\<lambda>_ m. (True, m)),
     v90_get_tx_phase = (\<lambda>_. 3), v90_training_complete = (\<lambda>_. False),
     v90_phase3_tx_codewords = (\<lambda>m. Ret (1, of_nat m) (Suc m)),
     v90_data_input_bytes_needed = (\<lambda>_. 3),
     v90_tx_data_frame_codewords = (\<lambda>data n m. Ret (6, take 6 (data @ replicate 6 0)) m),
     V90_TX_WAIT_JA = 1, V90_TX_JD = 2, V90_TX_DIL = 3, V90_TX_RI = 3, V90_TX_DATA = 9\<rparr>"

definition small_startup :: startup where
  "small_startup = \<lparr>getenv = [''EICON_V90D_BRIDGE_CP_LIVE'' \<mapsto> ''1''], calloc_ok = True, mutex_init_ok = True,
     cond_init_ok = True, pthread_create_ok = True\<rparr>"

definition small_bridge :: "(unit, nat, bool, int) bridge" where
  "small_bridge = the (bridge_init small_modem small_startup)"

lemma small_bridge_init: "bridge_init small_modem small_startup = Some small_bridge"
proof -
  have "bridge_init small_modem small_startup \<noteq> None" by code_simp
  then show ?thesis by (simp add: small_bridge_def)
qed

lemma empty_ring_ok [simp]: "ring_ok empty_ring" "ring_bits empty_ring = []"
  by (simp_all add: ring_ok_def ring_bits_def empty_ring_def)

lemma init_callback_ok:
  "bridge_init M S = Some b \<Longrightarrow> callback_ok b \<and> \<not> upstream_rx_started b \<and> upstream_e_ones b = 0"
  by (auto simp: bridge_init_def bridge_live_cp_start_def callback_ok_def split: if_splits option.splits)

end
