(* ===== verification/Handover.thy ===== *)
theory Handover
  imports Callbacks
begin

text \<open>
  The handover from the control channel to data in the digital bridge: \<^verbatim>\<open>bridge_put_bit\<close> searches the
  recovered bits for E, twenty ones in a row, and starts the data receiver two bits later.
\<close>

section \<open>What the CP receiver leaves of the search\<close>

definition search :: "('d, 'm, 'f, 'r) bridge \<Rightarrow> int \<times> bool \<times> int \<times> bool" where
  "search b = (upstream_e_ones b, upstream_e_complete b, upstream_e_post_bits b, upstream_rx_started b)"

lemma search_cp_frame: "search (bridge_cp_frame M diag b) = search b"
  by (simp add: search_def bridge_cp_frame_def bridge_prepare_def Let_def case_prod_unfold)

lemma search_cp_interact: "search (cp_interact M c b) = search b"
  by (induction c arbitrary: b) (simp_all add: search_cp_frame Let_def, simp_all add: search_def)

lemma search_cp_control: "search (cp_control M v b) = search b"
  using search_cp_interact [of M "v90_cp_rx_put_bit M v (v90 b)" b] by (simp add: cp_control_def Let_def search_def)

text \<open>A CP frame can only switch the search and the preparation on.\<close>

lemma ready_cp_frame:
  "upstream_look_for_e b \<Longrightarrow> upstream_look_for_e (bridge_cp_frame M diag b)"
  "upstream_prepared b \<Longrightarrow> upstream_prepared (bridge_cp_frame M diag b)"
  by (simp_all add: bridge_cp_frame_def bridge_prepare_def Let_def case_prod_unfold)

lemma ready_cp_interact:
  "upstream_look_for_e b \<Longrightarrow> upstream_look_for_e (cp_interact M c b)"
  "upstream_prepared b \<Longrightarrow> upstream_prepared (cp_interact M c b)"
  by (induction c arbitrary: b) (simp_all add: ready_cp_frame Let_def)

lemma ready_cp_control:
  "upstream_look_for_e b \<Longrightarrow> upstream_look_for_e (cp_control M v b)"
  "upstream_prepared b \<Longrightarrow> upstream_prepared (cp_control M v b)"
  by (simp_all add: cp_control_def Let_def ready_cp_interact)

section \<open>One bit\<close>

lemma put_bit_started [simp]: "upstream_rx_started b \<Longrightarrow> bridge_put_bit M v b = b"
  by (simp add: bridge_put_bit_def)

text \<open>A bit while the search is not over: it is not looked at yet, it moves the search, or it starts reception.\<close>

lemma put_bit_cases:
  assumes "\<not> upstream_rx_started b" "v = 0 \<or> v = 1"
  obtains (unseen) "search (bridge_put_bit M v b) = search b" "\<not> upstream_look_for_e (cp_control M v b)"
  | (moved) "search (bridge_put_bit M v b) = search (upstream_e_step v b)"
      "\<not> (upstream_e_complete (upstream_e_step v b) \<and> upstream_e_post_bits (upstream_e_step v b) \<ge> 2
          \<and> upstream_prepared (cp_control M v b) \<and> (\<forall>m. fst (v34_begin_rx_data M m) = 0))"
      "upstream_look_for_e (bridge_put_bit M v b) = upstream_look_for_e (cp_control M v b)"
      "upstream_prepared (bridge_put_bit M v b) = upstream_prepared (cp_control M v b)"
  | (started) "upstream_rx_started (bridge_put_bit M v b)" "upstream_e_complete (upstream_e_step v b)"
      "upstream_e_post_bits (upstream_e_step v b) \<ge> 2"
proof -
  define b1 where "b1 = cp_control M v b"
  have s: "search b1 = search b" "search (upstream_e_step v b1) = search (upstream_e_step v b)"
    using search_cp_control [of M v b] by (auto simp: b1_def search_def upstream_e_step_def)
  have n: "\<not> upstream_rx_started b1" "upstream_prepared (upstream_e_step v b1) = upstream_prepared b1"
    "upstream_look_for_e (upstream_e_step v b1) = upstream_look_for_e b1"
    "\<not> upstream_rx_started (upstream_e_step v b1)"
    using s(1) assms(1) by (simp_all add: search_def upstream_e_step_def)
  have p: "bridge_put_bit M v b =
     (if \<not> upstream_look_for_e b1 then b1
      else let b2 = upstream_e_step v b1 in
        if upstream_e_complete b2 \<and> upstream_e_post_bits b2 \<ge> 2 \<and> upstream_prepared b1
        then let (r, b3) = bridge_begin_upstream_data M b2 in if r = 0 then b3\<lparr>upstream_rx_started := True\<rparr> else b3
        else b2)"
    using assms n unfolding bridge_put_bit_def by (auto simp: b1_def [symmetric] Let_def)
  have e: "upstream_e_complete (upstream_e_step v b1) = upstream_e_complete (upstream_e_step v b)"
    "upstream_e_post_bits (upstream_e_step v b1) = upstream_e_post_bits (upstream_e_step v b)"
    using s(2) by (simp_all add: search_def)
  obtain r m where r: "v34_begin_rx_data M (v90 (upstream_e_step v b1)) = (r, m)" by fastforce
  show thesis
  proof (cases "upstream_look_for_e b1")
    case True
    show thesis
    proof (cases "upstream_e_complete (upstream_e_step v b1) \<and> upstream_e_post_bits (upstream_e_step v b1) \<ge> 2 \<and>
        upstream_prepared b1 \<and> r = 0")
      case True
      then show thesis using \<open>upstream_look_for_e b1\<close> e
        by (intro started) (simp_all add: p bridge_begin_upstream_data_def r)
    next
      case False
      then have "\<not> (upstream_e_complete (upstream_e_step v b) \<and> upstream_e_post_bits (upstream_e_step v b) \<ge> 2
          \<and> upstream_prepared b1 \<and> (\<forall>m. fst (v34_begin_rx_data M m) = 0))"
        using e r by (metis fst_conv)
      moreover have "bridge_put_bit M v b = upstream_e_step v b1 \<or> bridge_put_bit M v b = (upstream_e_step v b1)\<lparr>v90 := m\<rparr>"
        using False True by (auto simp: p bridge_begin_upstream_data_def r Let_def)
      ultimately show thesis using s(2) n by (intro moved) (auto simp: b1_def [symmetric] search_def)
    qed
  next
    case False
    then show thesis using s by (intro unseen) (simp_all add: p flip: b1_def)
  qed
qed

section \<open>Streams of bits\<close>

definition e_seen :: "int list \<Rightarrow> nat \<Rightarrow> bool" where
  "e_seen bits n \<longleftrightarrow> (\<exists>pre post. bits = pre @ replicate 20 1 @ post \<and> n \<le> length post)"

definition e_trace :: "int list \<Rightarrow> ('d, 'm, 'f, 'r) bridge \<Rightarrow> bool" where
  "e_trace bits b \<longleftrightarrow>
     (if upstream_rx_started b then e_seen bits 2
      else if upstream_e_complete b then e_seen bits (nat (upstream_e_post_bits b))
      else \<exists>pre. bits = pre @ replicate (nat (upstream_e_ones b)) 1)"

lemma e_seen_snoc: "e_seen bits n \<Longrightarrow> e_seen (bits @ [v]) (Suc n)"
  unfolding e_seen_def by (metis append.assoc length_append_singleton not_less_eq_eq Suc_le_mono)

lemma e_seen_mono: "e_seen bits n \<Longrightarrow> m \<le> n \<Longrightarrow> e_seen bits m"
  unfolding e_seen_def using le_trans by blast

lemma replicate_1_snoc: "replicate n 1 @ [1] = replicate (Suc n) (1 :: int)"
  by (simp add: replicate_append_same)

lemma e_trace_step:
  assumes "e_trace bits b" "callback_ok b" "\<not> upstream_rx_started b" "v = 0 \<or> v = 1"
  shows "if upstream_e_complete (upstream_e_step v b)
    then e_seen (bits @ [v]) (nat (upstream_e_post_bits (upstream_e_step v b)))
    else \<exists>pre. bits @ [v] = pre @ replicate (nat (upstream_e_ones (upstream_e_step v b))) 1"
proof (cases "upstream_e_complete b")
  case True
  then show ?thesis using assms e_seen_snoc [of bits "nat (upstream_e_post_bits b)" v]
    by (simp add: e_trace_def upstream_e_step_def callback_ok_def nat_add_distrib)
next
  case False
  then obtain pre where pre: "bits = pre @ replicate (nat (upstream_e_ones b)) 1" using assms(1,3) by (auto simp: e_trace_def)
  have c: "0 \<le> upstream_e_ones b" "upstream_e_ones b < 20" "upstream_e_post_bits b = 0"
    using assms(2) False by (auto simp: callback_ok_def)
  show ?thesis
  proof (cases "v = 1")
    case True
    then have "bits @ [v] = pre @ replicate (nat (upstream_e_ones b + 1)) 1"
      using c pre replicate_1_snoc by (simp add: nat_add_distrib)
    moreover have "upstream_e_ones b + 1 \<ge> 20 \<Longrightarrow> nat (upstream_e_ones b + 1) = 20" using c by simp
    ultimately show ?thesis using False True c
      by (auto simp: upstream_e_step_def Let_def e_seen_def) (metis append_Nil2)
  next
    case False
    then show ?thesis using \<open>\<not> upstream_e_complete b\<close> assms(4) by (simp add: upstream_e_step_def)
  qed
qed

lemma e_trace_put_bit:
  assumes "e_trace bits b" "callback_ok b" "v = 0 \<or> v = 1"
  shows "e_trace (bits @ [v]) (bridge_put_bit M v b)"
proof (cases "upstream_rx_started b")
  case True
  then show ?thesis using assms(1) e_seen_snoc [of bits 2 v] e_seen_mono by (auto simp: e_trace_def)
next
  case False
  note s = e_trace_step [OF assms(1,2) False assms(3)]
  have n: "\<not> upstream_rx_started (upstream_e_step v b)" using False by (simp add: upstream_e_step_def)
  from False assms(3) show ?thesis
  proof (cases rule: put_bit_cases [where M = M])
    case unseen
    then have "upstream_e_ones b = 0" "\<not> upstream_e_complete b"
      using ready_cp_control(1) [of b M v] assms(2) by (auto simp: callback_ok_def)
    then show ?thesis using unseen(1) False by (simp add: e_trace_def search_def)
  next
    case moved
    then show ?thesis using s n by (simp add: e_trace_def search_def split: if_splits)
  next
    case started
    then show ?thesis using s e_seen_mono [of "bits @ [v]" _ 2] by (simp add: e_trace_def)
  qed
qed

lemma put_bits_ok:
  "callback_ok b \<Longrightarrow> callback_ok (fold (bridge_put_bit M) bits b)"
  by (induction bits arbitrary: b) (simp_all add: cb_ok.put_bit_keeps)

text \<open>
  If the recovered bits \<open>bits\<close> have started the data receiver, they hold twenty ones in a row with at
  least two more bits behind them, and the receiver had been prepared for the upstream data.
\<close>

lemma bits_start_after_e:
  assumes "callback_ok b" "\<not> upstream_rx_started b" "upstream_e_ones b = 0" "set bits \<subseteq> {0, 1}"
    "upstream_rx_started (fold (bridge_put_bit M) bits b)"
  shows "e_seen bits 2 \<and> upstream_prepared (fold (bridge_put_bit M) bits b)"
proof -
  have "e_trace bits (fold (bridge_put_bit M) bits b)" using assms(4)
  proof (induction bits rule: rev_induct)
    case Nil
    then show ?case using assms(1-3) by (auto simp: e_trace_def callback_ok_def)
  next
    case (snoc v bits)
    then show ?case using e_trace_put_bit [OF _ put_bits_ok [OF assms(1)]] by auto
  qed
  then show ?thesis using assms(5) put_bits_ok [OF assms(1), of M bits] by (simp add: e_trace_def callback_ok_def)
qed

section \<open>The handover happens\<close>

definition searching :: "('d, 'm, 'f, 'r) bridge \<Rightarrow> bool" where
  "searching b \<longleftrightarrow> callback_ok b \<and> upstream_look_for_e b \<and> upstream_prepared b"

lemma searching_put_bit:
  assumes "searching b" "\<not> upstream_rx_started (bridge_put_bit M v b)" "v = 0 \<or> v = 1"
  shows "searching (bridge_put_bit M v b) \<and> search (bridge_put_bit M v b) = search (upstream_e_step v b) \<and>
    \<not> (upstream_e_complete (upstream_e_step v b) \<and> upstream_e_post_bits (upstream_e_step v b) \<ge> 2
       \<and> (\<forall>m. fst (v34_begin_rx_data M m) = 0))"
proof -
  have "\<not> upstream_rx_started b" using assms(2) put_bit_started by metis
  from this assms(3) show ?thesis
  proof (cases rule: put_bit_cases [where M = M])
    case moved
    then show ?thesis using assms(1) ready_cp_control [of b M v] cb_ok.put_bit_keeps [of b M v] by (simp add: searching_def)
  qed (use assms(1,2) ready_cp_control [of b M v] in \<open>simp_all add: searching_def\<close>)
qed

text \<open>A bit after E brings the handover nearer; a one before E brings E nearer.\<close>

definition togo :: "('d, 'm, 'f, 'r) bridge \<Rightarrow> int" where
  "togo b = (if upstream_e_complete b then 2 - upstream_e_post_bits b else 22 - upstream_e_ones b)"

lemma put_bit_nearer:
  assumes "searching b" "\<not> upstream_rx_started (bridge_put_bit M v b)" "v = 1 \<or> (v = 0 \<and> upstream_e_complete b)"
    "\<forall>m. fst (v34_begin_rx_data M m) = 0"
  shows "togo (bridge_put_bit M v b) < togo b \<and> 0 < togo (bridge_put_bit M v b)"
  using searching_put_bit [OF assms(1,2)] assms(1,3,4)
  by (auto simp: togo_def search_def upstream_e_step_def searching_def callback_ok_def Let_def split: if_splits)

lemma put_bits_started: "upstream_rx_started b \<Longrightarrow> upstream_rx_started (fold (bridge_put_bit M) bits b)"
  by (induction bits) simp_all

lemma put_bits_searching:
  "\<lbrakk>searching b; set bits \<subseteq> {0, 1}; \<not> upstream_rx_started (fold (bridge_put_bit M) bits b)\<rbrakk>
     \<Longrightarrow> searching (fold (bridge_put_bit M) bits b)"
proof (induction bits arbitrary: b)
  case (Cons v bits)
  have "\<not> upstream_rx_started (bridge_put_bit M v b)" using Cons.prems(3) put_bits_started by auto
  then have "searching (bridge_put_bit M v b)" using searching_put_bit [OF Cons.prems(1)] Cons.prems(2) by auto
  then show ?case using Cons.IH Cons.prems by simp
qed simp

lemma put_ones_nearer:
  assumes "searching b" "\<forall>m. fst (v34_begin_rx_data M m) = 0"
    "\<not> upstream_rx_started (fold (bridge_put_bit M) (replicate n 1) b)"
  shows "togo (fold (bridge_put_bit M) (replicate n 1) b) \<le> togo b - int n"
  using assms(1,3)
proof (induction n arbitrary: b)
  case (Suc n)
  let ?b = "bridge_put_bit M 1 b"
  have s: "\<not> upstream_rx_started ?b" using Suc.prems(2) put_bits_started [of ?b M "replicate n 1"] by auto
  then have "searching ?b" using searching_put_bit [OF Suc.prems(1)] by simp
  then have "togo (fold (bridge_put_bit M) (replicate n 1) ?b) \<le> togo ?b - int n" using Suc by simp
  then show ?case using put_bit_nearer [OF Suc.prems(1) s _ assms(2)] by simp
qed simp

text \<open>
  C31. After E the handover happens.  When the library agrees to start and the receiver has been
  prepared and is looking for E, then twenty ones and two more bits start reception, whatever bits
  came before.
\<close>

theorem handover_after_e:
  assumes "searching b" "\<forall>m. fst (v34_begin_rx_data M m) = 0" "set pre \<subseteq> {0, 1}" "x = 0 \<or> x = 1" "y = 0 \<or> y = 1"
  shows "upstream_rx_started (fold (bridge_put_bit M) (pre @ replicate 20 1 @ [x, y]) b)"
proof (rule ccontr)
  let ?put = "fold (bridge_put_bit M)"
  define c where "c = ?put (replicate 20 1) (?put pre b)"
  define d where "d = bridge_put_bit M x c"
  assume "\<not> upstream_rx_started (?put (pre @ replicate 20 1 @ [x, y]) b)"
  then have n: "\<not> upstream_rx_started (bridge_put_bit M y d)" by (simp add: c_def d_def)
  then have n2: "\<not> upstream_rx_started d" by (metis put_bit_started)
  then have "\<not> upstream_rx_started c" by (metis put_bit_started d_def)
  then have n3: "\<not> upstream_rx_started (?put pre b)" using put_bits_started unfolding c_def by blast
  have p: "searching (?put pre b)" using put_bits_searching [OF assms(1,3) n3] .
  have c: "searching c" using put_bits_searching [OF p _ \<open>\<not> upstream_rx_started c\<close> [unfolded c_def]] by (simp add: c_def)
  have "togo c \<le> togo (?put pre b) - 20"
    using put_ones_nearer [OF p assms(2) \<open>\<not> upstream_rx_started c\<close> [unfolded c_def]] by (simp add: c_def)
  moreover have "togo (?put pre b) \<le> 22" using p by (simp add: togo_def searching_def callback_ok_def)
  ultimately have t: "togo c \<le> 2" by simp
  then have e: "upstream_e_complete c" using c by (auto simp: togo_def searching_def callback_ok_def split: if_splits)
  have d: "searching d" "search d = search (upstream_e_step x c)"
    using searching_put_bit [OF c _ assms(4), of M] n2 by (simp_all add: d_def)
  then have "upstream_e_complete d" using e by (simp add: search_def upstream_e_step_def)
  moreover have "togo d < togo c" using put_bit_nearer [OF c _ _ assms(2), of x] n2 e assms(4) by (auto simp: d_def)
  ultimately show False using put_bit_nearer [OF d(1) n _ assms(2)] assms(5) t by auto
qed

theorem handover_after_e_witness:
  "upstream_rx_started (fold (bridge_put_bit small_modem) ([1, 0] @ replicate 20 1 @ [0, 1])
     (small_bridge\<lparr>upstream_look_for_e := True, upstream_prepared := True\<rparr>))"
proof (rule handover_after_e)
  let ?b = "small_bridge\<lparr>upstream_look_for_e := True, upstream_prepared := True\<rparr>"
  show "searching ?b" using init_callback_ok [OF small_bridge_init] by (auto simp: searching_def callback_ok_def)
  show "\<forall>m. fst (v34_begin_rx_data small_modem m) = 0" by (simp add: small_modem_def)
qed simp_all

end
