(* ===== verification/Cpworker.thy ===== *)
theory Cpworker
  imports Callbacks
begin

text \<open>
  The main thread and the CP worker of the digital bridge meet in the fields the mutex guards.
  \<open>mail_ok\<close> is what every section that holds the mutex keeps; \<open>window_ok\<close> adds that a job and a
  result speak about samples the bridge has received.
\<close>

section \<open>One job at a time\<close>

definition mail_ok :: "'f mailbox \<Rightarrow> bool" where
  "mail_ok w \<longleftrightarrow>
     (live_thread w = Blocked \<longrightarrow> \<not> live_job w \<and> \<not> live_stop w) \<and>
     (live_worker_running w \<longleftrightarrow> (\<exists>j. live_thread w = Recovering j)) \<and>
     (live_job w \<longleftrightarrow> live_job_samples w \<noteq> None) \<and>
     \<not> (live_job w \<and> live_worker_running w) \<and> \<not> (live_job w \<and> live_result_ready w) \<and>
     \<not> (live_worker_running w \<and> live_result_ready w)"

lemma mail_ok_signal [simp]: "mail_ok w \<Longrightarrow> mail_ok (cond_signal w)"
  by (auto simp: mail_ok_def cond_signal_def)

lemma mail_ok_step: "mail_ok w \<Longrightarrow> mail_ok (worker_step M baud w)"
  by (auto simp: mail_ok_def worker_step_def worker_take_def worker_finish_def Let_def
      split: worker.split option.split)

lemma mail_ok_events:
  "mail_ok w \<Longrightarrow> mail_ok (fold (\<lambda>e. case e of Proceed \<Rightarrow> worker_step M baud | Spurious \<Rightarrow> cond_signal) es w)"
  by (induction es arbitrary: w) (simp_all add: mail_ok_step split: worker_event.split)

lemma mail_ok_run: "mail_ok (live b) \<Longrightarrow> mail_ok (live (worker_run M es b))"
  by (simp add: worker_run_def mail_ok_events)

definition submit :: "int list \<Rightarrow> int \<Rightarrow> int \<Rightarrow> bool \<Rightarrow> 'f mailbox \<Rightarrow> 'f mailbox" where
  "submit s cnt offset expected w =
     w\<lparr>live_job_samples := Some s, live_job_count := cnt, live_job_offset := offset, live_job_hint := 1,
       live_job_expected := expected, live_job := True\<rparr>"

lemma mail_ok_submit:
  "\<lbrakk>mail_ok w; \<not> live_worker_running w; \<not> live_result_ready w\<rbrakk>
     \<Longrightarrow> mail_ok (cond_signal (submit s cnt offset expected w))"
  by (cases "live_thread w") (simp_all add: mail_ok_def cond_signal_def submit_def)

lemma live_cp_try_cases:
  obtains (nothing) "bridge_live_cp_try ok b = b"
  | (submitted) offset where "\<not> live_job (live b)" "\<not> live_worker_running (live b)" "\<not> live_result_ready (live b)"
      "offset = max 0 (live_sample_count b - CP_LIVE_SEARCH_TAIL)" "live_enabled b" "live_attempts b < CP_LIVE_MAX_ATTEMPTS"
      "bridge_live_cp_try ok b =
         b\<lparr>live := cond_signal (submit (live_slice b offset (live_sample_count b - offset)) (live_sample_count b - offset)
              offset (live_cp_accepted b) (live b)),
           live_attempts := live_attempts b + 1, live_next_try := live_sample_count b + CP_LIVE_RETRY_SAMPLES\<rparr>"
proof (cases "\<not> live_enabled b \<or> live_cp_done b \<or> live_phase4_hint b < 0 \<or> live_attempts b \<ge> CP_LIVE_MAX_ATTEMPTS
         \<or> live_sample_count b < live_next_try b
         \<or> live_job (live b) \<or> live_worker_running (live b) \<or> live_result_ready (live b) \<or> \<not> ok")
  case True
  then have "bridge_live_cp_try ok b = b" by (simp only: bridge_live_cp_try_def Let_def if_True)
  then show thesis by (rule nothing)
next
  case False
  define o1 where "o1 = (if live_sample_count b - CP_LIVE_SEARCH_TAIL < 0 then 0 else live_sample_count b - CP_LIVE_SEARCH_TAIL)"
  have "bridge_live_cp_try ok b =
         b\<lparr>live := cond_signal (submit (live_slice b o1 (live_sample_count b - o1)) (live_sample_count b - o1)
              o1 (live_cp_accepted b) (live b)),
           live_attempts := live_attempts b + 1, live_next_try := live_sample_count b + CP_LIVE_RETRY_SAMPLES\<rparr>"
    using False by (simp only: bridge_live_cp_try_def Let_def if_False submit_def o1_def)
  moreover have "o1 = max 0 (live_sample_count b - CP_LIVE_SEARCH_TAIL)" by (simp add: o1_def)
  ultimately show thesis using False submitted [of o1] by (simp only: de_Morgan_disj not_le simp_thms)
qed

lemma mail_ok_try: "mail_ok (live b) \<Longrightarrow> mail_ok (live (bridge_live_cp_try ok b))"
  by (rule live_cp_try_cases [of ok b]) (simp_all add: mail_ok_submit)

text \<open>The stop request reaches the worker whatever it is doing, and ends it.\<close>

lemma mail_stop_joins:
  assumes "mail_ok (live b)" "live_sync_initialized b"
  shows "(live_job (live b) \<or> live_stop (live b) \<longrightarrow> live_thread (live b) \<noteq> Blocked) \<and>
    live_thread (live (bridge_live_cp_stop M b)) = Exited \<and>
    live_job_samples (live (bridge_live_cp_stop M b)) = None \<and>
    \<not> live_worker_running (live (bridge_live_cp_stop M b))"
  using assms
  by (cases "live_thread (live b)")
    (auto simp: mail_ok_def bridge_live_cp_stop_def worker_join_def worker_step_def cond_signal_def worker_finish_def Let_def
      split: option.split)

lemma init_mail_ok: "bridge_init M S = Some b \<Longrightarrow> mail_ok (live b) \<and> live_sync_initialized b = live_enabled b"
  by (auto simp: bridge_init_def bridge_live_cp_start_def mail_ok_def zero_mailbox_def split: if_splits option.splits)

end
