(* ===== verification/Media.thy ===== *)
theory Media
  imports Cpworker
begin

text \<open>
  The invariant of the digital bridge over whole frames: every index stays inside its array, the
  reported events are distinct, the worker's jobs and results speak about samples that were received.
\<close>

section \<open>The invariant\<close>

definition window :: "('d, 'm, 'f, 'r) bridge \<Rightarrow> int list \<Rightarrow> int \<Rightarrow> int \<Rightarrow> bool" where
  "window b s cnt offset \<longleftrightarrow> 0 \<le> offset \<and> 0 \<le> cnt \<and> cnt \<le> CP_LIVE_SEARCH_TAIL \<and> offset + cnt \<le> live_sample_count b \<and>
     s = live_slice b offset cnt"

definition result_ok :: "('d, 'm, 'f, 'r) modem \<Rightarrow> ('d, 'm, 'f, 'r) bridge \<Rightarrow> 'f mailbox \<Rightarrow> bool" where
  "result_ok M b w \<longleftrightarrow> (live_result_ready w \<and> live_result_found w \<longrightarrow>
     (\<exists>s cnt offset meta. window b s cnt offset \<and>
        v90_cp_live_recover M s 1 (baud_code b) (live_result_expected w) = Some (live_diag w, meta) \<and>
        live_meta w = meta\<lparr>frame_sample := frame_sample meta + offset, last_sample := last_sample meta + offset\<rparr>))"

definition window_ok :: "('d, 'm, 'f, 'r) modem \<Rightarrow> ('d, 'm, 'f, 'r) bridge \<Rightarrow> 'f mailbox \<Rightarrow> bool" where
  "window_ok M b w \<longleftrightarrow>
     (\<forall>s. live_job_samples w = Some s \<longrightarrow> window b s (live_job_count w) (live_job_offset w) \<and> live_job_hint w = 1) \<and>
     (\<forall>j s. live_thread w = Recovering j \<longrightarrow> job_samples j = Some s \<longrightarrow> window b s (job_count j) (job_offset j) \<and> job_hint j = 1) \<and>
     result_ok M b w"

definition event_key :: "reported_event \<Rightarrow> int \<times> p3_signal" where
  "event_key e = (ev_start e, ev_type e)"

definition core_ok :: "('d, 'm, 'f, 'r) modem \<Rightarrow> ('d, 'm, 'f, 'r) bridge \<Rightarrow> bool" where
  "core_ok M b \<longleftrightarrow>
     0 \<le> live_sample_count b \<and> live_sample_count b \<le> CP_LIVE_MAX_SAMPLES \<and>
     length (reported b) \<le> MAX_REPORTED_EVENTS \<and> distinct (map event_key (reported b)) \<and>
     length (data_frame b) = DATA_FRAME \<and> data_frame_pos b \<le> DATA_FRAME \<and>
     0 \<le> segment_scan_frames b \<and> segment_scan_frames b < SEGMENT_SCAN_FRAMES \<and>
     0 \<le> live_attempts b \<and> live_attempts b \<le> CP_LIVE_MAX_ATTEMPTS \<and> upstream_begin_at b = - 1 \<and>
     mail_ok (live b) \<and> window_ok M b (live b)"

definition bridge_ok :: "('d, 'm, 'f, 'r) modem \<Rightarrow> ('d, 'm, 'f, 'r) bridge \<Rightarrow> bool" where
  "bridge_ok M b \<longleftrightarrow> callback_ok b \<and> core_ok M b"

section \<open>The worker\<close>

lemma window_of_samples:
  "\<lbrakk>live_samples b' = live_samples b; live_sample_count b' = live_sample_count b\<rbrakk> \<Longrightarrow> window b' = window b"
  by (intro ext) (simp add: window_def live_slice_def)

lemma window_take: "window b s cnt offset \<Longrightarrow> take (nat cnt) s = s"
  by (auto simp: window_def live_slice_def)

lemma window_ok_signal: "window_ok M b w \<Longrightarrow> window_ok M b (cond_signal w)"
  by (simp add: window_ok_def result_ok_def cond_signal_def)

lemma window_ok_step:
  assumes "mail_ok w" "window_ok M b w"
  shows "window_ok M b (worker_step M (baud_code b) w)"
proof (cases "live_thread w")
  case Testing
  then show ?thesis using assms
    by (auto simp: worker_step_def worker_take_def window_ok_def result_ok_def mail_ok_def)
next
  case (Recovering j)
  show ?thesis
  proof (cases "worker_recover M (baud_code b) j")
    case None
    then show ?thesis using assms Recovering
      by (auto simp: worker_step_def worker_finish_def window_ok_def result_ok_def mail_ok_def Let_def)
  next
    case (Some r)
    obtain diag meta where r: "r = (diag, meta)" by fastforce
    obtain s m0 where s: "job_samples j = Some s"
      "v90_cp_live_recover M (take (nat (job_count j)) s) (job_hint j) (baud_code b) (job_expected j) = Some (diag, m0)"
      "meta = m0\<lparr>frame_sample := frame_sample m0 + job_offset j, last_sample := last_sample m0 + job_offset j\<rparr>"
      using Some r by (auto simp: worker_recover_def split: option.splits prod.splits)
    have w: "window b s (job_count j) (job_offset j)" "job_hint j = 1"
      using assms(2) Recovering s(1) by (auto simp: window_ok_def)
    then have "v90_cp_live_recover M s 1 (baud_code b) (job_expected j) = Some (diag, m0)" using s(2) window_take [OF w(1)] by simp
    then have "result_ok M b (worker_finish M (baud_code b) j w)" if "\<not> live_stop w"
      using that w(1) s(3) Some r by (auto simp: result_ok_def worker_finish_def Let_def)
    moreover have "live_job_samples w = None" using assms(1) Recovering by (auto simp: mail_ok_def)
    moreover have "\<not> live_result_ready w" using assms(1) Recovering by (auto simp: mail_ok_def)
    ultimately show ?thesis using Recovering
      by (auto simp: worker_step_def window_ok_def worker_finish_def result_ok_def Let_def split: option.splits)
  qed
qed (use assms in \<open>simp_all add: worker_step_def\<close>)

lemma worker_events_ok:
  "\<lbrakk>mail_ok w; window_ok M b w; baud = baud_code b\<rbrakk> \<Longrightarrow>
     (let w' = fold (\<lambda>e. case e of Proceed \<Rightarrow> worker_step M baud | Spurious \<Rightarrow> cond_signal) es w
      in mail_ok w' \<and> window_ok M b w')"
  by (induction es arbitrary: w)
    (simp_all add: mail_ok_step window_ok_step window_ok_signal Let_def split: worker_event.split)

section \<open>Callbacks keep it\<close>

text \<open>\<open>core_ok\<close> reads nothing the callbacks move.\<close>

lemma core_ok_cong:
  assumes "core b' = core b"
  shows "core_ok M b' = core_ok M b"
proof -
  have f: "live_samples b' = live_samples b" "live_sample_count b' = live_sample_count b" "reported b' = reported b"
    "data_frame b' = data_frame b" "data_frame_pos b' = data_frame_pos b" "segment_scan_frames b' = segment_scan_frames b"
    "live_attempts b' = live_attempts b" "upstream_begin_at b' = upstream_begin_at b" "live b' = live b" "baud_code b' = baud_code b"
    using arg_cong [OF assms, of live_samples] arg_cong [OF assms, of live_sample_count] arg_cong [OF assms, of reported]
      arg_cong [OF assms, of data_frame] arg_cong [OF assms, of data_frame_pos] arg_cong [OF assms, of segment_scan_frames]
      arg_cong [OF assms, of live_attempts] arg_cong [OF assms, of upstream_begin_at] arg_cong [OF assms, of live]
      arg_cong [OF assms, of baud_code] by (simp_all add: core_def)
  then show ?thesis using window_of_samples [OF f(1,2)] by (simp add: core_ok_def window_ok_def result_ok_def)
qed

lemma core_ok_callback_fields [simp]:
  "core_ok M (b\<lparr>v90 := m\<rparr>) = core_ok M b" "core_ok M (b\<lparr>tx_queue := q\<rparr>) = core_ok M b"
  "core_ok M (b\<lparr>tx_consumed_frame := n\<rparr>) = core_ok M b" "core_ok M (b\<lparr>rx_queue := q\<rparr>) = core_ok M b"
  "core_ok M (b\<lparr>upstream_rx_started := t\<rparr>) = core_ok M b" "core_ok M (b\<lparr>upstream_e_ones := z\<rparr>) = core_ok M b"
  "core_ok M (b\<lparr>upstream_e_complete := t\<rparr>) = core_ok M b" "core_ok M (b\<lparr>upstream_e_post_bits := z\<rparr>) = core_ok M b"
  "core_ok M (b\<lparr>upstream_look_for_e := t\<rparr>) = core_ok M b" "core_ok M (b\<lparr>upstream_prepared := t\<rparr>) = core_ok M b"
  by (rule core_ok_cong, simp add: frame_simps)+

interpretation br: callback_invariant M "bridge_ok M" for M
proof
  fix b :: "('a, 'b, 'c, 'd) bridge" and m v diag
  assume "bridge_ok M b"
  then have I: "callback_ok b" and C: "core_ok M b" by (simp_all add: bridge_ok_def)
  note keep = core_ok_cong [THEN iffD2, OF _ C]
  show "bridge_ok M (b\<lparr>v90 := m\<rparr>)"
    using cb_ok.lib [OF I] keep cb_core.lib [of b "core b"] by (simp add: bridge_ok_def)
  show "bridge_ok M (snd (bridge_get_bit b))"
    using cb_ok.get_bit [OF I] keep cb_core.get_bit [of b "core b"] by (simp add: bridge_ok_def)
  show "bridge_ok M (bridge_cp_frame M diag b)"
    using cb_ok.cp_frame [OF I] keep cb_core.cp_frame [of b "core b"] by (simp add: bridge_ok_def)
  show "bridge_ok M (bridge_put_data_bit M v b)"
    using cb_ok.put_data [OF I] keep cb_core.put_data [of b "core b"] by (simp add: bridge_ok_def)
next
  fix b :: "('a, 'b, 'c, 'd) bridge" and v :: int
  assume "bridge_ok M b" "\<not> upstream_rx_started b" "upstream_look_for_e b" "v = 0 \<or> v = 1"
  then show "bridge_ok M (upstream_e_step v b)"
    using cb_ok.e_step [of b v] core_ok_cong [OF cb_core.e_step [of b "core b" v]] by (simp add: bridge_ok_def)
next
  fix b :: "('a, 'b, 'c, 'd) bridge" and m
  assume "bridge_ok M b" "upstream_e_complete b" "2 \<le> upstream_e_post_bits b" "upstream_prepared b"
  then show "bridge_ok M (b\<lparr>v90 := m, upstream_rx_started := True\<rparr>)"
    using cb_ok.begin_data [of b m] by (simp add: bridge_ok_def)
qed

section \<open>Fields that do not matter\<close>

lemma bridge_ok_updates [simp]:
  "bridge_ok M (b\<lparr>demod := x1\<rparr>) = bridge_ok M b" "bridge_ok M (b\<lparr>result := x2\<rparr>) = bridge_ok M b"
  "bridge_ok M (b\<lparr>v90 := x3\<rparr>) = bridge_ok M b" "bridge_ok M (b\<lparr>sample_offset := x4\<rparr>) = bridge_ok M b"
  "bridge_ok M (b\<lparr>live_phase4_hint := x5\<rparr>) = bridge_ok M b" "bridge_ok M (b\<lparr>live_next_try := x6\<rparr>) = bridge_ok M b"
  "bridge_ok M (b\<lparr>live_cp_accepted := x7\<rparr>) = bridge_ok M b" "bridge_ok M (b\<lparr>live_data_cp_accepted := x8\<rparr>) = bridge_ok M b"
  "bridge_ok M (b\<lparr>live_cp_done := x9\<rparr>) = bridge_ok M b" "bridge_ok M (b\<lparr>connected_reported := x10\<rparr>) = bridge_ok M b"
  "bridge_ok M (b\<lparr>connected_sample := x11\<rparr>) = bridge_ok M b" "bridge_ok M (b\<lparr>last_codeword := x12\<rparr>) = bridge_ok M b"
  "bridge_ok M (b\<lparr>data_frames := x13\<rparr>) = bridge_ok M b" "bridge_ok M (b\<lparr>tx_consumed_frame := x14\<rparr>) = bridge_ok M b"
  "bridge_ok M (b\<lparr>upstream_replayed_current_frame := x15\<rparr>) = bridge_ok M b"
  "bridge_ok M (b\<lparr>upstream_prepare_at := x16\<rparr>) = bridge_ok M b"
  "bridge_ok M (b\<lparr>upstream_begin_pending := x17\<rparr>) = bridge_ok M b"
  by (simp_all add: bridge_ok_def callback_ok_def core_ok_def window_ok_def result_ok_def window_def live_slice_def)

lemma bridge_ok_prepared [simp]: "bridge_ok M b \<Longrightarrow> bridge_ok M (b\<lparr>upstream_prepared := True\<rparr>)"
  "bridge_ok M b \<Longrightarrow> bridge_ok M (b\<lparr>upstream_look_for_e := True\<rparr>)"
  "\<lbrakk>bridge_ok M b; upstream_prepared b\<rbrakk> \<Longrightarrow> bridge_ok M (b\<lparr>upstream_rx_started := True\<rparr>)"
  "bridge_ok M b \<Longrightarrow> bridge_ok M (b\<lparr>upstream_e_ones := 0, upstream_e_complete := False, upstream_e_post_bits := 0\<rparr>)"
  by (auto simp: bridge_ok_def callback_ok_def)

lemma bridge_ok_live:
  assumes "bridge_ok M b" "mail_ok w" "window_ok M b w"
  shows "bridge_ok M (b\<lparr>live := w\<rparr>)"
proof -
  have "window_ok M (b\<lparr>live := w\<rparr>) w"
    using assms(3) window_of_samples [of "b\<lparr>live := w\<rparr>" b] by (simp add: window_ok_def result_ok_def)
  moreover have "callback_ok (b\<lparr>live := w\<rparr>) = callback_ok b" by (simp add: callback_ok_def)
  ultimately show ?thesis using assms by (simp add: bridge_ok_def core_ok_def)
qed

lemma bridge_ok_attempt:
  assumes "bridge_ok M b" "live_attempts b < CP_LIVE_MAX_ATTEMPTS"
  shows "bridge_ok M (b\<lparr>live_attempts := live_attempts b + 1\<rparr>)"
proof -
  let ?b = "b\<lparr>live_attempts := live_attempts b + 1\<rparr>"
  have "window_ok M ?b w = window_ok M b w" for w
    using window_of_samples [of ?b b] by (simp add: window_ok_def result_ok_def)
  moreover have "callback_ok ?b = callback_ok b" by (simp add: callback_ok_def)
  ultimately show ?thesis using assms by (simp add: bridge_ok_def core_ok_def)
qed

lemma bridge_ok_prepare [simp]: "bridge_ok M (snd (bridge_prepare M b)) = bridge_ok M b"
  by (simp add: bridge_prepare_def case_prod_unfold Let_def)

lemma bridge_ok_begin [simp]: "bridge_ok M (snd (bridge_begin_upstream_data M b)) = bridge_ok M b"
  by (simp add: bridge_begin_upstream_data_def case_prod_unfold Let_def)

lemma prepared_begin [simp]: "upstream_prepared (snd (bridge_begin_upstream_data M b)) = upstream_prepared b"
  by (simp add: bridge_begin_upstream_data_def case_prod_unfold Let_def)

section \<open>The operations of a frame\<close>

lemma ok_replay [inv_intros]: "bridge_ok M b \<Longrightarrow> bridge_ok M (bridge_replay M at b)"
  unfolding bridge_replay_def Let_def by (simp add: br.v34_rx_keeps)

lemma ok_live_data_cp [inv_intros]: "bridge_ok M b \<Longrightarrow> bridge_ok M (live_data_cp M diag meta b)"
  by (simp add: live_data_cp_def Let_def case_prod_unfold ok_replay)

lemma ok_live_cp_apply [inv_intros]:
  assumes "bridge_ok M b"
  shows "bridge_ok M (bridge_live_cp_apply M b)"
proof -
  have "mail_ok ((live b)\<lparr>live_result_ready := False\<rparr>)" "window_ok M b ((live b)\<lparr>live_result_ready := False\<rparr>)"
    using assms by (auto simp: bridge_ok_def core_ok_def mail_ok_def window_ok_def result_ok_def)
  then have "bridge_ok M (b\<lparr>live := (live b)\<lparr>live_result_ready := False\<rparr>\<rparr>)" using bridge_ok_live [OF assms] by simp
  then show ?thesis using assms by (simp add: bridge_live_cp_apply_def Let_def case_prod_unfold ok_live_data_cp)
qed

text \<open>The scheduled handover of \<^verbatim>\<open>bridge_feed_upstream\<close> is never reached: no operation sets its sample.\<close>

lemma feed_upstream_unscheduled: "bridge_ok M b \<Longrightarrow> bridge_feed_upstream M s at b = bridge_v34_rx M s b"
  by (auto simp: bridge_feed_upstream_def bridge_ok_def core_ok_def Let_def bridge_v34_rx.simps [of M "[]"])

lemma ok_feed_frame [inv_intros]:
  assumes "bridge_ok M b"
  shows "bridge_ok M (feed_frame M linear b)"
proof -
  have "bridge_ok M (feed_delayed M b)"
    using assms by (simp add: feed_delayed_def Let_def case_prod_unfold br.v34_rx_keeps)
  then show ?thesis using assms
    by (simp add: feed_frame_def feed_upstream_unscheduled br.v34_rx_keeps)
qed

lemma ok_live_append [inv_intros]:
  assumes "bridge_ok M b"
  shows "bridge_ok M (live_append linear b)"
proof -
  let ?c = "live_append linear b"
  have c: "core_ok M b" "callback_ok b" using assms by (simp_all add: bridge_ok_def)
  have grow: "live_sample_count b \<le> live_sample_count ?c" "live_sample_count ?c \<le> CP_LIVE_MAX_SAMPLES"
    using c(1) by (auto simp: live_append_def Let_def FRAME_def core_ok_def)
  have old: "live_samples ?c i = live_samples b i" if "int i < live_sample_count b" for i
    using that by (simp add: live_append_def Let_def)
  have slice: "live_slice ?c off n = live_slice b off n" if "off + n \<le> live_sample_count b" "0 \<le> off" "0 \<le> n" for off n
    using that old by (auto simp: live_slice_def)
  then have w: "window b s cnt off \<Longrightarrow> window ?c s cnt off" for s cnt off
    using grow(1) by (auto simp: window_def)
  have same: "live ?c = live b" "reported ?c = reported b" "data_frame ?c = data_frame b" "data_frame_pos ?c = data_frame_pos b"
    "segment_scan_frames ?c = segment_scan_frames b" "live_attempts ?c = live_attempts b" "baud_code ?c = baud_code b"
    "upstream_begin_at ?c = upstream_begin_at b"
    by (simp_all add: live_append_def Let_def)
  have "result_ok M b (live b)" using c(1) by (simp add: core_ok_def window_ok_def)
  then have "result_ok M ?c (live b)" using w unfolding result_ok_def same by blast
  then have "window_ok M ?c (live b)" using c(1) w by (simp add: core_ok_def window_ok_def)
  moreover have "callback_ok ?c" using c(2) by (auto simp: callback_ok_def live_append_def Let_def)
  ultimately show ?thesis using c(1) grow by (simp add: bridge_ok_def core_ok_def same)
qed

lemma ok_worker_run [inv_intros]:
  assumes "bridge_ok M b"
  shows "bridge_ok M (worker_run M es b)"
proof (cases "live_sync_initialized b")
  case True
  define w where "w = fold (\<lambda>e. case e of Proceed \<Rightarrow> worker_step M (baud_code b) | Spurious \<Rightarrow> cond_signal) es (live b)"
  have r: "worker_run M es b = b\<lparr>live := w\<rparr>" using True by (simp add: worker_run_def w_def)
  have "mail_ok w" "window_ok M b w"
    using assms worker_events_ok [of "live b" M b "baud_code b" es] by (simp_all add: w_def bridge_ok_def core_ok_def Let_def)
  then show ?thesis using bridge_ok_live [OF assms] by (simp add: r)
qed (use assms in \<open>simp add: worker_run_def\<close>)

lemma ok_live_cp_try [inv_intros]:
  assumes "bridge_ok M b"
  shows "bridge_ok M (bridge_live_cp_try malloc_ok b)"
proof (cases rule: live_cp_try_cases [of malloc_ok b])
  case (submitted offset)
  let ?w = "cond_signal (submit (live_slice b offset (live_sample_count b - offset)) (live_sample_count b - offset)
    offset (live_cp_accepted b) (live b))"
  have c: "core_ok M b" "callback_ok b" using assms by (simp_all add: bridge_ok_def)
  have "window b (live_slice b offset (live_sample_count b - offset)) (live_sample_count b - offset) offset"
    using c(1) submitted(4) by (auto simp: window_def core_ok_def bridge_consts)
  then have "window_ok M b ?w" using c(1) submitted(1-3)
    by (auto simp: window_ok_def core_ok_def submit_def cond_signal_def result_ok_def)
  moreover have "mail_ok ?w" using c(1) mail_ok_submit [OF _ submitted(2,3)] by (simp add: core_ok_def)
  ultimately have "bridge_ok M (b\<lparr>live := ?w\<rparr>)" using bridge_ok_live [OF assms] by simp
  then show ?thesis using bridge_ok_attempt [of M "b\<lparr>live := ?w\<rparr>"] submitted(6) unfolding submitted(7) by simp
qed (use assms in simp)

section \<open>Events\<close>

lemma ok_report_event: "bridge_ok M b \<Longrightarrow> bridge_ok M (snd (report_event M type b))"
  by (simp add: report_event_def Let_def case_prod_unfold)

lemma reported_report_event [simp]: "reported (snd (report_event M type b)) = reported b"
  by (simp add: report_event_def Let_def case_prod_unfold)

lemma bridge_ok_reported:
  assumes "bridge_ok M b" "length es \<le> MAX_REPORTED_EVENTS" "distinct (map event_key es)"
  shows "bridge_ok M (b\<lparr>reported := es\<rparr>)"
proof -
  let ?b = "b\<lparr>reported := es\<rparr>"
  have "window_ok M ?b w = window_ok M b w" for w
    using window_of_samples [of ?b b] by (simp add: window_ok_def result_ok_def)
  moreover have "callback_ok ?b = callback_ok b" by (simp add: callback_ok_def)
  ultimately show ?thesis using assms by (simp add: bridge_ok_def core_ok_def)
qed

lemma find_event_Some: "find_event s es = Some j \<Longrightarrow> j < length es \<and> event_key (es ! j) = (start_sample s, seg_type s)"
  by (auto simp: find_event_def find_Some_iff same_event_def event_key_def)

lemma find_event_None: "find_event s es = None \<Longrightarrow> (start_sample s, seg_type s) \<notin> event_key ` set es"
  by (auto simp: find_event_def find_None_iff same_event_def event_key_def in_set_conv_nth)

lemma ok_mark_event:
  assumes "bridge_ok M b" "j < length (reported b)" "event_key (reported b ! j) = (start_sample s, seg_type s)"
  shows "bridge_ok M (mark_event M s phase j b)"
proof -
  have "map event_key ((reported b)[j := \<lparr>ev_start = start_sample s, ev_type = seg_type s, last_phase = phase, accepted = ok\<rparr>])
      = map event_key (reported b)" for ok
    using assms(2,3) by (simp add: map_update event_key_def [of "\<lparr>ev_start = _, ev_type = _, last_phase = _, accepted = _\<rparr>"] list_update_same_conv)
  moreover have "length (reported b) \<le> MAX_REPORTED_EVENTS" "distinct (map event_key (reported b))"
    using assms(1) by (simp_all add: bridge_ok_def core_ok_def)
  ultimately show ?thesis using bridge_ok_reported [OF ok_report_event [OF assms(1), of "seg_type s"]]
    by (simp add: mark_event_def case_prod_unfold Let_def)
qed

lemma ok_bridge_event [inv_intros]:
  assumes "bridge_ok M b"
  shows "bridge_ok M (bridge_event M s b)"
proof (cases "find_event s (reported b)")
  case (Some j)
  then show ?thesis using assms find_event_Some [OF Some] ok_mark_event [OF assms, of j s] by (simp add: bridge_event_def Let_def)
next
  case None
  let ?e = "\<lparr>ev_start = start_sample s, ev_type = seg_type s, last_phase = 0, accepted = False\<rparr>"
  have "bridge_ok M (b\<lparr>reported := reported b @ [?e]\<rparr>)" if "length (reported b) < MAX_REPORTED_EVENTS"
    using bridge_ok_reported [OF assms, of "reported b @ [?e]"] that find_event_None [OF None] assms
    by (simp add: bridge_ok_def core_ok_def event_key_def [of ?e])
  then have m: "bridge_ok M (mark_event M s phase (length (reported b)) (b\<lparr>reported := reported b @ [?e]\<rparr>))"
    if "length (reported b) < MAX_REPORTED_EVENTS" for phase
    using that ok_mark_event [of M "b\<lparr>reported := reported b @ [?e]\<rparr>" "length (reported b)" s] by (simp add: event_key_def [of ?e])
  have choice: "bridge_ok M (if c then x else y)" if "c \<Longrightarrow> bridge_ok M x" "\<not> c \<Longrightarrow> bridge_ok M y" for c x y
    using that by simp
  show ?thesis unfolding bridge_event_def Let_def None option.case by (intro choice assms m)
qed

lemma ok_bridge_events [inv_intros]: "bridge_ok M b \<Longrightarrow> bridge_ok M (bridge_events M b)"
proof -
  have "bridge_ok M b \<Longrightarrow> bridge_ok M (fold (\<lambda>i. bridge_event M (f i)) is b)" for "is" :: "nat list" and f b
    by (induction "is" arbitrary: b) (simp_all add: ok_bridge_event)
  then show "bridge_ok M b \<Longrightarrow> bridge_ok M (bridge_events M b)" by (simp add: bridge_events_def case_prod_unfold Let_def)
qed

section \<open>A frame\<close>

lemma ok_scan_segments [inv_intros]:
  assumes "bridge_ok M b"
  shows "bridge_ok M (scan_segments M b)"
proof -
  have "bridge_ok M (b\<lparr>segment_scan_frames := n\<rparr>)" if "0 \<le> n" "n < SEGMENT_SCAN_FRAMES" for n
  proof -
    let ?b = "b\<lparr>segment_scan_frames := n\<rparr>"
    have "window_ok M ?b w = window_ok M b w" for w
      using window_of_samples [of ?b b] by (simp add: window_ok_def result_ok_def)
    moreover have "callback_ok ?b = callback_ok b" by (simp add: callback_ok_def)
    ultimately show ?thesis using assms that by (simp add: bridge_ok_def core_ok_def)
  qed
  moreover have "0 \<le> segment_scan_frames b" using assms by (simp add: bridge_ok_def core_ok_def)
  ultimately show ?thesis using assms
    by (simp add: scan_segments_def Let_def ok_bridge_events SEGMENT_SCAN_FRAMES_def)
qed

lemma ok_small_steps [inv_intros]:
  "bridge_ok M b \<Longrightarrow> bridge_ok M (demodulate M linear b)"
  "bridge_ok M b \<Longrightarrow> bridge_ok M (bridge_note_phase4 M b)"
  "bridge_ok M b \<Longrightarrow> bridge_ok M (note_connected M b)"
  "bridge_ok M b \<Longrightarrow> bridge_ok M (bridge_trim_result b)"
  by (simp_all add: demodulate_def bridge_note_phase4_def note_connected_def bridge_trim_result_def Let_def case_prod_unfold)

lemma ok_bridge_media [inv_intros]: "bridge_ok M b \<Longrightarrow> bridge_ok M (bridge_media M E linear b)"
  unfolding bridge_media_def Let_def by (simp add: inv_intros)

section \<open>Transmission\<close>

primrec all_results :: "('a \<Rightarrow> bool) \<Rightarrow> ('m, 'a) call \<Rightarrow> bool" where
  "all_results P (Ret x m) = P x"
| "all_results P (Get_bit m k) = (\<forall>v m'. all_results P (k v m'))"
| "all_results P (Put_phase4_bit v m k) = (\<forall>m'. all_results P (k m'))"
| "all_results P (Put_data_bit v m k) = (\<forall>m'. all_results P (k m'))"

lemma interact_result: "all_results P c \<Longrightarrow> P (fst (interact M c b))"
proof (induction c arbitrary: b)
  case (Get_bit m k)
  then show ?case using Get_bit.IH [OF rangeI rangeI] by (simp add: case_prod_unfold Let_def)
qed (simp_all add: Let_def)

text \<open>The library writes its codewords into the six bytes of \<^verbatim>\<open>data_frame\<close>.\<close>

definition modem_ok :: "('d, 'm, 'f, 'r) modem \<Rightarrow> bool" where
  "modem_ok M \<longleftrightarrow> (\<forall>data n m. all_results (\<lambda>(_, cw). length cw = DATA_FRAME) (v90_tx_data_frame_codewords M data n m))"

lemma bridge_ok_data_frame:
  assumes "bridge_ok M b" "length cw = DATA_FRAME" "pos \<le> DATA_FRAME"
  shows "bridge_ok M (b\<lparr>data_frame := cw, data_frame_pos := pos\<rparr>)"
proof -
  let ?b = "b\<lparr>data_frame := cw, data_frame_pos := pos\<rparr>"
  have "window_ok M ?b w = window_ok M b w" for w
    using window_of_samples [of ?b b] by (simp add: window_ok_def result_ok_def)
  moreover have "callback_ok ?b = callback_ok b" by (simp add: callback_ok_def)
  ultimately show ?thesis using assms by (simp add: bridge_ok_def core_ok_def)
qed

lemma ok_collect_bits: "bridge_ok M b \<Longrightarrow> bridge_ok M (snd (collect_bits is byte b))"
proof (induction "is" arbitrary: byte b)
  case (Cons i "is")
  then show ?case using br.get_bit [of M b] by (simp add: case_prod_unfold Let_def)
qed simp

lemma ok_collect_bytes: "bridge_ok M b \<Longrightarrow> bridge_ok M (snd (collect_bytes n b))"
  by (induction n arbitrary: b) (simp_all add: case_prod_unfold Let_def ok_collect_bits)

lemma ok_next_data_frame:
  assumes "modem_ok M" "bridge_ok M b"
  shows "bridge_ok M (snd (next_data_frame M b)) \<and> (fst (next_data_frame M b) \<longrightarrow> data_frame_pos (snd (next_data_frame M b)) = 0)"
proof -
  define n where "n = (if v90_data_input_bytes_needed M (v90 b) > 8 then 8 else v90_data_input_bytes_needed M (v90 b))"
  define c where "c = collect_bytes (nat n) b"
  define r where "r = interact M (v90_tx_data_frame_codewords M (fst c @ replicate (8 - nat n) 0) n (v90 (snd c))) (snd c)"
  have r: "bridge_ok M (snd r)" unfolding r_def c_def by (intro br.interact_keeps ok_collect_bytes assms(2))
  have "length (snd (fst r)) = DATA_FRAME"
    using interact_result [OF assms(1) [unfolded modem_ok_def, rule_format]] by (simp add: r_def case_prod_unfold)
  then have f: "bridge_ok M ((snd r)\<lparr>data_frame := snd (fst r), data_frame_pos := pos\<rparr>)" if "pos \<le> DATA_FRAME" for pos
    using bridge_ok_data_frame [OF r] that by simp
  have "data_frame_pos (snd r) \<le> DATA_FRAME" using r by (simp add: bridge_ok_def core_ok_def)
  then have g: "bridge_ok M ((snd r)\<lparr>data_frame := snd (fst r)\<rparr>)" using f [of "data_frame_pos (snd r)"] by simp
  have e: "next_data_frame M b =
     (if fst (fst r) \<noteq> int DATA_FRAME then (False, (snd r)\<lparr>data_frame := snd (fst r)\<rparr>)
      else (True, (snd r)\<lparr>data_frame := snd (fst r), data_frame_pos := 0, data_frames := data_frames (snd r) + 1\<rparr>))"
    by (simp add: next_data_frame_def Let_def case_prod_unfold n_def c_def r_def)
  show ?thesis using g f [of 0] by (simp add: e)
qed

lemma ok_next_codeword:
  assumes "bridge_ok M b" "data_frame_pos b < DATA_FRAME"
  shows "bridge_ok M (snd (next_codeword b))"
  using bridge_ok_data_frame [OF assms(1), of "data_frame b" "data_frame_pos b + 1"] assms
  by (simp add: next_codeword_def bridge_ok_def core_ok_def Let_def callback_ok_def window_ok_def result_ok_def window_def live_slice_def)

lemma length_tx_codewords [simp]: "length (fst (bridge_tx_codewords M n b)) = n"
  by (induction n arbitrary: b) (simp_all add: Let_def case_prod_unfold)

lemma ok_tx_codewords:
  "\<lbrakk>modem_ok M; bridge_ok M b\<rbrakk> \<Longrightarrow> bridge_ok M (snd (bridge_tx_codewords M n b))"
proof (induction n arbitrary: b)
  case (Suc n)
  show ?case
  proof (cases "v90_training_complete M (v90 b)")
    case True
    define d where "d = (if data_frame_pos b \<ge> DATA_FRAME then next_data_frame M b else (True, b))"
    have d: "bridge_ok M (snd d)" "fst d \<Longrightarrow> data_frame_pos (snd d) < DATA_FRAME"
      using ok_next_data_frame [OF Suc.prems] Suc.prems(2) by (auto simp: d_def DATA_FRAME_def)
    have e: "bridge_tx_codewords M (Suc n) b = (if \<not> fst d then (replicate (Suc n) (last_codeword (snd d)), snd d)
       else (fst (next_codeword (snd d)) # fst (bridge_tx_codewords M n (snd (next_codeword (snd d)))),
             snd (bridge_tx_codewords M n (snd (next_codeword (snd d))))))"
      using True by (simp add: d_def case_prod_unfold Let_def)
    show ?thesis unfolding e using d Suc.IH [OF Suc.prems(1) ok_next_codeword [OF d]] by (simp del: bridge_tx_codewords.simps)
  next
    case False
    have "bridge_ok M (snd (interact M (v90_phase3_tx_codewords M (v90 b)) b))" by (rule br.interact_keeps [OF Suc.prems(2)])
    then show ?thesis using False Suc by (simp add: case_prod_unfold Let_def)
  qed
qed simp

section \<open>Reachable bridges\<close>

lemma init_bridge_ok: "bridge_init M S = Some b \<Longrightarrow> bridge_ok M b"
proof -
  assume i: "bridge_init M S = Some b"
  have "live_sample_count b = 0 \<and> reported b = [] \<and> length (data_frame b) = DATA_FRAME \<and> data_frame_pos b = DATA_FRAME \<and>
      segment_scan_frames b = 0 \<and> live_attempts b = 0 \<and> upstream_begin_at b = - 1 \<and> live_job_samples (live b) = None \<and>
      (\<forall>j. live_thread (live b) \<noteq> Recovering j) \<and> \<not> live_result_ready (live b)"
    using i by (auto simp: bridge_init_def bridge_live_cp_start_def zero_mailbox_def split: if_splits option.splits)
  then show ?thesis using init_callback_ok [OF i] init_mail_ok [OF i]
    by (simp add: bridge_ok_def core_ok_def window_ok_def result_ok_def bridge_consts)
qed

text \<open>The bridges the program can have, between any two steps of its loop and after any steps of the worker.\<close>

inductive bridge_reach :: "('d, 'm, 'f, 'r) modem \<Rightarrow> ('d, 'm, 'f, 'r) bridge \<Rightarrow> bool" for M where
  init: "bridge_init M S = Some b \<Longrightarrow> bridge_reach M b"
| queue: "bridge_reach M b \<Longrightarrow> bridge_reach M (bridge_queue_input packet b)"
| media: "bridge_reach M b \<Longrightarrow> bridge_reach M (bridge_media M E linear b)"
| codewords: "bridge_reach M b \<Longrightarrow> bridge_reach M (snd (bridge_tx_codewords M n b))"
| packet: "bridge_reach M b \<Longrightarrow> bridge_reach M (snd (data_packet M b))"
| worker: "bridge_reach M b \<Longrightarrow> bridge_reach M (worker_run M es b)"

lemma queue_loop_ok:
  "\<lbrakk>ring_ok r; set (ring_bits r) \<subseteq> {0, 1}\<rbrakk> \<Longrightarrow> ring_ok (queue_loop packed is r) \<and> set (ring_bits (queue_loop packed is r)) \<subseteq> {0, 1}"
proof (induction "is" arbitrary: r)
  case (Cons i "is")
  have "drop_bit (i mod 8) (packed ! (i div 8)) AND 1 \<in> {0, 1 :: u8}" by (auto simp: and_one_eq mod_2_eq_odd)
  then show ?case using Cons ring_bits_put [OF Cons.prems] by simp
qed simp

lemma ok_queue_input: "bridge_ok M b \<Longrightarrow> bridge_ok M (bridge_queue_input packet b)"
  using queue_loop_ok [of "tx_queue b"] by (auto simp: bridge_queue_input_def queue_input_def bridge_ok_def callback_ok_def)

lemma ok_data_packet: "bridge_ok M b \<Longrightarrow> bridge_ok M (snd (data_packet M b))"
proof -
  assume b: "bridge_ok M b"
  then have r: "ring_ok (rx_queue b)" "set (ring_bits (rx_queue b)) \<subseteq> {0, 1}" by (simp_all add: bridge_ok_def callback_ok_def)
  obtain packed q n where q: "pack_output (rx_queue b) = (n, packed, q)" "ring_ok q" "ring_bits q = drop n (ring_bits (rx_queue b))"
    using pack_output_bits [OF r] by metis
  then have "set (ring_bits q) \<subseteq> {0, 1}" using r(2) set_drop_subset by fastforce
  then have "callback_ok (b\<lparr>rx_queue := q\<rparr>)" using b q(2) by (auto simp: bridge_ok_def callback_ok_def)
  then show ?thesis using b q(1) by (simp add: data_packet_def bridge_ok_def Let_def)
qed

lemma reach_ok: "\<lbrakk>bridge_reach M b; modem_ok M\<rbrakk> \<Longrightarrow> bridge_ok M b"
  by (induction rule: bridge_reach.induct)
    (simp_all add: init_bridge_ok ok_queue_input ok_bridge_media ok_tx_codewords ok_data_packet ok_worker_run)

lemma frame_reach: "bridge_reach M b \<Longrightarrow> bridge_reach M (snd (snd (snd (bridge_frame M ds E chunk mtime b))))"
  by (auto simp: bridge_frame_def bridge_reset_if_requested_def Let_def case_prod_unfold
      intro: bridge_reach.intros split: option.splits if_splits)

lemma loop_reach: "bridge_reach M b \<Longrightarrow> bridge_reach M (snd (bridge_loop M ds E k stdin mtime b))"
proof (induction "length stdin" arbitrary: k stdin mtime b rule: less_induct)
  case less
  obtain out go mt b' where f: "bridge_frame M ds (E k) (take (chunk_size ds) stdin) mtime b = (out, go, mt, b')"
    by (cases "bridge_frame M ds (E k) (take (chunk_size ds) stdin) mtime b") blast
  have "bridge_reach M b'" using frame_reach [OF less.prems, of ds "E k" "take (chunk_size ds) stdin" mtime] by (simp add: f)
  moreover have "length (drop (chunk_size ds) stdin) < length stdin" if "\<not> length stdin < chunk_size ds"
    using that by (cases ds) (simp_all add: chunk_size_def FRAME_def)
  ultimately show ?case using less.hyps [of "drop (chunk_size ds) stdin" b'] less.prems
    by (subst bridge_loop.simps) (simp add: f case_prod_unfold Let_def)
qed

text \<open>
  C29. The bridge stays in bounds.  In every state the program reaches, for any input, surroundings and
  interleaving of the worker, both bit queues are well formed and hold bits, the sample history, the
  table of reported events and the data frame are within their arrays, no event is in the table
  twice, at most one of a job, a running recovery and a result is there, and reception has not
  started without a prepared receiver.
\<close>

theorem bridge_in_bounds:
  assumes "bridge_reach M b" "modem_ok M"
  shows "ring_ok (tx_queue b) \<and> ring_ok (rx_queue b) \<and> set (ring_bits (tx_queue b)) \<union> set (ring_bits (rx_queue b)) \<subseteq> {0, 1} \<and>
    0 \<le> live_sample_count b \<and> live_sample_count b \<le> CP_LIVE_MAX_SAMPLES \<and>
    length (reported b) \<le> MAX_REPORTED_EVENTS \<and> distinct (map event_key (reported b)) \<and>
    length (data_frame b) = DATA_FRAME \<and> data_frame_pos b \<le> DATA_FRAME \<and> live_attempts b \<le> CP_LIVE_MAX_ATTEMPTS \<and>
    of_bool (live_job (live b)) + of_bool (live_worker_running (live b)) + of_bool (live_result_ready (live b)) \<le> (1 :: nat) \<and>
    (upstream_rx_started b \<longrightarrow> upstream_prepared b)"
  using reach_ok [OF assms] by (auto simp: bridge_ok_def core_ok_def callback_ok_def mail_ok_def)

lemma small_modem_ok: "modem_ok small_modem"
  by (auto simp: modem_ok_def small_modem_def DATA_FRAME_def)

theorem bridge_in_bounds_witness:
  "data_frame_pos (snd (bridge_tx_codewords small_modem 9 small_bridge)) \<le> DATA_FRAME"
  using bridge_in_bounds [OF codewords [OF init [OF small_bridge_init]] small_modem_ok, of 9] by simp

text \<open>
  C32. The condition variable loses no wake-up and stopping ends.  In every state the program reaches,
  whatever the interleaving, a pending job or a stop request never meets a worker blocked on the
  condition variable; and stopping the bridge joins the worker: after the stop request two of its steps
  bring it to its end whatever it was doing, with no recovery running and no snapshot left over.
\<close>

theorem stop_joins:
  assumes "bridge_reach M b" "modem_ok M" "live_sync_initialized b"
  shows "(live_job (live b) \<or> live_stop (live b) \<longrightarrow> live_thread (live b) \<noteq> Blocked) \<and>
    live_thread (live (bridge_live_cp_stop M b)) = Exited \<and>
    live_job_samples (live (bridge_live_cp_stop M b)) = None \<and>
    \<not> live_worker_running (live (bridge_live_cp_stop M b))"
  using mail_stop_joins [OF _ assms(3), of M] reach_ok [OF assms(1,2)] by (simp add: bridge_ok_def core_ok_def)

theorem stop_joins_witness:
  "live_thread (live (bridge_live_cp_stop small_modem small_bridge)) = Exited"
proof -
  have "live_sync_initialized small_bridge" by code_simp
  then show ?thesis using stop_joins [OF init [OF small_bridge_init] small_modem_ok] by simp
qed

text \<open>
  C33. A recovered CP frame comes from the samples that were received.  Whenever the worker's result is
  ready and a frame was found, the frame is what the recovery gives on at most 2000 consecutive
  samples of the history, and the sample positions handed to the main thread are positions in the
  whole stream, not in the snapshot.
\<close>

theorem live_result_from_history:
  assumes "bridge_reach M b" "modem_ok M" "live_result_ready (live b)" "live_result_found (live b)"
  shows "\<exists>offset cnt meta. 0 \<le> offset \<and> 0 \<le> cnt \<and> cnt \<le> CP_LIVE_SEARCH_TAIL \<and> offset + cnt \<le> live_sample_count b \<and>
    v90_cp_live_recover M (map (live_samples b) [nat offset..<nat (offset + cnt)]) 1 (baud_code b) (live_result_expected (live b))
      = Some (live_diag (live b), meta) \<and>
    frame_sample (live_meta (live b)) = frame_sample meta + offset \<and>
    last_sample (live_meta (live b)) = last_sample meta + offset"
proof -
  have "result_ok M b (live b)" using reach_ok [OF assms(1,2)] by (simp add: bridge_ok_def core_ok_def window_ok_def)
  then obtain offset cnt meta where "0 \<le> offset" "0 \<le> cnt" "cnt \<le> CP_LIVE_SEARCH_TAIL" "offset + cnt \<le> live_sample_count b"
    "v90_cp_live_recover M (live_slice b offset cnt) 1 (baud_code b) (live_result_expected (live b)) = Some (live_diag (live b), meta)"
    "live_meta (live b) = meta\<lparr>frame_sample := frame_sample meta + offset, last_sample := last_sample meta + offset\<rparr>"
    using assms(3,4) by (auto simp: result_ok_def window_def)
  then show ?thesis by (intro exI [of _ offset] exI [of _ cnt] exI [of _ meta]) (simp add: live_slice_def)
qed

text \<open>Six frames of silence, after which the bridge has asked for a recovery, and the worker's answer.\<close>

definition quiet :: surroundings where
  "quiet = \<lparr>start = small_startup, reset_mtime = None, snapshot_ok = True, before_copy = [], before_apply = [],
     before_try = [], codewords_written = True, data_written = True\<rparr>"

definition answered :: "(unit, nat, bool, int) bridge" where
  "answered = worker_run small_modem [Proceed, Proceed]
     ((bridge_media small_modem quiet (replicate 160 0) ^^ 6) small_bridge)"

lemma answered_reach: "bridge_reach small_modem answered"
proof -
  have "bridge_reach small_modem ((bridge_media small_modem quiet (replicate 160 0) ^^ n) small_bridge)" for n
    by (induction n) (simp_all add: bridge_reach.media bridge_reach.init [OF small_bridge_init])
  then show ?thesis unfolding answered_def by (rule bridge_reach.worker)
qed

text \<open>The fields of the live search; calls of the library leave them alone.\<close>

definition live_fields :: "('d, 'm, 'f, 'r) bridge \<Rightarrow> 'f mailbox \<times> int \<times> int \<times> int \<times> int \<times> bool \<times> bool \<times> bool \<times> bool" where
  "live_fields b = (live b, live_sample_count b, live_phase4_hint b, live_next_try b, live_attempts b,
     live_cp_done b, live_enabled b, connected_reported b, live_sync_initialized b)"

lemma live_fields_core: "live_fields b = live_fields (core b)"
  by (simp add: live_fields_def core_def)

lemma live_fields_v34_rx: "live_fields (bridge_v34_rx M s b) = live_fields b"
  using cb_core.v34_rx_keeps [of b "core b" M s] live_fields_core by metis

lemma live_fields_calls [simp]:
  "live_fields (snd (bridge_prepare M b)) = live_fields b" "live_fields (snd (bridge_begin_upstream_data M b)) = live_fields b"
  "live_fields (b\<lparr>upstream_prepared := t\<rparr>) = live_fields b" "live_fields (b\<lparr>upstream_rx_started := t\<rparr>) = live_fields b"
  "live_fields (b\<lparr>upstream_begin_pending := t\<rparr>) = live_fields b"
  "live_fields (b\<lparr>upstream_replayed_current_frame := t\<rparr>) = live_fields b"
  by (simp_all add: live_fields_def bridge_prepare_def bridge_begin_upstream_data_def Let_def case_prod_unfold)

lemma live_fields_feed: "bridge_ok M b \<Longrightarrow> live_fields (feed_frame M l b) = live_fields b"
  by (simp add: feed_frame_def feed_delayed_def feed_upstream_unscheduled Let_def case_prod_unfold live_fields_v34_rx)

text \<open>The bridge has seen \<open>n\<close> frames, is enabled and has asked for nothing yet.\<close>

definition waiting :: "int \<Rightarrow> ('d, 'm, 'f, 'r) bridge \<Rightarrow> bool" where
  "waiting n b \<longleftrightarrow> live_enabled b \<and> live_sync_initialized b \<and> \<not> connected_reported b \<and> \<not> live_cp_done b \<and> live_attempts b = 0 \<and>
     live_sample_count b = 160 * n \<and> \<not> live_job (live b) \<and> \<not> live_worker_running (live b) \<and> \<not> live_result_ready (live b) \<and>
     \<not> live_stop (live b) \<and> live_thread (live b) = Testing \<and>
     (if n = 0 then live_phase4_hint b < 0 else live_phase4_hint b = 160 \<and> live_next_try b = 960)"

lemma worker_run_Nil [simp]: "worker_run M [] b = b"
  by (simp add: worker_run_def)

lemma waiting_media:
  fixes l :: "int list"
  assumes "waiting n b" "bridge_ok small_modem b" "0 \<le> n" "n \<le> 5"
  defines "c \<equiv> bridge_media small_modem quiet l b"
  shows "if n < 5 then waiting (n + 1) c
    else live_job (live c) \<and> live_thread (live c) = Testing \<and> \<not> live_stop (live c) \<and> live_sync_initialized c"
proof -
  let ?M = small_modem
  have M: "v90_get_tx_phase ?M m = 3" "V90_TX_RI ?M = 3" "V90_TX_DATA ?M = 9" "\<not> v90_training_complete ?M m"
    "p3_segment_symbols (p3 ?M) r = (0, r)" for m r by (simp_all add: small_modem_def sample_demod_def)
  define b1 where "b1 = demodulate ?M l (live_append l b)"
  have 1: "live_fields b1 = live_fields (b\<lparr>live_sample_count := 160 * n + 160\<rparr>)"
    using assms(1,3,4) by (simp add: b1_def demodulate_def live_append_def waiting_def live_fields_def Let_def case_prod_unfold bridge_consts)
  have ok: "bridge_ok ?M b1" unfolding b1_def by (intro inv_intros assms(2))
  define b2 where "b2 = feed_frame ?M l b1"
  have 2: "live_fields b2 = live_fields (b\<lparr>live_sample_count := 160 * n + 160\<rparr>)" using live_fields_feed [OF ok] 1 by (simp add: b2_def)
  define b3 where "b3 = scan_segments ?M (b2\<lparr>sample_offset := sample_offset b2 + int FRAME\<rparr>)"
  have 3: "live_fields b3 = live_fields (b\<lparr>live_sample_count := 160 * n + 160\<rparr>)"
    using 2 by (simp add: b3_def scan_segments_def bridge_events_def M live_fields_def Let_def)
  have e: "c = bridge_trim_result (note_connected ?M (bridge_live_cp_try True (bridge_note_phase4 ?M b3)))"
    using 1 3 assms(1) by (simp add: c_def bridge_media_def quiet_def b1_def [symmetric] bridge_live_cp_apply_def
      b2_def [symmetric] b3_def [symmetric] Let_def live_fields_def waiting_def)
  show ?thesis using 3 assms(1,3,4)
    by (simp add: e bridge_trim_result_def note_connected_def M bridge_note_phase4_def bridge_live_cp_try_def live_fields_def waiting_def
      cond_signal_def bridge_consts Let_def) (auto split: if_splits)
qed

lemma init_waiting: "\<lbrakk>bridge_init M S = Some b; live_enabled b\<rbrakk> \<Longrightarrow> waiting 0 b"
  by (auto simp: waiting_def bridge_init_def bridge_live_cp_start_def zero_mailbox_def split: if_splits option.splits)

lemma waiting_frames:
  "n \<le> 5 \<Longrightarrow> waiting (int n) ((bridge_media small_modem quiet l ^^ n) small_bridge) \<and>
     bridge_ok small_modem ((bridge_media small_modem quiet l ^^ n) small_bridge)"
proof (induction n)
  case 0
  have "live_enabled small_bridge" by code_simp
  then have "waiting 0 small_bridge" by (rule init_waiting [OF small_bridge_init])
  then show ?case using init_bridge_ok [OF small_bridge_init] by simp
next
  case (Suc n)
  then show ?case using waiting_media [of "int n" "(bridge_media small_modem quiet l ^^ n) small_bridge" l]
    by (simp add: ok_bridge_media add.commute)
qed

lemma answered_ready: "live_result_ready (live answered) \<and> live_result_found (live answered)"
proof -
  let ?c = "(bridge_media small_modem quiet (replicate 160 0) ^^ 6) small_bridge"
  have w: "live_job (live ?c)" "live_thread (live ?c) = Testing" "\<not> live_stop (live ?c)" "live_sync_initialized ?c"
    using waiting_media [of 5 "(bridge_media small_modem quiet (replicate 160 0) ^^ 5) small_bridge" "replicate 160 0"]
      waiting_frames [of 5 "replicate 160 0"] by (simp_all add: eval_nat_numeral)
  have "bridge_ok small_modem ((bridge_media small_modem quiet l ^^ n) small_bridge)" for n l
    by (induction n) (simp_all add: ok_bridge_media init_bridge_ok [OF small_bridge_init])
  moreover note w
  ultimately have "live_job_samples (live ?c) \<noteq> None" by (simp add: bridge_ok_def core_ok_def mail_ok_def)
  then show ?thesis using w
    by (auto simp: answered_def worker_run_def worker_step_def worker_take_def worker_finish_def worker_recover_def small_modem_def Let_def)
qed

theorem live_result_from_history_witness:
  "\<exists>offset cnt. offset + cnt \<le> live_sample_count answered \<and> cnt \<le> CP_LIVE_SEARCH_TAIL \<and>
     last_sample (live_meta (live answered)) = offset + cnt"
proof -
  from live_result_from_history [OF answered_reach small_modem_ok] answered_ready obtain offset cnt meta
    where "0 \<le> offset" "0 \<le> cnt" "cnt \<le> CP_LIVE_SEARCH_TAIL" "offset + cnt \<le> live_sample_count answered"
      "v90_cp_live_recover small_modem (map (live_samples answered) [nat offset..<nat (offset + cnt)]) 1 (baud_code answered)
        (live_result_expected (live answered)) = Some (live_diag (live answered), meta)"
      "last_sample (live_meta (live answered)) = last_sample meta + offset"
    by blast
  then show ?thesis by (intro exI [of _ offset] exI [of _ cnt]) (auto simp: small_modem_def)
qed

section \<open>Lock step\<close>

lemma length_pack_loop: "length (fst (pack_loop is packed r)) = length packed"
  by (induction "is" packed r rule: pack_loop.induct) simp_all

lemma length_data_packet: "length (fst (data_packet M b)) = PACKET"
  using length_pack_loop [of _ "replicate DATA_BYTES 0"]
  by (simp add: data_packet_def pack_output_def case_prod_unfold Let_def header_half_def PACKET_def)

lemma frame_output:
  "bridge_frame M ds E chunk mtime b = (out, True, mt, b') \<Longrightarrow> length out = chunk_size ds"
  by (auto simp: bridge_frame_def chunk_size_def Let_def case_prod_unfold length_data_packet split: option.splits if_splits)

text \<open>The surroundings let the program go on: nothing fails to be written, and a reset succeeds.\<close>

definition goes_on :: "('d, 'm, 'f, 'r) modem \<Rightarrow> surroundings \<Rightarrow> bool" where
  "goes_on M E \<longleftrightarrow> codewords_written E \<and> data_written E \<and> bridge_init M (start E) \<noteq> None"

lemma frame_goes_on: "goes_on M E \<Longrightarrow> fst (snd (bridge_frame M ds E chunk mtime b))"
  by (auto simp: goes_on_def bridge_frame_def bridge_reset_if_requested_def Let_def case_prod_unfold split: option.splits)

lemma loop_output:
  assumes "\<forall>k. goes_on M (E k)"
  shows "length (fst (bridge_loop M ds E k stdin mtime b)) = length stdin div chunk_size ds * chunk_size ds"
proof (induction "length stdin" arbitrary: k stdin mtime b rule: less_induct)
  case less
  have p: "0 < chunk_size ds" by (cases ds) (simp_all add: chunk_size_def FRAME_def)
  obtain out go mt b' where f: "bridge_frame M ds (E k) (take (chunk_size ds) stdin) mtime b = (out, go, mt, b')"
    by (cases "bridge_frame M ds (E k) (take (chunk_size ds) stdin) mtime b") blast
  have g: "go" using frame_goes_on [of M "E k" ds "take (chunk_size ds) stdin" mtime b] assms f by simp
  show ?case
  proof (cases "length stdin < chunk_size ds")
    case False
    then have "length (fst (bridge_loop M ds E (Suc k) (drop (chunk_size ds) stdin) mt b')) =
        (length stdin - chunk_size ds) div chunk_size ds * chunk_size ds"
      using less [of "drop (chunk_size ds) stdin"] p by simp
    moreover have "length stdin div chunk_size ds = Suc ((length stdin - chunk_size ds) div chunk_size ds)"
      using False p by (simp add: le_div_geq)
    ultimately show ?thesis using False f g frame_output [of M ds "E k" "take (chunk_size ds) stdin" mtime b out mt b']
      by (subst bridge_loop.simps) (simp add: case_prod_unfold Let_def)
  qed (subst bridge_loop.simps, simp)
qed

text \<open>
  C34. The bridge answers every frame.  As long as writing and re-initialising succeed, the program
  writes exactly as many bytes as it reads, rounded down to whole frames (160 codewords, and in the
  data stream a packet of 260 bytes with them), whatever the modem library answers; it ends with
  status 0.
\<close>

theorem bridge_lock_step:
  assumes "\<forall>k. goes_on M (E k)" "bridge_args args None False = Some (reset_file, ds)"
  shows "fst (bridge_main M E stat args stdin) = 0 \<and>
    length (snd (bridge_main M E stat args stdin)) = length stdin - length stdin mod chunk_size ds"
proof -
  have "\<forall>k. goes_on M ((E k)\<lparr>reset_mtime := Option.bind reset_file (stat k)\<rparr>)"
    using assms(1) by (simp add: goes_on_def)
  moreover obtain b where "bridge_init M (start (E 0)) = Some b" using assms(1) by (auto simp: goes_on_def)
  ultimately show ?thesis using assms(2) loop_output [of M "\<lambda>k. (E k)\<lparr>reset_mtime := Option.bind reset_file (stat k)\<rparr>"]
    by (simp add: bridge_main_def minus_mod_eq_div_mult)
qed

theorem bridge_lock_step_witness:
  "fst (bridge_main small_modem (\<lambda>_. quiet) (\<lambda>_ _. None) [''--stream'', ''--data-stream''] (replicate 1000 0xff)) = 0 \<and>
   length (snd (bridge_main small_modem (\<lambda>_. quiet) (\<lambda>_ _. None) [''--stream'', ''--data-stream''] (replicate 1000 0xff))) = 840"
proof -
  have "goes_on small_modem quiet" using small_bridge_init by (simp add: goes_on_def quiet_def)
  then show ?thesis
    using bridge_lock_step [of small_modem "\<lambda>_. quiet" "[''--stream'', ''--data-stream'']" None True "\<lambda>_ _. None" "replicate 1000 0xff"]
    by (simp add: chunk_size_def FRAME_def PACKET_def DATA_BYTES_def)
qed

end
