(* ===== verification/Start.thy ===== *)
theory Start
  imports Handover Media
begin

text \<open>
  How the data receiver of the digital bridge gets started, over all of the program: by the recovered
  bits after E, or by the delayed feed of \<^verbatim>\<open>main\<close> once a CP of data mode has been accepted.
\<close>

section \<open>The invariant\<close>

definition start_ok :: "('d, 'm, 'f, 'r) bridge \<Rightarrow> bool" where
  "start_ok b \<longleftrightarrow>
     (upstream_rx_started b \<longrightarrow>
        upstream_e_complete b \<and> 2 \<le> upstream_e_post_bits b \<or> 0 < upstream_audio_delay b \<and> live_data_cp_accepted b) \<and>
     (upstream_begin_pending b \<longrightarrow> live_data_cp_accepted b)"

interpretation st: callback_invariant M start_ok for M
  by unfold_locales
    (simp_all add: start_ok_def bridge_get_bit_def bridge_cp_frame_def bridge_prepare_def upstream_e_step_def
      bridge_put_data_bit_def Let_def case_prod_unfold)

text \<open>Fields the invariant does not read.\<close>

lemma start_ok_fields [simp]:
  "start_ok (b\<lparr>v90 := x1\<rparr>) = start_ok b" "start_ok (b\<lparr>tx_queue := q\<rparr>) = start_ok b"
  "start_ok (b\<lparr>tx_consumed_frame := x2\<rparr>) = start_ok b" "start_ok (b\<lparr>rx_queue := q\<rparr>) = start_ok b"
  "start_ok (b\<lparr>upstream_look_for_e := t\<rparr>) = start_ok b" "start_ok (b\<lparr>upstream_prepared := t\<rparr>) = start_ok b"
  "start_ok (b\<lparr>upstream_prepare_at := x3\<rparr>) = start_ok b" "start_ok (b\<lparr>live_cp_done := t\<rparr>) = start_ok b"
  "start_ok (b\<lparr>live_cp_accepted := t\<rparr>) = start_ok b" "start_ok (b\<lparr>live := w\<rparr>) = start_ok b"
  "start_ok (b\<lparr>live_attempts := x4\<rparr>) = start_ok b" "start_ok (b\<lparr>live_next_try := x5\<rparr>) = start_ok b"
  "start_ok (b\<lparr>live_phase4_hint := x6\<rparr>) = start_ok b" "start_ok (b\<lparr>reported := es\<rparr>) = start_ok b"
  "start_ok (b\<lparr>result := r\<rparr>) = start_ok b" "start_ok (b\<lparr>demod := d\<rparr>) = start_ok b"
  "start_ok (b\<lparr>data_frame := f\<rparr>) = start_ok b" "start_ok (b\<lparr>data_frame_pos := p\<rparr>) = start_ok b"
  "start_ok (b\<lparr>data_frames := n\<rparr>) = start_ok b" "start_ok (b\<lparr>last_codeword := c\<rparr>) = start_ok b"
  "start_ok (b\<lparr>connected_reported := t\<rparr>) = start_ok b" "start_ok (b\<lparr>connected_sample := x7\<rparr>) = start_ok b"
  "start_ok (b\<lparr>segment_scan_frames := x8\<rparr>) = start_ok b" "start_ok (b\<lparr>sample_offset := x9\<rparr>) = start_ok b"
  "start_ok (b\<lparr>live_samples := ss\<rparr>) = start_ok b" "start_ok (b\<lparr>live_sample_count := x10\<rparr>) = start_ok b"
  "start_ok (b\<lparr>upstream_replayed_current_frame := t\<rparr>) = start_ok b"
  by (simp_all add: start_ok_def)

section \<open>The CP of data mode\<close>

lemma start_replay: "\<lbrakk>start_ok b; \<not> upstream_rx_started b\<rbrakk> \<Longrightarrow> start_ok (bridge_replay M at b)"
  unfolding bridge_replay_def Let_def by (simp only: start_ok_fields, rule st.v34_rx_keeps) (simp add: start_ok_def)

lemma start_prepare [simp]:
  "start_ok (snd (bridge_prepare M b)) = start_ok b"
  "upstream_rx_started (snd (bridge_prepare M b)) = upstream_rx_started b"
  "upstream_prepared (snd (bridge_prepare M b)) = upstream_prepared b"
  "live_sample_count (snd (bridge_prepare M b)) = live_sample_count b"
  by (simp_all add: bridge_prepare_def Let_def case_prod_unfold)

text \<open>A replay follows a preparation made just now, so reception has not started yet.\<close>

lemma start_live_data_cp:
  assumes "start_ok b" "upstream_rx_started b \<longrightarrow> upstream_prepared b"
  shows "start_ok (live_data_cp M diag meta b)"
proof -
  have "start_ok (b\<lparr>live_data_cp_accepted := True, upstream_look_for_e := True, upstream_begin_pending := True\<rparr>)"
    using assms(1) by (auto simp: start_ok_def)
  then show ?thesis using assms(2)
    by (auto simp: live_data_cp_def Let_def case_prod_unfold intro!: start_replay)
qed

lemma start_live_cp_apply:
  "\<lbrakk>start_ok b; callback_ok b\<rbrakk> \<Longrightarrow> start_ok (bridge_live_cp_apply M b)"
  by (auto simp: bridge_live_cp_apply_def Let_def case_prod_unfold callback_ok_def intro!: start_live_data_cp)

section \<open>Feeding the receiver\<close>

lemma start_feed_delayed:
  assumes "start_ok b" "0 < upstream_audio_delay b"
  shows "start_ok (feed_delayed M b)"
proof -
  have "start_ok (b'\<lparr>v90 := m, upstream_rx_started := True, upstream_begin_pending := False\<rparr>)"
    if "start_ok b'" "0 < upstream_audio_delay b'" "upstream_begin_pending b'" for b' :: "('a, 'b, 'c, 'd) bridge" and m
    using that by (simp add: start_ok_def)
  moreover have "upstream_audio_delay (snd (bridge_prepare M b)) = upstream_audio_delay b"
    by (simp add: bridge_prepare_def Let_def case_prod_unfold)
  ultimately show ?thesis using assms
    by (simp add: feed_delayed_def bridge_begin_upstream_data_def Let_def case_prod_unfold st.v34_rx_keeps)
qed

lemma start_feed_frame: "\<lbrakk>start_ok b; bridge_ok M b\<rbrakk> \<Longrightarrow> start_ok (feed_frame M linear b)"
  by (simp add: feed_frame_def start_feed_delayed feed_upstream_unscheduled st.v34_rx_keeps)

section \<open>The rest of a frame\<close>

lemma start_small_steps [simp]:
  "start_ok (live_append linear b) = start_ok b" "start_ok (worker_run M es b) = start_ok b"
  "start_ok (demodulate M linear b) = start_ok b" "start_ok (bridge_live_cp_try ok b) = start_ok b"
  "start_ok (bridge_note_phase4 M b) = start_ok b" "start_ok (note_connected M b) = start_ok b"
  "start_ok (bridge_trim_result b) = start_ok b" "start_ok (mark_event M s phase j b) = start_ok b"
  by (simp_all add: live_append_def worker_run_def demodulate_def bridge_live_cp_try_def bridge_note_phase4_def
      note_connected_def bridge_trim_result_def mark_event_def report_event_def Let_def case_prod_unfold)

lemma start_scan_segments: "start_ok b \<Longrightarrow> start_ok (scan_segments M b)"
proof -
  have "start_ok b \<Longrightarrow> start_ok (fold (\<lambda>i. bridge_event M (f i)) is b)" for "is" :: "nat list" and f b
    by (induction "is" arbitrary: b) (simp_all add: bridge_event_def Let_def split: option.split)
  then show "start_ok b \<Longrightarrow> start_ok (scan_segments M b)"
    by (simp add: scan_segments_def bridge_events_def Let_def case_prod_unfold)
qed

lemma start_media:
  assumes "start_ok b" "bridge_ok M b"
  shows "start_ok (bridge_media M E linear b)"
proof -
  define c where "c = worker_run M (before_apply E) (demodulate M linear (live_append linear (worker_run M (before_copy E) b)))"
  define d where "d = (if connected_reported c then c else bridge_live_cp_apply M c)"
  have c: "start_ok c" "bridge_ok M c" using assms by (simp_all add: c_def inv_intros)
  then have "start_ok d" "bridge_ok M d"
    using start_live_cp_apply [of c M] by (simp_all add: d_def bridge_ok_def [of M c] ok_live_cp_apply)
  then have "start_ok (feed_frame M linear d)" by (rule start_feed_frame)
  then show ?thesis unfolding bridge_media_def Let_def c_def [symmetric] d_def [symmetric]
    by (simp add: start_scan_segments)
qed

section \<open>Transmission\<close>

lemma start_collect: "start_ok b \<Longrightarrow> start_ok (snd (collect_bits is byte b))"
  "start_ok b \<Longrightarrow> start_ok (snd (collect_bytes n b))"
proof -
  show bits: "start_ok b \<Longrightarrow> start_ok (snd (collect_bits is byte b))" for "is" byte b
    by (induction "is" arbitrary: byte b) (simp_all add: case_prod_unfold Let_def st.get_bit)
  show "start_ok b \<Longrightarrow> start_ok (snd (collect_bytes n b))"
    by (induction n arbitrary: b) (simp_all add: case_prod_unfold Let_def bits)
qed

lemma start_next_data_frame: "start_ok b \<Longrightarrow> start_ok (snd (next_data_frame M b))"
  by (simp add: next_data_frame_def Let_def case_prod_unfold st.interact_keeps start_collect)

lemma start_tx_codewords: "start_ok b \<Longrightarrow> start_ok (snd (bridge_tx_codewords M n b))"
proof (induction n arbitrary: b)
  case (Suc n)
  then show ?case using start_next_data_frame [of b M] st.interact_keeps [of b M "v90_phase3_tx_codewords M (v90 b)"]
    by (simp add: next_codeword_def Let_def case_prod_unfold)
qed simp

lemma reach_start: "\<lbrakk>bridge_reach M b; modem_ok M\<rbrakk> \<Longrightarrow> start_ok b"
proof (induction rule: bridge_reach.induct)
  case (init S b)
  then show ?case
    by (auto simp: start_ok_def bridge_init_def bridge_live_cp_start_def split: if_splits option.splits)
next
  case (media b E linear)
  then show ?case using reach_ok start_media by blast
qed (simp_all add: start_tx_codewords bridge_queue_input_def data_packet_def Let_def case_prod_unfold)

section \<open>Only after E, or by the delayed feed\<close>

text \<open>
  C30. Reception starts only after E, or by the delayed feed.  Whatever the library does: (1) if the
  recovered bits \<open>bits\<close> start the data receiver, they hold twenty ones in a row with at least two more
  bits behind them, and the receiver had been prepared; (2) in every state the program reaches in which
  reception has started, the receiver is prepared, and E is complete with at least two bits behind it or
  the program runs with a delay of the upstream samples (\<^verbatim>\<open>EICON_V90D_BRIDGE_UPSTREAM_DELAY_SAMPLES\<close>
  above 0), whose feed starts a prepared receiver without E, and a CP of data mode has been accepted;
  so (3) without that delay reception never starts before E is complete with two bits behind it.
\<close>

theorem handover_only_after_e:
  "(callback_ok b \<and> \<not> upstream_rx_started b \<and> upstream_e_ones b = 0 \<and> set bits \<subseteq> {0, 1} \<and>
      upstream_rx_started (fold (bridge_put_bit M) bits b) \<longrightarrow>
      e_seen bits 2 \<and> upstream_prepared (fold (bridge_put_bit M) bits b)) \<and>
   (bridge_reach M c \<and> modem_ok M \<and> upstream_rx_started c \<longrightarrow>
      upstream_prepared c \<and>
      (upstream_e_complete c \<and> 2 \<le> upstream_e_post_bits c \<or> 0 < upstream_audio_delay c \<and> live_data_cp_accepted c)) \<and>
   (bridge_reach M c \<and> modem_ok M \<and> upstream_rx_started c \<and> upstream_audio_delay c \<le> 0 \<longrightarrow>
      upstream_e_complete c \<and> 2 \<le> upstream_e_post_bits c)"
  using bits_start_after_e [of b bits M] reach_start [of M c] reach_ok [of M c]
  by (auto simp: start_ok_def bridge_ok_def callback_ok_def)

text \<open>A library that finds 24 ones in its first frame: the first brings a CP frame, the others E and two more.\<close>

definition eager_modem :: "(unit, nat, bool, int) modem" where
  "eager_modem = small_modem\<lparr>v34_rx := (\<lambda>s m. ((\<lambda>c. Put_phase4_bit 1 m (\<lambda>_. c)) ^^ 24) (Ret () m))\<rparr>"

definition eager_bridge :: "(unit, nat, bool, int) bridge" where
  "eager_bridge = bridge_media eager_modem quiet (replicate 160 0) (the (bridge_init eager_modem small_startup))"

theorem handover_only_after_e_witness:
  "e_seen (0 # replicate 22 1) 2 \<and> upstream_prepared (fold (bridge_put_bit small_modem) (0 # replicate 22 1) small_bridge) \<and>
   upstream_rx_started eager_bridge \<and> upstream_e_complete eager_bridge \<and> 2 \<le> upstream_e_post_bits eager_bridge"
proof -
  have "bridge_init eager_modem small_startup \<noteq> None" by code_simp
  then have "bridge_init eager_modem small_startup = Some (the (bridge_init eager_modem small_startup))" by simp
  from bridge_reach.media [OF bridge_reach.init [OF this]] have c: "bridge_reach eager_modem eager_bridge"
    by (simp add: eager_bridge_def)
  have m: "modem_ok eager_modem" using small_modem_ok by (simp add: modem_ok_def eager_modem_def)
  have s: "upstream_rx_started eager_bridge" "upstream_audio_delay eager_bridge \<le> 0" by code_simp+
  have f: "upstream_rx_started (fold (bridge_put_bit small_modem) (0 # replicate 22 1) small_bridge)" by code_simp
  have i: "callback_ok small_bridge \<and> \<not> upstream_rx_started small_bridge \<and> upstream_e_ones small_bridge = 0"
    by (rule init_callback_ok [OF small_bridge_init])
  have "e_seen (0 # replicate 22 1) 2 \<and> upstream_prepared (fold (bridge_put_bit small_modem) (0 # replicate 22 1) small_bridge)"
    using handover_only_after_e [of small_bridge "0 # replicate 22 1" small_modem] i f by simp
  then show ?thesis
    using handover_only_after_e [where M = eager_modem and c = eager_bridge] c m s by simp
qed

end
