(* ===== verification/Transmit.thy ===== *)
theory Transmit
  imports Media
begin

text \<open>
  What the digital bridge hands on: the queued bits reach the transmitter in order, accepted events
  are not reported again, and the delayed feed runs dry after the connection.
\<close>

section \<open>Bits to the transmitter\<close>

lemma get_bit_queue:
  "bridge_get_bit b = (uint (fst (ring_get (tx_queue b))), b\<lparr>tx_queue := snd (ring_get (tx_queue b)), tx_consumed_frame := tx_consumed_frame b + 1\<rparr>)"
  by (simp add: bridge_get_bit_def case_prod_unfold Let_def)

text \<open>The queue after \<open>n\<close> bits have been taken.\<close>

primrec after_gets :: "nat \<Rightarrow> bit_ring \<Rightarrow> bit_ring" where
  "after_gets 0 q = q"
| "after_gets (Suc n) q = after_gets n (snd (ring_get q))"

lemma after_gets_add: "after_gets m (after_gets n q) = after_gets (n + m) q"
  by (induction n arbitrary: q) simp_all

lemma taken_add: "ring.taken (m + n) q = ring.taken m q @ ring.taken n (after_gets m q)"
  by (induction m arbitrary: q) simp_all

lemma length_taken [simp]: "length (ring.taken n q) = n"
  by (induction n arbitrary: q) simp_all

lemma taken_bits:
  "\<lbrakk>ring_ok q; set (ring_bits q) \<subseteq> {0, 1}\<rbrakk> \<Longrightarrow> set (ring.taken n q) \<subseteq> {0, 1}"
  by (auto simp: ring.taken_contents dest: in_set_takeD)

lemma after_gets_ok:
  "\<lbrakk>ring_ok q; set (ring_bits q) \<subseteq> {0, 1}\<rbrakk> \<Longrightarrow> ring_ok (after_gets n q) \<and> set (ring_bits (after_gets n q)) \<subseteq> {0, 1}"
  by (induction n arbitrary: q) (simp_all add: ring_bits_get)

lemma collect_bits_from:
  assumes "ring_ok (tx_queue b)" "set (ring_bits (tx_queue b)) \<subseteq> {0, 1}" "j \<le> 8"
  shows "(\<forall>k < 8. bit (fst (collect_bits [j..<8] acc b)) k \<longleftrightarrow>
      bit acc k \<or> (j \<le> k \<and> ring.taken (8 - j) (tx_queue b) ! (k - j) = 1)) \<and>
    tx_queue (snd (collect_bits [j..<8] acc b)) = after_gets (8 - j) (tx_queue b)"
  using assms
proof (induction "8 - j" arbitrary: j acc b)
  case (Suc n)
  let ?q = "tx_queue b"
  let ?b = "b\<lparr>tx_queue := snd (ring_get ?q), tx_consumed_frame := tx_consumed_frame b + 1\<rparr>"
  define v where "v = fst (ring_get ?q)"
  have j: "j < 8" "8 - j = Suc (8 - Suc j)" using Suc.hyps(2) by simp_all
  have "set (ring.taken 1 ?q) \<subseteq> {0, 1}" using taken_bits Suc.prems by blast
  then have v: "v = 0 \<or> v = 1" by (auto simp: v_def)
  have c: "collect_bits [j..<8] acc b = collect_bits [Suc j..<8] (acc OR push_bit j v) ?b"
    using j(1) by (simp add: upt_conv_Cons get_bit_queue v_def)
  have IH: "(\<forall>k < 8. bit (fst (collect_bits [Suc j..<8] (acc OR push_bit j v) ?b)) k \<longleftrightarrow>
      bit (acc OR push_bit j v) k \<or> (Suc j \<le> k \<and> ring.taken (8 - Suc j) (tx_queue ?b) ! (k - Suc j) = 1)) \<and>
    tx_queue (snd (collect_bits [Suc j..<8] (acc OR push_bit j v) ?b)) = after_gets (8 - Suc j) (tx_queue ?b)"
    using Suc.hyps(2) Suc.prems ring_bits_get [of ?q] by (intro Suc.hyps(1)) simp_all
  have p: "bit (push_bit j v) k \<longleftrightarrow> k = j \<and> v = 1" if "k < 8" for k using v that j(1) by (auto simp: bit_simps)
  have t: "ring.taken (8 - j) ?q = v # ring.taken (8 - Suc j) (snd (ring_get ?q))" using j(2) by (simp add: v_def)
  have "bit (fst (collect_bits [j..<8] acc b)) k \<longleftrightarrow> bit acc k \<or> (j \<le> k \<and> ring.taken (8 - j) ?q ! (k - j) = 1)" if "k < 8" for k
    using IH that p [OF that] unfolding c t by (cases "k = j") (auto simp: bit_or_iff nth_Cons' Suc_diff_Suc le_less_Suc_eq)
  then show ?case using IH j(2) unfolding c by simp
qed simp

lemma collect_byte:
  assumes "ring_ok (tx_queue b)" "set (ring_bits (tx_queue b)) \<subseteq> {0, 1}"
  shows "map (\<lambda>i. drop_bit i (fst (collect_bits [0..<8] 0 b)) AND 1) [0..<8] = ring.taken 8 (tx_queue b)"
proof (rule nth_equalityI)
  fix i assume "i < length (map (\<lambda>i. drop_bit i (fst (collect_bits [0..<8] 0 b)) AND 1) [0..<8])"
  then have i: "i < 8" by simp
  then have "bit (fst (collect_bits [0..<8] 0 b)) i \<longleftrightarrow> ring.taken 8 (tx_queue b) ! i = 1"
    using collect_bits_from [OF assms, of 0 0] by simp
  moreover have "ring.taken 8 (tx_queue b) ! i \<in> {0, 1}" using taken_bits [OF assms, of 8] i by (metis length_taken nth_mem subsetD)
  ultimately show "map (\<lambda>i. drop_bit i (fst (collect_bits [0..<8] 0 b)) AND 1) [0..<8] ! i = ring.taken 8 (tx_queue b) ! i"
    using i by (auto simp: and_one_eq bit_iff_odd_drop_bit mod_2_eq_odd)
qed simp

definition byte_bits :: "u8 \<Rightarrow> u8 list" where
  "byte_bits byte = map (\<lambda>i. drop_bit i byte AND 1) [0..<8]"

lemma collect_bytes_bits:
  "\<lbrakk>ring_ok (tx_queue b); set (ring_bits (tx_queue b)) \<subseteq> {0, 1}\<rbrakk>
     \<Longrightarrow> concat (map byte_bits (fst (collect_bytes n b))) = ring.taken (8 * n) (tx_queue b)"
proof (induction n arbitrary: b)
  case (Suc n)
  let ?c = "collect_bits [0..<8] 0 b"
  have q: "tx_queue (snd ?c) = after_gets 8 (tx_queue b)" using collect_bits_from [OF Suc.prems, of 0 0] by simp
  then have "concat (map byte_bits (fst (collect_bytes n (snd ?c)))) = ring.taken (8 * n) (after_gets 8 (tx_queue b))"
    using Suc.IH [of "snd ?c"] after_gets_ok [OF Suc.prems] by simp
  moreover have "byte_bits (fst ?c) = ring.taken 8 (tx_queue b)" using collect_byte [OF Suc.prems] by (simp only: byte_bits_def)
  ultimately show ?case using taken_add [of 8 "8 * n" "tx_queue b"] by (simp add: case_prod_unfold Let_def)
qed simp

text \<open>
  C35. The input stream reaches the transmitter bit by bit.  After a packet with \<open>n\<close> bits has been queued,
  the bytes the bridge collects for the transmitter hold, least significant bit first, the bits that
  were queued before, then those of the packet, then ones.
\<close>

theorem queued_bits_transmitted:
  fixes packet :: "u8 list"
  assumes "callback_ok b" "count (tx_queue b) + DATA_BITS \<le> DATA_QUEUE_BITS"
  defines "c \<equiv> bridge_queue_input packet b"
    and "bits \<equiv> ring_bits (tx_queue b) @ map (packed_bit (drop 4 packet)) [0..<min (unat (packet ! 0) + 256 * unat (packet ! 1)) DATA_BITS]"
  shows "concat (map byte_bits (fst (collect_bytes m c))) = take (8 * m) bits @ replicate (8 * m - length bits) 1"
proof -
  let ?n = "unat (packet ! 0) + 256 * unat (packet ! 1)"
  have r: "ring_ok (tx_queue b)" "set (ring_bits (tx_queue b)) \<subseteq> {0, 1}" using assms(1) by (simp_all add: callback_ok_def)
  have room: "count (tx_queue b) + min ?n DATA_BITS \<le> DATA_QUEUE_BITS" using assms(2) by simp
  note q = queue_input_contents [OF r(1) room, of "drop 4 packet"]
  have c: "tx_queue c = queue_input (drop 4 packet) ?n (tx_queue b)" by (simp add: c_def bridge_queue_input_def)
  have k: "ring_ok (tx_queue c)" "ring_bits (tx_queue c) = bits" using q by (simp_all add: c bits_def)
  have "packed_bit p i \<in> {0, 1}" for p i by (simp add: packed_bit_of_bool)
  then have "set bits \<subseteq> {0, 1}" using r(2) by (auto simp: bits_def)
  then show ?thesis using collect_bytes_bits [of c m] k ring.taken_contents [OF k(1), of "8 * m"] by simp
qed

lemma init_queues: "bridge_init M S = Some b \<Longrightarrow> tx_queue b = empty_ring \<and> rx_queue b = empty_ring"
  by (auto simp: bridge_init_def bridge_live_cp_start_def split: if_splits option.splits)

theorem queued_bits_transmitted_witness:
  "concat (map byte_bits (fst (collect_bytes 2 (bridge_queue_input ([12, 0, 0, 0, 0x53, 0xf4] @ replicate 254 0) small_bridge)))) =
     [1, 1, 0, 0, 1, 0, 1, 0, 0, 0, 1, 0, 1, 1, 1, 1]"
proof -
  let ?p = "[12, 0, 0, 0, 0x53, 0xf4] @ replicate 254 0 :: u8 list"
  have c: "callback_ok small_bridge" using init_callback_ok [OF small_bridge_init] by simp
  have e: "tx_queue small_bridge = empty_ring" "count empty_ring = 0" using init_queues [OF small_bridge_init] by (simp_all add: empty_ring_def)
  have "map (packed_bit (drop 4 ?p)) [0..<min (unat (?p ! 0) + 256 * unat (?p ! 1)) DATA_BITS] = [1, 1, 0, 0, 1, 0, 1, 0, 0, 0, 1, 0]"
    by (simp add: DATA_BITS_def DATA_BYTES_def upt_rec packed_bit_def)
  moreover have "replicate 4 (1 :: u8) = [1, 1, 1, 1]" by (simp add: eval_nat_numeral)
  ultimately show ?thesis
    using queued_bits_transmitted [OF c, of 2 ?p] by (simp add: e DATA_BITS_def DATA_BYTES_def DATA_QUEUE_BITS_def)
qed

section \<open>Events\<close>

text \<open>The events of a segment that the table has with the phase of the transmitter, or as accepted.\<close>

definition settled :: "('d, 'm, 'f, 'r) modem \<Rightarrow> ('d, 'm, 'f, 'r) bridge \<Rightarrow> 'r p3_segment \<Rightarrow> bool" where
  "settled M b s \<longleftrightarrow> (\<exists>e \<in> set (reported b). same_event s e \<and> (accepted e \<or> last_phase e = v90_get_tx_phase M (v90 b)))"

lemma find_event_unique:
  assumes "distinct (map event_key es)" "j < length es" "same_event s (es ! j)"
  shows "find_event s es = Some j"
proof -
  obtain i where i: "find_event s es = Some i"
  proof (cases "find_event s es")
    case None
    have "(start_sample s, seg_type s) = event_key (es ! j)" using assms(3) by (simp add: same_event_def event_key_def)
    then show thesis using find_event_None [OF None] nth_mem [OF assms(2)] by blast
  qed
  then have "i < length es" "event_key (es ! i) = event_key (es ! j)"
    using find_event_Some [OF i] assms(3) by (simp_all add: same_event_def event_key_def)
  then have "i = j" using assms(1,2) by (metis length_map nth_eq_iff_index_eq nth_map)
  then show ?thesis using i by simp
qed

lemma settled_event:
  assumes "bridge_ok M b" "settled M b s"
  shows "bridge_event M s b = b"
proof -
  obtain j where j: "j < length (reported b)" "same_event s (reported b ! j)"
    "accepted (reported b ! j) \<or> last_phase (reported b ! j) = v90_get_tx_phase M (v90 b)"
    using assms(2) by (auto simp: settled_def in_set_conv_nth)
  then have "find_event s (reported b) = Some j"
    using find_event_unique [of "reported b" j s] assms(1) by (simp add: bridge_ok_def core_ok_def)
  then show ?thesis using j(3) by (simp add: bridge_event_def Let_def)
qed

text \<open>
  An event is reported once per phase.  When every start/type pair of the rebuilt segment list is in
  the table, accepted or tried in the present phase of the transmitter, then scanning the segments
  again changes nothing: no event reaches the modem a second time.
\<close>

theorem events_not_repeated:
  assumes "bridge_ok M b" "p3_segment_symbols (p3 M) (result b) = (n, r)" "\<forall>i < nat n. settled M b (segments r ! i)"
  shows "bridge_events M b = b\<lparr>result := r\<rparr>"
proof -
  let ?b = "b\<lparr>result := r\<rparr>"
  have ok: "bridge_ok M ?b" using assms(1) by simp
  have "settled M ?b (segments r ! i)" if "i < nat n" for i using assms(3) that by (simp add: settled_def)
  then have "bridge_event M (segments r ! i) ?b = ?b" if "i < nat n" for i using settled_event [OF ok] that by simp
  then have "fold (\<lambda>i. bridge_event M (segments r ! i)) is ?b = ?b" if "set is \<subseteq> {..<nat n}" for "is"
    using that by (induction "is") auto
  then show ?thesis using assms(2) by (simp add: bridge_events_def atLeast0LessThan)
qed

text \<open>A demodulator that finds the same S on every scan.\<close>

definition s_modem :: "(unit, nat, bool, int) modem" where
  "s_modem = small_modem\<lparr>p3 := sample_demod\<lparr>p3_segment_symbols := (\<lambda>r. (1, r\<lparr>segments :=
     [\<lparr>seg_type = P3_SIGNAL_S, start_symbol = 0, seg_length = 1, start_sample = 20000, end_sample = 20001, confidence = 1\<rparr>]\<rparr>))\<rparr>\<rparr>"

definition scanned :: "(unit, nat, bool, int) bridge" where
  "scanned = bridge_events s_modem (the (bridge_init s_modem small_startup))"

theorem events_not_repeated_witness:
  "bridge_events s_modem scanned = scanned\<lparr>result := snd (p3_segment_symbols (p3 s_modem) (result scanned))\<rparr> \<and>
   map accepted (reported scanned) = [True]"
proof
  have "bridge_init s_modem small_startup \<noteq> None" by code_simp
  then have "bridge_ok s_modem scanned" unfolding scanned_def by (intro ok_bridge_events init_bridge_ok [of _ small_startup]) simp
  moreover have "settled s_modem scanned (segments (snd (p3_segment_symbols (p3 s_modem) (result scanned))) ! 0)" by code_simp
  moreover have "fst (p3_segment_symbols (p3 s_modem) (result scanned)) = 1" by code_simp
  ultimately show "bridge_events s_modem scanned = scanned\<lparr>result := snd (p3_segment_symbols (p3 s_modem) (result scanned))\<rparr>"
    by (intro events_not_repeated [of _ _ 1]) (simp_all add: prod_eq_iff)
  show "map accepted (reported scanned) = [True]" by code_simp
qed

section \<open>The delayed feed\<close>

text \<open>
  With an audio delay the receiver is fed from the sample history, which stops growing at the
  connection (and never grows when the live search is off): from then on every frame that lies
  behind its end is silence.
\<close>

lemma delayed_feed_dry:
  assumes "live_sample_count b \<le> sample_offset b - upstream_audio_delay b"
  shows "map (\<lambda>i. delayed_sample b (sample_offset b - upstream_audio_delay b + int i)) [0..<FRAME] = replicate FRAME 0"
  using assms by (auto simp: delayed_sample_def intro!: nth_equalityI)

lemma history_frozen: "connected_reported b \<or> \<not> live_enabled b \<Longrightarrow> live_append linear b = b"
  by (auto simp: live_append_def)

end
