(* ===== verification/Analogue.thy ===== *)
theory Analogue
  imports Bridge
begin

text \<open>
  The V.90 analogue phase 3 probe, \<^verbatim>\<open>tools/v90a_phase3_bridge_probe.c\<close>: the stream mode that answers
  each frame of codewords with a frame of its own, and the offline mode that runs a capture.  The
  analogue engine of the sibling checkout is a record \<open>engine\<close> of functions on an abstract state \<open>'m\<close>
  (the V.34 transmitter and the phase 3 state machine); \<open>'l\<close> are its DIL descriptors and \<open>'r\<close> the floating
  point numbers, which the probe only passes on.  Messages on the error stream are left out.
\<close>

section \<open>The engine\<close>

datatype dil_preset = V90_DIL_PRESET_DEFAULT_JA | V90_DIL_PRESET_COURIER_STYLE | V90_DIL_PRESET_MEASUREMENT

record ('l, 'r) phase3_config =
  cfg_high_carrier :: bool
  cfg_dil :: 'l
  cfg_digital_max_tx_dbm0 :: 'r
  cfg_upstream_max_n :: int

text \<open>A call of the engine may ask for bits to send.\<close>

datatype ('m, 'a) idle_call = Idle_ret 'a 'm | Idle_get "int \<Rightarrow> ('m, 'a) idle_call"

record ('m, 'l, 'r) engine =
  dil_preset_load :: "dil_preset \<Rightarrow> 'l option"
  zero_dil :: 'l
  v34_init_ok :: bool
  phase3_init :: "('l, 'r) phase3_config \<Rightarrow> 'm option"
  phase3_rx :: "u8 list \<Rightarrow> 'm \<Rightarrow> ('m, u32) idle_call"
  phase3_tx :: "nat \<Rightarrow> 'm \<Rightarrow> ('m, int list) idle_call"
  phase3_get_data_bits :: "nat \<Rightarrow> 'm \<Rightarrow> (int \<times> u8 list) \<times> 'm"
  start_external_symbols :: "'m \<Rightarrow> int \<times> 'm"
  tx_stage :: "'m \<Rightarrow> int"
  rx_stage :: "'m \<Rightarrow> int"
  tx_stage_name :: "int \<Rightarrow> string"
  phase3_complete :: "'m \<Rightarrow> bool"
  phase3_data_ready :: "'m \<Rightarrow> bool"
  phase3_retrain_due :: "'m \<Rightarrow> bool"
  V90A4_RX_EVENT_DATA :: u32
  V90A_TX_B1_PENDING :: int
  strtod :: "string \<Rightarrow> 'r"
  real_zero :: 'r
  real_one :: 'r
  real_frames :: "'r \<Rightarrow> int"
  scaled :: "int \<Rightarrow> 'r \<Rightarrow> int"

section \<open>The source of bits\<close>

record idle_bit_source =
  bits :: u64
  idle_queue :: bit_ring
  consumed_frame :: u32

definition zero_source :: idle_bit_source where
  "zero_source = \<lparr>bits = 0, idle_queue = empty_ring, consumed_frame = 0\<rparr>"

definition get_idle_bit :: "idle_bit_source \<Rightarrow> int \<times> idle_bit_source" where
  "get_idle_bit source =
     (let (v, q) = ring_get (idle_queue source)
      in (uint v, source\<lparr>idle_queue := q, bits := bits source + 1, consumed_frame := consumed_frame source + 1\<rparr>))"

primrec with_idle_bits :: "('m, 'a) idle_call \<Rightarrow> idle_bit_source \<Rightarrow> ('a \<times> 'm) \<times> idle_bit_source" where
  "with_idle_bits (Idle_ret x m) source = ((x, m), source)"
| "with_idle_bits (Idle_get k) source = with_idle_bits (k (fst (get_idle_bit source))) (snd (get_idle_bit source))"

definition queue_input_bits :: "u8 list \<Rightarrow> nat \<Rightarrow> idle_bit_source \<Rightarrow> idle_bit_source" where
  "queue_input_bits packed n source = source\<lparr>idle_queue := queue_input packed n (idle_queue source)\<rparr>"

fun pack_bits :: "nat list \<Rightarrow> u8 list \<Rightarrow> u8 list \<Rightarrow> u8 list" where
  "pack_bits [] bs packed = packed"
| "pack_bits (i # is) bs packed = pack_bits is bs (packed[i div 8 := packed ! (i div 8) OR push_bit (i mod 8) (bs ! i AND 1)])"

definition pack_output_bits :: "('m, 'l, 'r) engine \<Rightarrow> 'm \<Rightarrow> nat \<times> u8 list \<times> 'm" where
  "pack_output_bits M m =
     (let ((n, bs), m) = phase3_get_data_bits M DATA_BITS m in
      if n < 0 then (0, replicate DATA_BYTES 0, m)
      else (nat n, pack_bits [0..<nat n] bs (replicate DATA_BYTES 0), m))"

section \<open>Starting the engine\<close>

definition env_flag :: "(string \<Rightarrow> string option) \<Rightarrow> string \<Rightarrow> bool" where
  "env_flag env name = (case env name of None \<Rightarrow> False | Some t \<Rightarrow> atoi t \<noteq> 0)"

definition phase3_dil :: "('m, 'l, 'r) engine \<Rightarrow> string option \<Rightarrow> 'l option" where
  "phase3_dil M profile =
     (if profile = Some ''none'' \<or> profile = Some ''zero'' then Some (zero_dil M)
      else dil_preset_load M
             (if profile = Some ''courier'' \<or> profile = Some ''card'' then V90_DIL_PRESET_COURIER_STYLE
              else if profile = Some ''measurement'' then V90_DIL_PRESET_MEASUREMENT
              else V90_DIL_PRESET_DEFAULT_JA))"

text \<open>
  \<^verbatim>\<open>new_phase3\<close>: the engine, if it starts, and the source, which is cleared but for the queue's memory
  once the descriptor has been loaded.
\<close>

definition new_phase3 ::
  "('m, 'l, 'r) engine \<Rightarrow> (string \<Rightarrow> string option) \<Rightarrow> idle_bit_source \<Rightarrow> 'm option \<times> idle_bit_source" where
  "new_phase3 M env source =
     (case phase3_dil M (env ''EICON_V90A_PHASE3_DIL_PRESET'') of
        None \<Rightarrow> (None, source)
      | Some dil \<Rightarrow>
          (let source = \<lparr>bits = 0, idle_queue = \<lparr>cells = cells (idle_queue source), rd = 0, wr = 0, count = 0\<rparr>, consumed_frame = 0\<rparr> in
           if \<not> v34_init_ok M then (None, source)
           else
             (phase3_init M
                \<lparr>cfg_high_carrier = env_flag env ''EICON_V90A_PHASE3_HIGH_CARRIER'', cfg_dil = dil,
                 cfg_digital_max_tx_dbm0 = (case env ''EICON_V90A_PHASE3_MAX_TX_DBM0'' of
                    None \<Rightarrow> real_zero M | Some t \<Rightarrow> if t = [] then real_zero M else strtod M t),
                 cfg_upstream_max_n = (case env ''EICON_V90A_PHASE3_UPSTREAM_MAX_N'' of
                    None \<Rightarrow> 0 | Some t \<Rightarrow> if t = [] then 0 else atoi t)\<rparr>,
              source)))"

section \<open>The stream\<close>

record 'm stream =
  phase3 :: "'m option"
  idle :: idle_bit_source
  start_frames :: int
  stream_mtime :: int
  data_connected :: bool
  data_carrier_switched :: bool

text \<open>What the surroundings decide in a frame: the reset file's time and whether the writes succeed.\<close>

record stream_env =
  stat_mtime :: "int option"
  upstream_written :: bool
  packet_written :: bool

text \<open>The end of a frame: the loop goes on, is left (status 0) or the program returns a status.\<close>

datatype 'm frame_end = Next "u8 list" "'m stream" | Break "u8 list" | Return nat

definition reset_stream :: "('m, 'l, 'r) engine \<Rightarrow> (string \<Rightarrow> string option) \<Rightarrow> int option \<Rightarrow> 'm stream \<Rightarrow> 'm stream option" where
  "reset_stream M env mtime s =
     (case mtime of
        None \<Rightarrow> Some s
      | Some t \<Rightarrow>
          if t > stream_mtime s
          then
            (let (p, source) = new_phase3 M env (idle s) in
             case p of
               None \<Rightarrow> None
             | Some m \<Rightarrow> Some (s\<lparr>phase3 := p, idle := source, stream_mtime := t, start_frames := 0, data_connected := False\<rparr>))
          else Some s)"

text \<open>The codewords and the packet of a frame, as far as they are written.\<close>

definition write_frame :: "bool \<Rightarrow> stream_env \<Rightarrow> u8 list \<Rightarrow> u8 list \<Rightarrow> 'm stream \<Rightarrow> 'm frame_end" where
  "write_frame data_stream E upstream packet s =
     (if \<not> upstream_written E then Break []
      else if \<not> data_stream then Next upstream s
      else if \<not> packet_written E then Break upstream
      else Next (upstream @ packet) s)"

definition engine_rx :: "('m, 'l, 'r) engine \<Rightarrow> u8 list \<Rightarrow> 'm \<Rightarrow> 'm stream \<Rightarrow> 'm \<times> 'm stream" where
  "engine_rx M downstream m s =
     (let ((events, m), source) = with_idle_bits (phase3_rx M downstream m) (idle s)
      in (m, s\<lparr>idle := source, data_connected := data_connected s \<or> events AND V90A4_RX_EVENT_DATA M \<noteq> 0\<rparr>))"

text \<open>The switch of the carrier at the B1 seam; the first result is not 0 when it fails.\<close>

definition switch_carrier :: "('m, 'l, 'r) engine \<Rightarrow> bool \<Rightarrow> 'm \<Rightarrow> 'm stream \<Rightarrow> int \<times> 'm \<times> 'm stream" where
  "switch_carrier M high_data m s =
     (if high_data \<and> \<not> data_carrier_switched s \<and> tx_stage M m = V90A_TX_B1_PENDING M
      then let (r, m) = start_external_symbols M m in (r, m, s\<lparr>data_carrier_switched := True\<rparr>)
      else (0, m, s))"

definition engine_tx :: "('m, 'l, 'r) engine \<Rightarrow> 'r \<Rightarrow> bool \<Rightarrow> stream_env \<Rightarrow> 'm \<Rightarrow> 'm stream \<Rightarrow> 'm frame_end" where
  "engine_tx M gain data_stream E m s =
     (let ((linear, m), source) = with_idle_bits (phase3_tx M FRAME m) (idle s) in
      if length linear \<noteq> FRAME then Return 1
      else
        (let upstream = map (\<lambda>x. pcmu_encode (scaled M x gain)) linear;
             (n, packed, m) = (if data_stream then pack_output_bits M m else (0, [], m));
             received = (if data_connected s then of_nat n OR 0x8000 else of_nat n)
         in write_frame data_stream E upstream (header_half (consumed_frame source) @ header_half received @ packed) (s\<lparr>idle := source, phase3 := Some m\<rparr>)))"

definition analogue_exchange ::
  "('m, 'l, 'r) engine \<Rightarrow> 'r \<Rightarrow> bool \<Rightarrow> bool \<Rightarrow> stream_env \<Rightarrow> u8 list \<Rightarrow> 'm \<Rightarrow> 'm stream \<Rightarrow> 'm frame_end" where
  "analogue_exchange M gain high_data data_stream E downstream m s =
     (let (m, s) = engine_rx M downstream m s; (r, m, s) = switch_carrier M high_data m s
      in if r \<noteq> 0 then Break [] else engine_tx M gain data_stream E m s)"

definition analogue_frame ::
  "('m, 'l, 'r) engine \<Rightarrow> (string \<Rightarrow> string option) \<Rightarrow> 'r \<Rightarrow> bool \<Rightarrow> bool \<Rightarrow> stream_env \<Rightarrow> u8 list \<Rightarrow> u8 list \<Rightarrow> 'm stream \<Rightarrow> 'm frame_end" where
  "analogue_frame M env gain high_data data_stream E downstream packet s =
     (let s = (if data_stream
               then s\<lparr>idle := (queue_input_bits (drop 4 packet) (unat (packet ! 0) + 256 * unat (packet ! 1)) (idle s))\<lparr>consumed_frame := 0\<rparr>\<rparr>
               else s) in
      case reset_stream M env (stat_mtime E) s of
        None \<Rightarrow> Return 1
      | Some s \<Rightarrow>
          if start_frames s > 0
          then write_frame data_stream E (replicate FRAME 0xff) (replicate PACKET 0) (s\<lparr>start_frames := start_frames s - 1\<rparr>)
          else
            (case phase3 s of
               Some m \<Rightarrow> analogue_exchange M gain high_data data_stream E downstream m s
             | None \<Rightarrow>
                 (let (p, source) = new_phase3 M env (idle s) in
                  case p of
                    None \<Rightarrow> Return 1
                  | Some m \<Rightarrow> analogue_exchange M gain high_data data_stream E downstream m (s\<lparr>phase3 := p, idle := source\<rparr>))))"

text \<open>The loop of \<^verbatim>\<open>stream_mode\<close>: exit status and output.  A frame that ends early is an error, no frame the end.\<close>

function analogue_loop ::
  "('m, 'l, 'r) engine \<Rightarrow> (string \<Rightarrow> string option) \<Rightarrow> 'r \<Rightarrow> bool \<Rightarrow> bool \<Rightarrow> (nat \<Rightarrow> stream_env) \<Rightarrow> nat \<Rightarrow> u8 list \<Rightarrow> 'm stream
     \<Rightarrow> nat \<times> u8 list" where
  "analogue_loop M env gain high_data data_stream E k stdin s =
     (if stdin = [] then (0, [])
      else if length stdin < chunk_size data_stream then (1, [])
      else
        (case analogue_frame M env gain high_data data_stream (E k) (take FRAME stdin)
                (take (chunk_size data_stream - FRAME) (drop FRAME stdin)) s of
           Return n \<Rightarrow> (n, [])
         | Break written \<Rightarrow> (0, written)
         | Next written s \<Rightarrow>
             (let (status, rest) = analogue_loop M env gain high_data data_stream E (Suc k)
                    (drop (chunk_size data_stream) stdin) s
              in (status, written @ rest))))"
  by pat_completeness auto
termination by (relation "measure (\<lambda>(_, _, _, _, _, _, _, s, _). length s)") (auto simp: FRAME_def chunk_size_def)

declare analogue_loop.simps [simp del]

definition stream_mode ::
  "('m, 'l, 'r) engine \<Rightarrow> (string \<Rightarrow> string option) \<Rightarrow> bool \<Rightarrow> bool \<Rightarrow> (nat \<Rightarrow> stream_env) \<Rightarrow> u8 list \<Rightarrow> nat \<times> u8 list" where
  "stream_mode M env queue_ok data_stream E stdin =
     (if \<not> queue_ok then (1, [])
      else
        (let gain = (case env ''EICON_V90A_PHASE3_TX_GAIN'' of None \<Rightarrow> real_one M | Some t \<Rightarrow> if t = [] then real_one M else strtod M t);
             delay = (case env ''EICON_V90A_PHASE3_START_S'' of None \<Rightarrow> 0 | Some t \<Rightarrow> real_frames M (strtod M t))
         in analogue_loop M env gain (env_flag env ''EICON_V90A_PHASE3_DATA_HIGH_CARRIER'') data_stream E 0 stdin
              \<lparr>phase3 = None, idle = zero_source, start_frames = delay, stream_mtime = 0, data_connected = False,
               data_carrier_switched = False\<rparr>))"

section \<open>A capture\<close>

definition stage_line :: "('m, 'l, 'r) engine \<Rightarrow> nat \<Rightarrow> u32 \<Rightarrow> 'm \<Rightarrow> string" where
  "stage_line M i events m =
     ''sample='' @ decimal (int i) @ '' events=0x'' @ digits False 16 (unat events) @ '' tx='' @ tx_stage_name M (tx_stage M m)
     @ '' rx='' @ decimal (rx_stage M m) @ '' complete='' @ decimal (of_bool (phase3_complete M m))
     @ '' data='' @ decimal (of_bool (phase3_data_ready M m)) @ [CHR 0x0A]"

text \<open>The loop over the capture: upstream codewords, printed lines, and the engine and source at the end.\<close>

function capture_loop ::
  "('m, 'l, 'r) engine \<Rightarrow> nat \<Rightarrow> u8 list \<Rightarrow> int \<times> int \<Rightarrow> 'm \<Rightarrow> idle_bit_source \<Rightarrow> u8 list \<times> string \<times> 'm \<times> idle_bit_source" where
  "capture_loop M i downstream seen m source =
     (if downstream = [] then ([], [], m, source)
      else
        (let chunk = take 160 downstream;
             ((events, m), source) = with_idle_bits (phase3_rx M chunk m) source;
             ((upstream, m), source) = with_idle_bits (phase3_tx M (length chunk) m) source;
             stages = (tx_stage M m, rx_stage M m);
             line = (if stages \<noteq> seen \<or> events \<noteq> 0 then stage_line M i events m else []);
             (rest, lines, m, source) = capture_loop M (i + 160) (drop 160 downstream)
               (if stages \<noteq> seen \<or> events \<noteq> 0 then stages else seen) m source
         in (map pcmu_encode upstream @ rest, line @ lines, m, source)))"
  by pat_completeness auto
termination by (relation "measure (\<lambda>(_, _, d, _, _, _). length d)") auto

declare capture_loop.simps [simp del]

text \<open>\<open>create\<close>: whether the output file can be opened.  The result is the status, the printed text and the file written.\<close>

definition capture_main ::
  "('m, 'l, 'r) engine \<Rightarrow> (string \<Rightarrow> u8 list option) \<Rightarrow> (string \<Rightarrow> bool) \<Rightarrow> bool \<Rightarrow> string list \<Rightarrow> nat \<times> string \<times> u8 list" where
  "capture_main M file create malloc_ok args =
     (if args = [] \<or> length args > 2 then (2, [], [])
      else case file (hd args) of
        None \<Rightarrow> (2, [], [])
      | Some downstream \<Rightarrow>
          if downstream = [] \<or> length downstream > 2000000 \<or> \<not> malloc_ok \<or> (length args = 2 \<and> \<not> create (args ! 1)) then (2, [], [])
          else
            (case dil_preset_load M V90_DIL_PRESET_DEFAULT_JA of
               None \<Rightarrow> (1, [], [])
             | Some dil \<Rightarrow>
                 if \<not> v34_init_ok M then (1, [], [])
                 else
                   (case phase3_init M \<lparr>cfg_high_carrier = False, cfg_dil = dil, cfg_digital_max_tx_dbm0 = real_zero M, cfg_upstream_max_n = 0\<rparr> of
                      None \<Rightarrow> (1, [], [])
                    | Some m \<Rightarrow>
                        (let (upstream, lines, m, source) = capture_loop M 0 downstream (tx_stage M m, rx_stage M m) m zero_source
                         in (0, lines @ ''final tx='' @ tx_stage_name M (tx_stage M m) @ '' rx='' @ decimal (rx_stage M m)
                              @ '' complete='' @ decimal (of_bool (phase3_complete M m)) @ '' data='' @ decimal (of_bool (phase3_data_ready M m))
                              @ '' retrain='' @ decimal (of_bool (phase3_retrain_due M m)) @ [CHR 0x0A]
                              @ ''tx-data-bits='' @ digits False 10 (unat (bits source)) @ [CHR 0x0A],
                            if length args = 2 then upstream else [])))))"

text \<open>The arguments of the stream mode after \<^verbatim>\<open>--stream\<close>.\<close>

fun stream_args :: "string list \<Rightarrow> string option \<Rightarrow> bool \<Rightarrow> (string option \<times> bool) option" where
  "stream_args [] reset_path data_stream = Some (reset_path, data_stream)"
| "stream_args (a # as) reset_path data_stream =
     (if a = ''--reset-file'' \<and> as \<noteq> [] then stream_args (tl as) (Some (hd as)) data_stream
      else if a = ''--data-stream'' then stream_args as reset_path True
      else None)"

definition analogue_main ::
  "('m, 'l, 'r) engine \<Rightarrow> (string \<Rightarrow> string option) \<Rightarrow> (nat \<Rightarrow> string \<Rightarrow> int option) \<Rightarrow> (nat \<Rightarrow> stream_env) \<Rightarrow> bool
     \<Rightarrow> (string \<Rightarrow> u8 list option) \<Rightarrow> (string \<Rightarrow> bool) \<Rightarrow> string list \<Rightarrow> u8 list \<Rightarrow> nat \<times> string \<times> u8 list" where
  "analogue_main M env stat E alloc_ok file create args stdin =
     (if args \<noteq> [] \<and> length args \<le> 4 \<and> hd args = ''--stream''
      then case stream_args (tl args) None False of
             None \<Rightarrow> (2, [], [])
           | Some (reset_path, data_stream) \<Rightarrow>
               (let (status, written) = stream_mode M env alloc_ok data_stream
                      (\<lambda>k. (E k)\<lparr>stat_mtime := Option.bind reset_path (stat k)\<rparr>) stdin
                in (status, [], written))
      else capture_main M file create alloc_ok args)"

section \<open>The packet of the first frame\<close>

text \<open>Two sources with nothing queued, alike but for the memory of their queues.\<close>

definition idle_alike :: "idle_bit_source \<Rightarrow> idle_bit_source \<Rightarrow> bool" where
  "idle_alike a b \<longleftrightarrow> count (idle_queue a) = 0 \<and> count (idle_queue b) = 0 \<and> bits a = bits b \<and> consumed_frame a = consumed_frame b"

lemma get_idle_alike:
  "idle_alike a b \<Longrightarrow> fst (get_idle_bit a) = fst (get_idle_bit b) \<and> idle_alike (snd (get_idle_bit a)) (snd (get_idle_bit b))"
  by (simp add: idle_alike_def get_idle_bit_def ring_get_def)

lemma with_idle_alike:
  "idle_alike a b \<Longrightarrow> fst (with_idle_bits c a) = fst (with_idle_bits c b) \<and> idle_alike (snd (with_idle_bits c a)) (snd (with_idle_bits c b))"
proof (induction c arbitrary: a b)
  case (Idle_get k)
  then show ?case using get_idle_alike [OF Idle_get.prems] Idle_get.IH [OF rangeI] by simp
qed simp

lemma new_phase3_alike:
  "\<lbrakk>bits a = bits b; consumed_frame a = consumed_frame b\<rbrakk> \<Longrightarrow>
     fst (new_phase3 M env a) = fst (new_phase3 M env b) \<and>
     (fst (new_phase3 M env a) \<noteq> None \<longrightarrow> idle_alike (snd (new_phase3 M env a)) (snd (new_phase3 M env b)))"
  by (auto simp: new_phase3_def idle_alike_def Let_def split: option.split)

definition stream_alike :: "'m stream \<Rightarrow> 'm stream \<Rightarrow> bool" where
  "stream_alike s t \<longleftrightarrow> idle_alike (idle s) (idle t) \<and> s = t\<lparr>idle := idle s\<rparr>"

fun outcome_alike :: "'m frame_end \<Rightarrow> 'm frame_end \<Rightarrow> bool" where
  "outcome_alike (Next w s) (Next v t) \<longleftrightarrow> w = v \<and> stream_alike s t"
| "outcome_alike (Break w) (Break v) \<longleftrightarrow> w = v"
| "outcome_alike (Return n) (Return k) \<longleftrightarrow> n = k"
| "outcome_alike _ _ \<longleftrightarrow> False"

lemma emit_alike: "stream_alike s t \<Longrightarrow> outcome_alike (write_frame ds E up packet s) (write_frame ds E up packet t)"
  by (simp add: write_frame_def)

lemma stream_alike_fields:
  assumes "stream_alike s t"
  shows "data_connected s = data_connected t" "data_carrier_switched s = data_carrier_switched t" "idle_alike (idle s) (idle t)"
proof -
  have "s = t\<lparr>idle := idle s\<rparr>" using assms by (simp add: stream_alike_def)
  then show "data_connected s = data_connected t" "data_carrier_switched s = data_carrier_switched t"
    by (metis stream.surjective stream.update_convs(2) stream.select_convs)+
  show "idle_alike (idle s) (idle t)" using assms by (simp add: stream_alike_def)
qed

lemma engine_rx_alike:
  assumes "stream_alike s t"
  shows "fst (engine_rx M d m s) = fst (engine_rx M d m t) \<and> stream_alike (snd (engine_rx M d m s)) (snd (engine_rx M d m t))"
  using with_idle_alike [OF stream_alike_fields(3) [OF assms], of "phase3_rx M d m"] stream_alike_fields [OF assms] assms
  by (cases s; cases t) (simp add: engine_rx_def stream_alike_def case_prod_unfold Let_def)

lemma switch_carrier_alike:
  assumes "stream_alike s t"
  shows "fst (switch_carrier M hc m s) = fst (switch_carrier M hc m t) \<and>
    fst (snd (switch_carrier M hc m s)) = fst (snd (switch_carrier M hc m t)) \<and>
    stream_alike (snd (snd (switch_carrier M hc m s))) (snd (snd (switch_carrier M hc m t)))"
  using assms by (cases s; cases t) (simp add: switch_carrier_def stream_alike_def case_prod_unfold Let_def)

lemma engine_tx_alike:
  assumes "stream_alike s t"
  shows "outcome_alike (engine_tx M gain ds E m s) (engine_tx M gain ds E m t)"
proof -
  obtain lin m3 a b where t: "with_idle_bits (phase3_tx M FRAME m) (idle s) = ((lin, m3), a)"
      "with_idle_bits (phase3_tx M FRAME m) (idle t) = ((lin, m3), b)" "idle_alike a b"
    using with_idle_alike [OF stream_alike_fields(3) [OF assms], of "phase3_tx M FRAME m"] by (metis eq_fst_iff prod.exhaust_sel)
  have "stream_alike (s\<lparr>idle := a, phase3 := x\<rparr>) (t\<lparr>idle := b, phase3 := x\<rparr>)" for x
    using assms t(3) by (cases s; cases t) (simp add: stream_alike_def)
  moreover have "consumed_frame a = consumed_frame b" using t(3) by (simp add: idle_alike_def)
  ultimately show ?thesis using stream_alike_fields(1) [OF assms]
    by (simp add: engine_tx_def t case_prod_unfold Let_def emit_alike)
qed

lemma exchange_alike:
  assumes "stream_alike s t"
  shows "outcome_alike (analogue_exchange M gain hc ds E d m s) (analogue_exchange M gain hc ds E d m t)"
proof -
  obtain m1 s1 t1 where r: "engine_rx M d m s = (m1, s1)" "engine_rx M d m t = (m1, t1)" "stream_alike s1 t1"
    using engine_rx_alike [OF assms, of M d m] by (metis prod.exhaust_sel)
  obtain n m2 s2 t2 where w: "switch_carrier M hc m1 s1 = (n, m2, s2)" "switch_carrier M hc m1 t1 = (n, m2, t2)" "stream_alike s2 t2"
    using switch_carrier_alike [OF r(3), of M hc m1] by (metis prod.exhaust_sel)
  show ?thesis by (simp add: analogue_exchange_def r w engine_tx_alike [OF w(3)])
qed

definition queued :: "u8 list \<Rightarrow> 'm stream \<Rightarrow> 'm stream" where
  "queued packet s = s\<lparr>idle := (queue_input_bits (drop 4 packet) (unat (packet ! 0) + 256 * unat (packet ! 1)) (idle s))\<lparr>consumed_frame := 0\<rparr>\<rparr>"

lemma queued_fields:
  "bits (idle (queued packet s)) = bits (idle s)" "consumed_frame (idle (queued packet s)) = 0"
  "phase3 (queued packet s) = phase3 s" "start_frames (queued packet s) = start_frames s" "stream_mtime (queued packet s) = stream_mtime s"
  by (simp_all add: queued_def queue_input_bits_def)

lemma frame_starts:
  assumes "phase3 s = None" "start_frames s \<le> 0"
  obtains f where "\<And>packet. analogue_frame M env gain hc True E d packet s =
      (case fst (new_phase3 M env (idle (queued packet s))) of
         None \<Rightarrow> Return 1
       | Some m \<Rightarrow> analogue_exchange M gain hc True E d m ((f m)\<lparr>idle := snd (new_phase3 M env (idle (queued packet s)))\<rparr>))"
proof (cases "\<exists>t. stat_mtime E = Some t \<and> t > stream_mtime s")
  case True
  then obtain t where t: "stat_mtime E = Some t" "t > stream_mtime s" by blast
  show thesis
  proof
    fix packet
    show "analogue_frame M env gain hc True E d packet s =
      (case fst (new_phase3 M env (idle (queued packet s))) of
         None \<Rightarrow> Return 1
       | Some m \<Rightarrow> analogue_exchange M gain hc True E d m
           ((s\<lparr>phase3 := Some m, stream_mtime := t, start_frames := 0, data_connected := False\<rparr>)
              \<lparr>idle := snd (new_phase3 M env (idle (queued packet s)))\<rparr>))"
      unfolding analogue_frame_def if_True queued_def [symmetric] Let_def
      using t by (simp add: reset_stream_def queued_fields case_prod_unfold Let_def split: option.split) (cases s, simp add: queued_def)
  qed
next
  case False
  then have r: "reset_stream M env (stat_mtime E) (queued packet s) = Some (queued packet s)" for packet
    by (auto simp: reset_stream_def queued_fields split: option.split)
  show thesis
  proof
    fix packet
    show "analogue_frame M env gain hc True E d packet s =
      (case fst (new_phase3 M env (idle (queued packet s))) of
         None \<Rightarrow> Return 1
       | Some m \<Rightarrow> analogue_exchange M gain hc True E d m
           ((s\<lparr>phase3 := Some m\<rparr>)\<lparr>idle := snd (new_phase3 M env (idle (queued packet s)))\<rparr>))"
      unfolding analogue_frame_def if_True queued_def [symmetric] Let_def r
      using assms by (simp add: queued_fields case_prod_unfold Let_def split: option.split) (simp add: queued_def)
  qed
qed

text \<open>
  C38. The packet of the first frame is lost.  In the frame that starts the engine (the first one, or the
  first after the start delay) the bits that came with it change nothing: whatever the packet
  holds, the same codewords and the same answer are written, and the queue is empty afterwards.
\<close>

theorem first_packet_lost:
  assumes "phase3 s = None" "start_frames s \<le> 0"
  shows "outcome_alike (analogue_frame M env gain hc True E d packet s) (analogue_frame M env gain hc True E d packet' s)"
proof -
  from frame_starts [OF assms, of M env gain hc E d] obtain f where f:
    "\<And>packet. analogue_frame M env gain hc True E d packet s =
      (case fst (new_phase3 M env (idle (queued packet s))) of
         None \<Rightarrow> Return 1
       | Some m \<Rightarrow> analogue_exchange M gain hc True E d m ((f m)\<lparr>idle := snd (new_phase3 M env (idle (queued packet s)))\<rparr>))"
    by blast
  note n = new_phase3_alike [of "idle (queued packet s)" "idle (queued packet' s)" M env, simplified queued_fields, OF refl refl]
  show ?thesis
  proof (cases "fst (new_phase3 M env (idle (queued packet s)))")
    case None
    then show ?thesis using n by (simp add: f)
  next
    case (Some m)
    then have "stream_alike ((f m)\<lparr>idle := snd (new_phase3 M env (idle (queued packet s)))\<rparr>)
        ((f m)\<lparr>idle := snd (new_phase3 M env (idle (queued packet' s)))\<rparr>)"
      using n by (simp add: stream_alike_def)
    moreover have "fst (new_phase3 M env (idle (queued packet' s))) = Some m" using n Some by simp
    ultimately show ?thesis using Some by (simp add: f exchange_alike)
  qed
qed

text \<open>A small engine: it asks for two bits per frame and sends them as the first samples.\<close>

definition small_engine :: "(unit, unit, int) engine" where
  "small_engine = \<lparr>dil_preset_load = (\<lambda>_. Some ()), zero_dil = (), v34_init_ok = True, phase3_init = (\<lambda>_. Some ()),
     phase3_rx = (\<lambda>_. Idle_ret 1),
     phase3_tx = (\<lambda>n _. Idle_get (\<lambda>a. Idle_get (\<lambda>b. Idle_ret (a * 1000 # b * 1000 # replicate (n - 2) 0) ()))),
     phase3_get_data_bits = (\<lambda>_ m. ((2, [1, 0]), m)), start_external_symbols = (\<lambda>m. (0, m)), tx_stage = (\<lambda>_. 0), rx_stage = (\<lambda>_. 0),
     tx_stage_name = (\<lambda>_. ''s''), phase3_complete = (\<lambda>_. False), phase3_data_ready = (\<lambda>_. False), phase3_retrain_due = (\<lambda>_. False),
     V90A4_RX_EVENT_DATA = 1, V90A_TX_B1_PENDING = 7, strtod = (\<lambda>_. 0), real_zero = 0, real_one = 1, real_frames = (\<lambda>x. x),
     scaled = (\<lambda>x g. x * g)\<rparr>"

definition fresh_stream :: "unit stream" where
  "fresh_stream = \<lparr>phase3 = None, idle = zero_source, start_frames = 0, stream_mtime = 0, data_connected = False, data_carrier_switched = False\<rparr>"

definition good_env :: stream_env where
  "good_env = \<lparr>stat_mtime = None, upstream_written = True, packet_written = True\<rparr>"

theorem first_packet_lost_witness:
  "outcome_alike
     (analogue_frame small_engine (\<lambda>_. None) 1 False True good_env (replicate 160 0xff) ([8, 0, 0, 0] @ replicate 256 0) fresh_stream)
     (analogue_frame small_engine (\<lambda>_. None) 1 False True good_env (replicate 160 0xff) (replicate 260 0) fresh_stream)"
  using first_packet_lost [of fresh_stream] by (simp add: fresh_stream_def)

section \<open>Lock step\<close>

lemma length_pack_bits: "length (pack_bits is bs packed) = length packed"
  by (induction "is" bs packed rule: pack_bits.induct) simp_all

lemma emit_next: "write_frame ds E up packet s = Next w t \<Longrightarrow> length up = FRAME \<Longrightarrow> (ds \<Longrightarrow> length packet = PACKET) \<Longrightarrow> length w = chunk_size ds"
  by (auto simp: write_frame_def chunk_size_def split: if_splits)

lemma length_pack_output: "length (fst (snd (pack_output_bits M m))) = DATA_BYTES"
  by (simp add: pack_output_bits_def case_prod_unfold Let_def length_pack_bits)

lemma engine_tx_next: "engine_tx M gain ds E m s = Next w t \<Longrightarrow> length w = chunk_size ds"
  by (auto simp: engine_tx_def case_prod_unfold Let_def length_pack_output header_half_def PACKET_def split: if_splits elim!: emit_next)

lemma frame_next: "analogue_frame M env gain hc ds E d packet s = Next w t \<Longrightarrow> length w = chunk_size ds"
  by (auto simp: analogue_frame_def analogue_exchange_def case_prod_unfold Let_def
      split: if_splits option.splits dest: engine_tx_next elim!: emit_next)

text \<open>The writes succeed, and so does the switch of the carrier.\<close>

lemma emit_written: "\<lbrakk>upstream_written E; packet_written E\<rbrakk> \<Longrightarrow> write_frame ds E up packet s \<noteq> Break w"
  by (simp add: write_frame_def)

lemma exchange_not_left:
  assumes "upstream_written E" "packet_written E" "\<forall>m. fst (start_external_symbols M m) = 0"
  shows "analogue_exchange M gain hc ds E d m s \<noteq> Break w"
proof -
  have "engine_tx M gain ds E m s \<noteq> Break w" for m s
    by (simp add: engine_tx_def case_prod_unfold Let_def emit_written [OF assms(1,2)])
  moreover have "fst (switch_carrier M hc m s) = 0" for m s using assms(3) by (simp add: switch_carrier_def case_prod_unfold Let_def)
  ultimately show ?thesis by (simp add: analogue_exchange_def case_prod_unfold Let_def)
qed

lemma frame_not_left:
  assumes "upstream_written E" "packet_written E" "\<forall>m. fst (start_external_symbols M m) = 0"
  shows "analogue_frame M env gain hc ds E d packet s \<noteq> Break w"
  unfolding analogue_frame_def Let_def case_prod_unfold
  by (simp add: exchange_not_left [OF assms] emit_written [OF assms(1,2)] split: option.split)

lemma emit_return: "write_frame ds E up packet s \<noteq> Return n"
  by (simp add: write_frame_def)

lemma exchange_return: "analogue_exchange M gain hc ds E d m s \<noteq> Return 0"
  by (simp add: analogue_exchange_def engine_tx_def case_prod_unfold Let_def emit_return)

lemma frame_return: "analogue_frame M env gain hc ds E d packet s \<noteq> Return 0"
  unfolding analogue_frame_def Let_def case_prod_unfold by (simp add: exchange_return emit_return split: option.split)

text \<open>
  The probe answers every frame.  While its writes and the carrier switch succeed, a stream that ends
  with status 0 has been answered with exactly as many bytes as were read.
\<close>

theorem analogue_lock_step:
  assumes "\<forall>k. upstream_written (E k) \<and> packet_written (E k)" "\<forall>m. fst (start_external_symbols M m) = 0"
    "analogue_loop M env gain hc ds E k stdin s = (0, written)"
  shows "length written = length stdin"
  using assms(3)
proof (induction "length stdin" arbitrary: k stdin s written rule: less_induct)
  case less
  show ?case
  proof (cases "stdin = []")
    case True
    then show ?thesis using less.prems by (simp add: analogue_loop.simps [of M env gain hc ds E k "[]"])
  next
    case False
    let ?o = "analogue_frame M env gain hc ds (E k) (take FRAME stdin) (take (chunk_size ds - FRAME) (drop FRAME stdin)) s"
    have c: "chunk_size ds \<le> length stdin" using less.prems False
      by (subst (asm) analogue_loop.simps) (auto split: if_splits)
    have e: "analogue_loop M env gain hc ds E k stdin s =
        (case ?o of Return n \<Rightarrow> (n, []) | Break w \<Rightarrow> (0, w)
         | Next w s \<Rightarrow> (let (status, rest) = analogue_loop M env gain hc ds E (Suc k) (drop (chunk_size ds) stdin) s in (status, w @ rest)))"
      using False c by (subst analogue_loop.simps) simp
    have "?o \<noteq> Break w" for w using frame_not_left [of "E k" M] assms(1,2) by simp
    moreover have "?o \<noteq> Return n" for n
      using less.prems frame_return [of M env gain hc ds "E k" "take FRAME stdin" _ s] by (cases n) (auto simp: e)
    ultimately obtain w t where o1: "?o = Next w t" by (cases ?o) auto
    obtain rest where r: "analogue_loop M env gain hc ds E (Suc k) (drop (chunk_size ds) stdin) t = (0, rest)" "written = w @ rest"
      using less.prems by (auto simp: e o1 split: prod.splits)
    have "length (drop (chunk_size ds) stdin) < length stdin" using c False by (cases ds) (simp_all add: chunk_size_def FRAME_def)
    then have "length rest = length stdin - chunk_size ds" using less.hyps [OF _ r(1)] by simp
    then show ?thesis using frame_next [OF o1] c r(2) by simp
  qed
qed

theorem analogue_lock_step_witness:
  "length (snd (analogue_loop small_engine (\<lambda>_. None) 1 False False (\<lambda>_. good_env) 0 (replicate 160 0xff) fresh_stream)) = 160"
proof -
  let ?r = "analogue_loop small_engine (\<lambda>_. None) 1 False False (\<lambda>_. good_env) 0 (replicate 160 0xff) fresh_stream"
  obtain w where "analogue_frame small_engine (\<lambda>_. None) 1 False False good_env (replicate 160 0xff) [] fresh_stream = Next w (fresh_stream
      \<lparr>phase3 := Some (), idle := zero_source\<lparr>bits := 2, consumed_frame := 2\<rparr>, data_connected := True\<rparr>)"
    by (simp add: analogue_frame_def small_engine_def good_env_def fresh_stream_def reset_stream_def new_phase3_def phase3_dil_def
      zero_source_def analogue_exchange_def engine_rx_def switch_carrier_def engine_tx_def write_frame_def get_idle_bit_def ring_get_def
      empty_ring_def FRAME_def Let_def)
  then have "fst ?r = 0"
    by (subst analogue_loop.simps) (simp add: chunk_size_def FRAME_def analogue_loop.simps [of _ _ _ _ _ _ _ "[]"])
  then have "?r = (0, snd ?r)" by (metis prod.collapse)
  then show ?thesis using analogue_lock_step [of "\<lambda>_. good_env" small_engine "\<lambda>_. None" 1 False False 0 "replicate 160 0xff" fresh_stream "snd ?r"]
    by (simp add: good_env_def small_engine_def)
qed

end
