(* ===== verification/Pm3.thy ===== *)
theory Pm3
  imports CText
begin

text \<open>
  The PortMaster modem-controller harness \<^verbatim>\<open>tools/pm3_z180_harness.c\<close>: the board around a Z180 core.
  The core (x80-emulator, not part of this repository) is a record \<open>z180\<close> of functions on an abstract
  state \<open>'c\<close>; what it does to the board during a call is a tree of bus cycles.
\<close>

section \<open>The core\<close>

datatype ('c, 'a) bus =
    Halted 'a 'c
  | Mem_read u32 "u8 \<Rightarrow> ('c, 'a) bus"
  | Mem_write u32 u8 "('c, 'a) bus"
  | Port_in u32 'c "u8 \<Rightarrow> ('c, 'a) bus"
  | Port_out u32 u8 'c "('c, 'a) bus"

record 'c z180 =
  z180_reset :: 'c
  z180_step :: "'c \<Rightarrow> ('c, bool) bus"
  z180_exception_intint :: "'c \<Rightarrow> ('c, unit) bus"
  z180_exception_extint :: "u32 \<Rightarrow> u8 \<Rightarrow> 'c \<Rightarrow> ('c, unit) bus"
  z180_get_address :: "'c \<Rightarrow> u16 \<Rightarrow> u32"
  pc :: "'c \<Rightarrow> u32"
  old_pc :: "'c \<Rightarrow> u32"
  sp :: "'c \<Rightarrow> u32"
  af :: "'c \<Rightarrow> u32"
  bc :: "'c \<Rightarrow> u32"
  de :: "'c \<Rightarrow> u32"
  hl :: "'c \<Rightarrow> u32"
  ir :: "'c \<Rightarrow> u32"
  ie1 :: "'c \<Rightarrow> bool"
  ie2 :: "'c \<Rightarrow> bool"
  ior_il :: "'c \<Rightarrow> u8"
  ior_tcr :: "'c \<Rightarrow> u8"
  ior_cbr :: "'c \<Rightarrow> u8"
  ior_bbr :: "'c \<Rightarrow> u8"
  ior_cbar :: "'c \<Rightarrow> u8"
  tcr_tde0 :: u8

section \<open>The board\<close>

definition PHYS_SIZE :: nat where "PHYS_SIZE = 2 ^ 20"
definition FIFO_SIZE :: nat where "FIFO_SIZE = 256"

text \<open>\<open>out\<close> is what the program has printed.\<close>

record pm3 =
  memory :: "nat \<Rightarrow> u8"
  reads :: u64
  writes :: u64
  inputs :: u64
  outputs :: u64
  coverage :: "nat \<Rightarrow> u64"
  asic_index :: u8
  port_fe :: u8
  rx_fifo :: "u8 list"
  rx_pos :: nat
  tx_fifo :: "u8 list"
  trace_io :: bool
  out :: string

definition phys :: "u32 \<Rightarrow> nat" where
  "phys address = unat (address AND of_nat (PHYS_SIZE - 1))"

definition memory_read :: "u32 \<Rightarrow> pm3 \<Rightarrow> u8 \<times> pm3" where
  "memory_read address m = (memory m (phys address), m\<lparr>reads := reads m + 1\<rparr>)"

definition memory_write :: "u32 \<Rightarrow> u8 \<Rightarrow> pm3 \<Rightarrow> pm3" where
  "memory_write address value m = m\<lparr>writes := writes m + 1, memory := (memory m)(phys address := value)\<rparr>"

definition hex :: "nat \<Rightarrow> 'a::len word \<Rightarrow> string" where
  "hex w x = pad w (digits False 16 (unat x))"

definition print :: "string \<Rightarrow> pm3 \<Rightarrow> pm3" where
  "print t m = m\<lparr>out := out m @ t\<rparr>"

definition newline :: string where "newline = [CHR 0x0A]"

definition port_read :: "'c z180 \<Rightarrow> 'c \<Rightarrow> u32 \<Rightarrow> pm3 \<Rightarrow> u8 \<times> pm3" where
  "port_read Z cpu port m =
     (let m = m\<lparr>inputs := inputs m + 1\<rparr>;
          (value, m) = (if port AND 0xffff = 0x00fe then (port_fe m, m\<lparr>port_fe := 0\<rparr>) else (0, m));
          value = (if port AND 0xffff = 0x00f5 then (if rx_pos m < length (rx_fifo m) then 0 else 0x20) else value);
          (value, m) = (if port AND 0xff = 0xf0 \<and> rx_pos m < length (rx_fifo m)
                        then (rx_fifo m ! rx_pos m, m\<lparr>rx_pos := rx_pos m + 1\<rparr>) else (value, m));
          m = (if trace_io m
               then print (''IN  '' @ hex 4 port @ '' -> '' @ hex 2 value @ '' pc='' @ hex 4 (old_pc Z cpu) @ '' asic=''
                           @ hex 2 (asic_index m) @ newline) m
               else m)
      in (value, m))"

definition port_write :: "'c z180 \<Rightarrow> 'c \<Rightarrow> u32 \<Rightarrow> u8 \<Rightarrow> pm3 \<Rightarrow> pm3" where
  "port_write Z cpu port value m =
     (let m = m\<lparr>outputs := outputs m + 1\<rparr>;
          m = (if port AND 0xffff = 0x00c0 \<or> port AND 0xffff = 0x00c2 then m\<lparr>asic_index := value\<rparr> else m);
          m = (if port AND 0xff = 0xf0 \<and> length (tx_fifo m) < FIFO_SIZE then m\<lparr>tx_fifo := tx_fifo m @ [value]\<rparr> else m)
      in if trace_io m
         then print (''OUT '' @ hex 4 port @ ''='' @ hex 2 value @ '' pc='' @ hex 4 (old_pc Z cpu) @ newline) m
         else m)"

text \<open>A call of the core with the board's callbacks.\<close>

primrec with_board :: "'c z180 \<Rightarrow> ('c, 'a) bus \<Rightarrow> pm3 \<Rightarrow> 'a \<times> 'c \<times> pm3" where
  "with_board Z (Halted x cpu) m = (x, cpu, m)"
| "with_board Z (Mem_read a k) m = with_board Z (k (fst (memory_read a m))) (snd (memory_read a m))"
| "with_board Z (Mem_write a v k) m = with_board Z k (memory_write a v m)"
| "with_board Z (Port_in p cpu k) m = with_board Z (k (fst (port_read Z cpu p m))) (snd (port_read Z cpu p m))"
| "with_board Z (Port_out p v cpu k) m = with_board Z k (port_write Z cpu p v m)"

section \<open>Arguments\<close>

text \<open>Both parsers end the program with status 2 on a bad argument: \<open>None\<close>.\<close>

definition skip_separator :: "string \<Rightarrow> string option" where
  "skip_separator e =
     (case e of [] \<Rightarrow> Some [] | c # e' \<Rightarrow> if c = CHR '','' \<or> c = CHR '':'' \<or> c = CHR '' '' then Some e' else None)"

function hex_bytes :: "string \<Rightarrow> nat \<Rightarrow> u8 list option" where
  "hex_bytes s room =
     (if s = [] then Some []
      else if snd (strtoul 16 s) = s \<or> fst (strtoul 16 s) > 0xff \<or> room = 0 then None
      else case skip_separator (snd (strtoul 16 s)) of
             None \<Rightarrow> None
           | Some rest \<Rightarrow> map_option ((#) (of_nat (fst (strtoul 16 s)))) (hex_bytes rest (room - 1)))"
  by pat_completeness auto
termination
proof (relation "measure (\<lambda>(s, _). length s)")
  fix s rest and room :: nat
  assume a: "\<not> (snd (strtoul 16 s) = s \<or> 0xff < fst (strtoul 16 s) \<or> room = 0)" "skip_separator (snd (strtoul 16 s)) = Some rest"
  have "length (snd (strtoul 16 s)) < length s"
    using a(1) by (auto simp: strtoul_def dest: strto_shorter split: option.splits)
  moreover have "length rest \<le> length (snd (strtoul 16 s))"
    using a(2) by (auto simp: skip_separator_def split: list.splits if_splits)
  ultimately show "((rest, room - 1), s, room) \<in> measure (\<lambda>(s, _). length s)" by simp
qed simp

declare hex_bytes.simps [simp del]

definition parse_hex_bytes :: "string \<Rightarrow> u8 list option" where
  "parse_hex_bytes s = hex_bytes s FIFO_SIZE"

definition number :: "string \<Rightarrow> nat option" where
  "number s = (let (value, e) = strtoul 0 s in if s = [] \<or> e \<noteq> [] then None else Some value)"

record options =
  steps :: nat
  timer_every :: nat
  extint_every :: nat
  rx_at :: nat
  extint :: u32
  extint_data :: u32
  opt_port_fe :: u32
  rx_hex :: "string option"
  opt_trace_io :: bool
  image :: "string option"

definition default_options :: options where
  "default_options = \<lparr>steps = 10000000, timer_every = 0, extint_every = 0, rx_at = 200000, extint = 0, extint_data = 0,
     opt_port_fe = 0, rx_hex = None, opt_trace_io = False, image = None\<rparr>"

definition numeric :: "string \<Rightarrow> string \<Rightarrow> options \<Rightarrow> options option" where
  "numeric a v opts =
     (if a = ''--steps'' then map_option (\<lambda>n. opts\<lparr>steps := n\<rparr>) (number v)
      else if a = ''--timer-every'' then map_option (\<lambda>n. opts\<lparr>timer_every := n\<rparr>) (number v)
      else if a = ''--extint-every'' then map_option (\<lambda>n. opts\<lparr>extint_every := n\<rparr>) (number v)
      else if a = ''--extint'' then map_option (\<lambda>n. opts\<lparr>extint := of_nat n\<rparr>) (number v)
      else if a = ''--extint-data'' then map_option (\<lambda>n. opts\<lparr>extint_data := of_nat n\<rparr>) (number v)
      else if a = ''--port-fe'' then map_option (\<lambda>n. opts\<lparr>opt_port_fe := of_nat n\<rparr>) (number v)
      else if a = ''--rx-hex'' then Some (opts\<lparr>rx_hex := Some v\<rparr>)
      else map_option (\<lambda>n. opts\<lparr>rx_at := n\<rparr>) (number v))"

definition value_options :: "string list" where
  "value_options = [''--steps'', ''--timer-every'', ''--extint-every'', ''--extint'', ''--extint-data'', ''--port-fe'', ''--rx-hex'', ''--rx-at'']"

fun parse_args :: "string list \<Rightarrow> options \<Rightarrow> options option" where
  "parse_args [] opts = Some opts"
| "parse_args [a] opts =
     (if a = ''--trace-io'' then Some (opts\<lparr>opt_trace_io := True\<rparr>)
      else if take 1 a \<noteq> ''-'' then Some (opts\<lparr>image := Some a\<rparr>) else None)"
| "parse_args (a # v # as) opts =
     (if a = ''--trace-io'' then parse_args (v # as) (opts\<lparr>opt_trace_io := True\<rparr>)
      else if a \<in> set value_options then Option.bind (numeric a v opts) (parse_args as)
      else if take 1 a \<noteq> ''-'' then parse_args (v # as) (opts\<lparr>image := Some a\<rparr>) else None)"

section \<open>Running\<close>

text \<open>An iteration after the core's step.  \<open>rx\<close>: there is a list of received bytes.\<close>

definition interrupts :: "'c z180 \<Rightarrow> options \<Rightarrow> nat \<Rightarrow> 'c \<Rightarrow> pm3 \<Rightarrow> 'c \<times> pm3" where
  "interrupts Z opts i cpu m =
     (let (cpu, m) = (if timer_every opts \<noteq> 0 \<and> i \<noteq> 0 \<and> i mod timer_every opts = 0 \<and> ie1 Z cpu
                         \<and> ior_tcr Z cpu AND tcr_tde0 Z \<noteq> 0
                      then snd (with_board Z (z180_exception_intint Z cpu) m) else (cpu, m));
          (cpu, m) = (if extint_every opts \<noteq> 0 \<and> i \<noteq> 0 \<and> i mod extint_every opts = 0 \<and> ie1 Z cpu
                      then snd (with_board Z (z180_exception_extint Z (extint opts) (ucast (extint_data opts)) cpu)
                                 (m\<lparr>port_fe := ucast (opt_port_fe opts)\<rparr>)) else (cpu, m))
      in if rx_hex opts \<noteq> None \<and> i \<ge> rx_at opts \<and> i mod 10000 = 0 \<and> rx_pos m < length (rx_fifo m) \<and> ie1 Z cpu
         then snd (with_board Z (z180_exception_extint Z 0 0 cpu) (m\<lparr>port_fe := 0xa0\<rparr>))
         else (cpu, m))"

definition count_pc :: "'c z180 \<Rightarrow> 'c \<Rightarrow> pm3 \<Rightarrow> pm3" where
  "count_pc Z cpu m =
     (let a = unat (pc Z cpu AND 0xffff) in m\<lparr>coverage := (coverage m)(a := coverage m a + 1)\<rparr>)"

text \<open>The loop from step \<open>i\<close> with \<open>n\<close> steps to go; it ends early when the core stops.\<close>

fun run_steps :: "'c z180 \<Rightarrow> options \<Rightarrow> nat \<Rightarrow> nat \<Rightarrow> 'c \<Rightarrow> pm3 \<Rightarrow> 'c \<times> pm3" where
  "run_steps Z opts i 0 cpu m = (cpu, m)"
| "run_steps Z opts i (Suc n) cpu m =
     (let (go_on, cpu, m) = with_board Z (z180_step Z cpu) (count_pc Z cpu m) in
      if \<not> go_on then (cpu, m)
      else let (cpu, m) = interrupts Z opts i cpu m in run_steps Z opts (Suc i) n cpu m)"

section \<open>The report\<close>

definition logical_byte :: "'c z180 \<Rightarrow> 'c \<Rightarrow> pm3 \<Rightarrow> u16 \<Rightarrow> u8" where
  "logical_byte Z cpu m address = memory m (phys (z180_get_address Z cpu address))"

definition logical_word :: "'c z180 \<Rightarrow> 'c \<Rightarrow> pm3 \<Rightarrow> u16 \<Rightarrow> u16" where
  "logical_word Z cpu m address =
     ucast (logical_byte Z cpu m address) OR push_bit 8 (ucast (logical_byte Z cpu m (address + 1)))"

definition udec :: "'a::len word \<Rightarrow> string" where
  "udec x = digits False 10 (unat x)"

definition executed :: "pm3 \<Rightarrow> nat" where
  "executed m = length (filter (\<lambda>a. coverage m a \<noteq> 0) [0..<65536])"

text \<open>The first address with the largest count among those of \<open>as\<close> (0 with no count at all).\<close>

definition hottest :: "(nat \<Rightarrow> u64) \<Rightarrow> nat list \<Rightarrow> u64 \<times> nat" where
  "hottest cov as = fold (\<lambda>a (best, at). if cov a > best then (cov a, a) else (best, at)) as (0, 0)"

fun hot_list :: "nat \<Rightarrow> (nat \<Rightarrow> u64) \<Rightarrow> (nat \<times> u64) list" where
  "hot_list 0 cov = []"
| "hot_list (Suc rank) cov =
     (let (best, at) = hottest cov [0..<65536]
      in if best = 0 then [] else (at, best) # hot_list rank (cov(at := 0)))"

definition report :: "'c z180 \<Rightarrow> options \<Rightarrow> 'c \<Rightarrow> pm3 \<Rightarrow> string" where
  "report Z opts cpu m =
     ''pc='' @ hex 4 (pc Z cpu) @ '' sp='' @ hex 4 (sp Z cpu) @ '' af='' @ hex 4 (af Z cpu) @ '' bc='' @ hex 4 (bc Z cpu)
     @ '' de='' @ hex 4 (de Z cpu) @ '' hl='' @ hex 4 (hl Z cpu) @ newline
     @ ''I='' @ hex 2 (drop_bit 8 (ir Z cpu)) @ '' IL='' @ hex 2 (ior_il Z cpu) @ '' TCR='' @ hex 2 (ior_tcr Z cpu)
     @ '' IE='' @ (if ie1 Z cpu then ''1'' else ''0'') @ ''/'' @ (if ie2 Z cpu then ''1'' else ''0'') @ newline
     @ ''MMU CBR='' @ hex 2 (ior_cbr Z cpu) @ '' BBR='' @ hex 2 (ior_bbr Z cpu) @ '' CBAR='' @ hex 2 (ior_cbar Z cpu)
     @ ''; vectors 0244='' @ hex 2 (memory m 0x245) @ hex 2 (memory m 0x244) @ '' 0246='' @ hex 2 (memory m 0x247)
     @ hex 2 (memory m 0x246) @ ''; tick='' @ hex 2 (memory m 0x807c) @ hex 2 (memory m 0x807b) @ newline
     @ ''executed='' @ digits False 10 (executed m) @ '' reads='' @ udec (reads m) @ '' writes='' @ udec (writes m)
     @ '' inputs='' @ udec (inputs m) @ '' outputs='' @ udec (outputs m) @ newline
     @ (if rx_hex opts = None then []
        else ''fifo rx='' @ digits False 10 (rx_pos m) @ ''/'' @ digits False 10 (length (rx_fifo m)) @ '' tx=''
          @ digits False 10 (length (tx_fifo m)) @ concat (map (\<lambda>v. '' '' @ hex 2 v) (tx_fifo m)) @ newline
          @ ''rx-ring count='' @ udec (logical_word Z cpu m 0x818e) @ '' get='' @ hex 4 (logical_word Z cpu m 0xc865)
          @ '' put='' @ hex 4 (logical_word Z cpu m 0xc867) @ '' start='' @ hex 4 (logical_word Z cpu m 0xc869)
          @ '' end='' @ hex 4 (logical_word Z cpu m 0xc86b) @ newline)
     @ concat (map (\<lambda>(a, n). ''hot '' @ pad 4 (digits False 16 a) @ '' '' @ udec n @ newline) (hot_list 12 (coverage m)))"

section \<open>The program\<close>

definition power_on :: "options \<Rightarrow> u8 list \<Rightarrow> u8 list \<Rightarrow> pm3" where
  "power_on opts rx content =
     \<lparr>memory = (\<lambda>a. if a < length content then content ! a else 0xff), reads = 0, writes = 0, inputs = 0, outputs = 0,
      coverage = (\<lambda>_. 0), asic_index = 0, port_fe = 0, rx_fifo = rx, rx_pos = 0, tx_fifo = [],
      trace_io = opt_trace_io opts, out = []\<rparr>"

text \<open>Exit status and output; \<open>calloc_ok\<close>: the board was allocated, \<open>file\<close>: what opening and reading a file gives.\<close>

definition pm3_main :: "'c z180 \<Rightarrow> bool \<Rightarrow> (string \<Rightarrow> u8 list option) \<Rightarrow> string list \<Rightarrow> nat \<times> string" where
  "pm3_main Z calloc_ok file args =
     (case parse_args args default_options of
        None \<Rightarrow> (2, [])
      | Some opts \<Rightarrow>
          (case image opts of
             None \<Rightarrow> (2, [])
           | Some path \<Rightarrow>
               if \<not> calloc_ok then (2, [])
               else
                 (case (case rx_hex opts of None \<Rightarrow> Some [] | Some t \<Rightarrow> parse_hex_bytes t) of
                    None \<Rightarrow> (2, [])
                  | Some rx \<Rightarrow>
                      (case file path of
                         None \<Rightarrow> (2, [])
                       | Some bytes \<Rightarrow>
                           (let content = take PHYS_SIZE bytes in
                            if length content < 255 * 1024 \<or> length content > 256 * 1024 then (2, [])
                            else
                              (let (cpu, m) = run_steps Z opts 0 (steps opts) (z180_reset Z) (power_on opts rx content)
                               in (0, out m @ report Z opts cpu m)))))))"

section \<open>The received bytes as an argument\<close>

lemma strto_hex_byte:
  assumes "r = [] \<or> \<not> is_digit 16 (hd r)" "take 1 r \<notin> {''x'', ''X''}"
  shows "strto 16 (hex 2 b @ r) = Some (False, unat (b :: u8), r)"
proof -
  define ds where "ds = hex 2 b"
  have rb: "takeWhile (is_digit 16) (ds @ r) = ds" "dropWhile (is_digit 16) (ds @ r) = r" "digits_value 16 ds = unat b"
    using hex.read_back [OF assms(1), of 2 False "unat b"] by (simp_all add: ds_def hex_def)
  have ne: "ds \<noteq> []" by (simp add: ds_def hex_def pad_def)
  have "\<forall>c \<in> set ds. is_digit 16 c" using set_takeWhileD [of _ "is_digit 16" "ds @ r"] unfolding rb(1) by blast
  then obtain d es where d: "ds = d # es" "is_digit 16 d" "\<forall>c \<in> set es. is_digit 16 c" using ne by (cases ds) auto
  have skip: "dropWhile isspace (ds @ r) = ds @ r" "sign_of (ds @ r) = (False, ds @ r)"
    using digit_chars [OF d(2)] by (simp_all add: d sign_of_def)
  have "take 1 (es @ r) \<notin> {''x'', ''X''}" using assms(2) d(3) digit_chars(3,4) by (cases es) auto
  then have "radix 16 (ds @ r) = (16, ds @ r)" by (simp add: radix_def hex_prefix_def d take_2)
  then show ?thesis using skip rb ne by (simp add: strto_def flip: ds_def)
qed

definition separators :: "char set" where "separators = {CHR '','', CHR '':'', CHR '' ''}"

lemma hex_bytes_printed:
  "\<lbrakk>length bs \<le> room; \<forall>(b, c) \<in> set bs. c \<in> separators\<rbrakk>
     \<Longrightarrow> hex_bytes (concat (map (\<lambda>(b, c). hex 2 b @ [c]) bs)) room = Some (map fst bs)"
proof (induction bs arbitrary: room)
  case Nil
  then show ?case by (simp add: hex_bytes.simps)
next
  case (Cons x bs)
  obtain b c where x: "x = (b, c)" by fastforce
  let ?t = "concat (map (\<lambda>(b, c). hex 2 b @ [c]) bs)"
  have c: "c \<in> separators" using Cons.prems(2) by (simp add: x)
  have "\<not> is_digit 16 c" "c \<noteq> CHR ''x''" "c \<noteq> CHR ''X''" using c by (auto simp: separators_def is_digit_def digit_value_def)
  then have "strto 16 (hex 2 b @ c # ?t) = Some (False, unat b, c # ?t)" by (intro strto_hex_byte) simp_all
  then have p: "strtoul 16 (hex 2 b @ c # ?t) = (unat b, c # ?t)"
    using unsigned_less [where 'a = nat, of b] by (simp add: strtoul_def ulong_def)
  have sep: "skip_separator (c # ?t) = Some ?t" using c by (auto simp: skip_separator_def separators_def)
  have "hex_bytes ?t (room - 1) = Some (map fst bs)" using Cons by (intro Cons.IH) auto
  moreover have "room \<noteq> 0" using Cons.prems(1) by auto
  moreover have "unat b \<le> 0xff" using unsigned_less [where 'a = nat, of b] by simp
  moreover have "hex 2 b \<noteq> []" by (simp add: hex_def pad_def)
  ultimately show ?case by (subst hex_bytes.simps) (simp add: x p sep)
qed

text \<open>
  The list of received bytes reads back.  Up to 256 bytes printed with two hexadecimal digits, each
  followed by a comma, a colon or a blank, are read by \<^verbatim>\<open>parse_hex_bytes\<close> as exactly these bytes.
\<close>

theorem hex_bytes_round_trip:
  assumes "\<forall>(b, c) \<in> set bs. c \<in> separators"
  shows "length bs \<le> FIFO_SIZE \<Longrightarrow> parse_hex_bytes (concat (map (\<lambda>(b, c). hex 2 b @ [c]) bs)) = Some (map fst bs)"
  using hex_bytes_printed assms by (simp add: parse_hex_bytes_def)

theorem hex_bytes_round_trip_witness:
  "parse_hex_bytes (concat (map (\<lambda>(b, c). hex 2 b @ [c]) [(0x7e :: u8, CHR '',''), (5, CHR '' '')])) = Some [0x7e, 5] \<and>
   concat (map (\<lambda>(b, c). hex 2 b @ [c]) [(0x7e :: u8, CHR '',''), (5, CHR '' '')]) = ''7e,05 ''"
  using hex_bytes_round_trip [of "[(0x7e, CHR '',''), (5, CHR '' '')]"]
  by (simp add: separators_def FIFO_SIZE_def hex_def pad_def digits.simps digit_char_def)

section \<open>The FIFOs\<close>

text \<open>The port cycles of a call, with the values that passed.\<close>

datatype cycle = In u32 u8 | Out u32 u8

primrec cycles :: "'c z180 \<Rightarrow> ('c, 'a) bus \<Rightarrow> pm3 \<Rightarrow> cycle list" where
  "cycles Z (Halted x cpu) m = []"
| "cycles Z (Mem_read a k) m = cycles Z (k (fst (memory_read a m))) (snd (memory_read a m))"
| "cycles Z (Mem_write a v k) m = cycles Z k (memory_write a v m)"
| "cycles Z (Port_in p cpu k) m =
     In p (fst (port_read Z cpu p m)) # cycles Z (k (fst (port_read Z cpu p m))) (snd (port_read Z cpu p m))"
| "cycles Z (Port_out p v cpu k) m = Out p v # cycles Z k (port_write Z cpu p v m)"

fun fifo_reads :: "cycle list \<Rightarrow> u8 list" where
  "fifo_reads [] = []"
| "fifo_reads (In p v # cs) = (if p AND 0xff = 0xf0 then v # fifo_reads cs else fifo_reads cs)"
| "fifo_reads (_ # cs) = fifo_reads cs"

fun fifo_writes :: "cycle list \<Rightarrow> u8 list" where
  "fifo_writes [] = []"
| "fifo_writes (Out p v # cs) = (if p AND 0xff = 0xf0 then v # fifo_writes cs else fifo_writes cs)"
| "fifo_writes (_ # cs) = fifo_writes cs"

lemma port_f0: "port AND 0xff = 0xf0 \<Longrightarrow> port AND 0xffff \<noteq> 0x00fe \<and> port AND 0xffff \<noteq> 0x00f5" for port :: u32
proof -
  assume p: "port AND 0xff = 0xf0"
  have "port AND 0xff = (port AND 0xffff) AND 0xff" by (simp add: and.assoc)
  then show ?thesis using p by auto
qed

lemma port_read_fifo:
  "rx_fifo (snd (port_read Z cpu p m)) = rx_fifo m"
  "tx_fifo (snd (port_read Z cpu p m)) = tx_fifo m"
  "rx_pos (snd (port_read Z cpu p m)) = (if p AND 0xff = 0xf0 then min (rx_pos m + 1) (max (rx_pos m) (length (rx_fifo m))) else rx_pos m)"
  "p AND 0xff = 0xf0 \<Longrightarrow> fst (port_read Z cpu p m) = (if rx_pos m < length (rx_fifo m) then rx_fifo m ! rx_pos m else 0)"
  "coverage (snd (port_read Z cpu p m)) = coverage m"
  using port_f0 [of p] by (auto simp: port_read_def print_def Let_def)

lemma port_write_fifo:
  "rx_fifo (port_write Z cpu p v m) = rx_fifo m" "rx_pos (port_write Z cpu p v m) = rx_pos m"
  "coverage (port_write Z cpu p v m) = coverage m"
  "length (tx_fifo m) \<le> FIFO_SIZE \<Longrightarrow>
     tx_fifo (port_write Z cpu p v m) = (if p AND 0xff = 0xf0 then take FIFO_SIZE (tx_fifo m @ [v]) else tx_fifo m)"
  by (auto simp: port_write_def print_def Let_def)

lemma memory_fifo [simp]:
  "rx_fifo (snd (memory_read a m)) = rx_fifo m" "rx_pos (snd (memory_read a m)) = rx_pos m"
  "tx_fifo (snd (memory_read a m)) = tx_fifo m" "coverage (snd (memory_read a m)) = coverage m"
  "rx_fifo (memory_write a v m) = rx_fifo m" "rx_pos (memory_write a v m) = rx_pos m"
  "tx_fifo (memory_write a v m) = tx_fifo m" "coverage (memory_write a v m) = coverage m"
  by (simp_all add: memory_read_def memory_write_def)

text \<open>What a call did to the FIFOs, from its cycles.\<close>

definition fifo_step :: "cycle list \<Rightarrow> pm3 \<Rightarrow> pm3 \<Rightarrow> bool" where
  "fifo_step cs m m' \<longleftrightarrow> rx_fifo m' = rx_fifo m \<and> coverage m' = coverage m \<and>
     rx_pos m' = min (rx_pos m + length (fifo_reads cs)) (length (rx_fifo m)) \<and>
     fifo_reads cs = take (length (fifo_reads cs)) (drop (rx_pos m) (rx_fifo m))
       @ replicate (rx_pos m + length (fifo_reads cs) - length (rx_fifo m)) 0 \<and>
     tx_fifo m' = take FIFO_SIZE (tx_fifo m @ fifo_writes cs)"

definition fifo_ok :: "pm3 \<Rightarrow> bool" where
  "fifo_ok m \<longleftrightarrow> rx_pos m \<le> length (rx_fifo m) \<and> length (tx_fifo m) \<le> FIFO_SIZE"

lemma fifo_step_read:
  assumes "fifo_ok m" "p AND 0xff = 0xf0" "fifo_step cs (snd (port_read Z cpu p m)) m'"
  shows "fifo_step (In p (fst (port_read Z cpu p m)) # cs) m m'"
proof (cases "rx_pos m < length (rx_fifo m)")
  case True
  then have "drop (rx_pos m) (rx_fifo m) = rx_fifo m ! rx_pos m # drop (Suc (rx_pos m)) (rx_fifo m)" by (simp add: Cons_nth_drop_Suc)
  then show ?thesis using assms True by (simp add: fifo_step_def port_read_fifo fifo_ok_def)
next
  case False
  then have e: "rx_pos m = length (rx_fifo m)" using assms(1) by (simp add: fifo_ok_def)
  have "fifo_reads cs = replicate (length (fifo_reads cs)) 0" using assms(2,3) e by (simp add: fifo_step_def port_read_fifo)
  then show ?thesis using assms e by (simp add: fifo_step_def port_read_fifo)
qed

lemma board_fifo: "fifo_ok m \<Longrightarrow> fifo_step (cycles Z t m) m (snd (snd (with_board Z t m)))"
proof (induction t arbitrary: m)
  case (Halted x cpu)
  then show ?case by (simp add: fifo_step_def fifo_ok_def)
next
  case (Mem_read a k)
  then show ?case using Mem_read.IH [OF rangeI, of "snd (memory_read a m)"] by (simp add: fifo_step_def fifo_ok_def)
next
  case (Mem_write a v t)
  then show ?case using Mem_write.IH [of "memory_write a v m"] by (simp add: fifo_step_def fifo_ok_def)
next
  case (Port_in p cpu k)
  let ?m = "snd (port_read Z cpu p m)"
  have "fifo_ok ?m" using Port_in.prems by (simp add: fifo_ok_def port_read_fifo)
  note IH = Port_in.IH [OF rangeI this, of "fst (port_read Z cpu p m)"]
  show ?case
  proof (cases "p AND 0xff = 0xf0")
    case True
    then show ?thesis using fifo_step_read [OF Port_in.prems True IH] by simp
  next
    case False
    then show ?thesis using IH by (simp add: fifo_step_def port_read_fifo)
  qed
next
  case (Port_out p v cpu t)
  have l: "length (tx_fifo m) \<le> FIFO_SIZE" using Port_out.prems by (simp add: fifo_ok_def)
  then have "fifo_ok (port_write Z cpu p v m)" using Port_out.prems by (auto simp: fifo_ok_def port_write_fifo)
  then have "fifo_step (cycles Z t (port_write Z cpu p v m)) (port_write Z cpu p v m) (snd (snd (with_board Z t (port_write Z cpu p v m))))"
    by (rule Port_out.IH)
  moreover have "take FIFO_SIZE (take FIFO_SIZE (tx_fifo m @ [v]) @ ws) = take FIFO_SIZE (tx_fifo m @ v # ws)" for ws
    using l by (cases "length (tx_fifo m) = FIFO_SIZE") (simp_all add: take_Cons')
  ultimately show ?case using l by (auto simp: fifo_step_def port_write_fifo)
qed

lemma fifo_step_ok: "\<lbrakk>fifo_ok m; fifo_step cs m m'\<rbrakk> \<Longrightarrow> fifo_ok m'"
  by (auto simp: fifo_ok_def fifo_step_def)

lemma fifo_reads_append [simp]: "fifo_reads (cs @ ds) = fifo_reads cs @ fifo_reads ds"
  by (induction cs rule: fifo_reads.induct) simp_all

lemma fifo_writes_append [simp]: "fifo_writes (cs @ ds) = fifo_writes cs @ fifo_writes ds"
  by (induction cs rule: fifo_writes.induct) simp_all

text \<open>
  C40. The board delivers the received bytes once and in order.  Whatever the core does during a call, the
  values it reads from the data port are the next bytes of the list it was given and then zeros, the
  position moves by as many bytes as were read but never past the end, and the first 256 bytes
  written to the port are kept in order.
\<close>

theorem board_fifo_in_order:
  assumes "rx_pos m \<le> length (rx_fifo m)" "length (tx_fifo m) \<le> FIFO_SIZE" "with_board Z t m = (x, cpu, m')"
  shows "fifo_reads (cycles Z t m) =
      take (length (fifo_reads (cycles Z t m))) (drop (rx_pos m) (rx_fifo m)
        @ replicate (length (fifo_reads (cycles Z t m))) 0) \<and>
    rx_pos m' = min (rx_pos m + length (fifo_reads (cycles Z t m))) (length (rx_fifo m)) \<and>
    rx_fifo m' = rx_fifo m \<and> tx_fifo m' = take FIFO_SIZE (tx_fifo m @ fifo_writes (cycles Z t m))"
proof -
  let ?cs = "cycles Z t m"
  have s: "fifo_step ?cs m m'" using board_fifo [of m Z t] assms by (simp add: fifo_ok_def)
  have "take (length (fifo_reads ?cs)) (drop (rx_pos m) (rx_fifo m) @ replicate (length (fifo_reads ?cs)) 0) =
      take (length (fifo_reads ?cs)) (drop (rx_pos m) (rx_fifo m))
        @ replicate (rx_pos m + length (fifo_reads ?cs) - length (rx_fifo m)) 0"
    using assms(1) by (auto simp: min_def add.commute)
  then show ?thesis using s by (simp add: fifo_step_def)
qed

text \<open>A core that reads the data port three times and writes what it reads back.\<close>

definition echo_core :: "unit z180" where
  "echo_core = \<lparr>z180_reset = (), z180_step = (\<lambda>_. Port_in 0xf0 () (\<lambda>a. Port_out 0xf0 a () (Port_in 0xf0 () (\<lambda>b. Port_out 0xf0 b ()
       (Port_in 0xf0 () (\<lambda>_. Halted True ())))))), z180_exception_intint = Halted (), z180_exception_extint = (\<lambda>_ _. Halted ()),
     z180_get_address = (\<lambda>_ a. ucast a), pc = (\<lambda>_. 0x38), old_pc = (\<lambda>_. 0), sp = (\<lambda>_. 0), af = (\<lambda>_. 0), bc = (\<lambda>_. 0), de = (\<lambda>_. 0),
     hl = (\<lambda>_. 0), ir = (\<lambda>_. 0), ie1 = (\<lambda>_. False), ie2 = (\<lambda>_. False), ior_il = (\<lambda>_. 0), ior_tcr = (\<lambda>_. 0), ior_cbr = (\<lambda>_. 0),
     ior_bbr = (\<lambda>_. 0), ior_cbar = (\<lambda>_. 0), tcr_tde0 = 1\<rparr>"

theorem board_fifo_in_order_witness:
  "tx_fifo (snd (snd (with_board echo_core (z180_step echo_core ()) (power_on default_options [7, 9] [])))) = [7, 9] \<and>
   fifo_reads (cycles echo_core (z180_step echo_core ()) (power_on default_options [7, 9] [])) = [7, 9, 0]"
proof -
  let ?m = "power_on default_options [7, 9] []"
  obtain x cpu m' where b: "with_board echo_core (z180_step echo_core ()) ?m = (x, cpu, m')"
    by (cases "with_board echo_core (z180_step echo_core ()) ?m") blast
  have c: "length (fifo_reads (cycles echo_core (z180_step echo_core ()) ?m)) = 3" "fifo_writes (cycles echo_core (z180_step echo_core ()) ?m) = [7, 9]"
    by (simp_all add: echo_core_def port_read_def port_write_def power_on_def default_options_def FIFO_SIZE_def Let_def)
  have "rx_pos ?m = 0" "rx_fifo ?m = [7, 9]" "tx_fifo ?m = []" by (simp_all add: power_on_def)
  then show ?thesis using board_fifo_in_order [OF _ _ b] b c by (simp add: FIFO_SIZE_def eval_nat_numeral)
qed

section \<open>Coverage\<close>

lemma board_coverage: "coverage (snd (snd (with_board Z t m))) = coverage m"
proof (induction t arbitrary: m)
  case (Mem_read a k)
  then show ?case using Mem_read.IH [OF rangeI] by simp
next
  case (Port_in p cpu k)
  then show ?case using Port_in.IH [OF rangeI] by (simp add: port_read_fifo)
qed (simp_all add: port_write_fifo)

lemma interrupts_coverage: "coverage (snd (interrupts Z opts i cpu m)) = coverage m"
  by (simp add: interrupts_def Let_def case_prod_unfold board_coverage)

definition counted :: "pm3 \<Rightarrow> nat" where
  "counted m = (\<Sum>a < 65536. unat (coverage m a))"

lemma pc_slot: "unat (x AND 0xffff :: u32) < 65536"
  using word_and_le1 [of x "0xffff"] by (simp add: word_le_nat_alt)

lemma counted_count_pc:
  assumes "counted m + 1 < 2 ^ 64"
  shows "counted (count_pc Z cpu m) = counted m + 1"
proof -
  define a where "a = unat (pc Z cpu AND 0xffff)"
  have a: "a \<in> {..<65536}" using pc_slot by (simp add: a_def)
  then have split: "counted m' = unat (coverage m' a) + (\<Sum>x \<in> {..<65536} - {a}. unat (coverage m' x))" for m'
    unfolding counted_def by (intro sum.remove) simp_all
  have "unat (coverage m a) + 1 < 2 ^ 64" using split [of m] assms by linarith
  then have "unat (coverage m a + 1) = unat (coverage m a) + 1" by (simp add: unat_word_ariths)
  moreover have "coverage (count_pc Z cpu m) = (coverage m)(a := coverage m a + 1)" by (simp add: count_pc_def a_def Let_def)
  ultimately show ?thesis using split [of m] split [of "count_pc Z cpu m"] by simp
qed

lemma run_counted:
  assumes "\<forall>cpu m. fst (with_board Z (z180_step Z cpu) m)"
  shows "counted m + n < 2 ^ 64 \<Longrightarrow> counted (snd (run_steps Z opts i n cpu m)) = counted m + n"
proof (induction n arbitrary: i cpu m)
  case (Suc n)
  obtain cpu1 m1 where s: "with_board Z (z180_step Z cpu) (count_pc Z cpu m) = (True, cpu1, m1)"
    using assms by (metis (full_types) eq_fst_iff prod_cases3)
  obtain cpu2 m2 where t: "interrupts Z opts i cpu1 m1 = (cpu2, m2)" by fastforce
  have "coverage m2 = coverage (count_pc Z cpu m)"
    using board_coverage [of Z "z180_step Z cpu" "count_pc Z cpu m"] interrupts_coverage [of Z opts i cpu1 m1] s t by simp
  then have "counted m2 = counted m + 1" using counted_count_pc [of m Z cpu] Suc.prems by (simp add: counted_def)
  then show ?case using Suc by (simp add: s t)
qed simp

text \<open>
  Every executed step is counted.  With a core that never stops, the counters of the program addresses
  add up to the number of steps of the run.
\<close>

theorem coverage_counts_steps:
  assumes "\<forall>cpu m. fst (with_board Z (z180_step Z cpu) m)" "steps opts < 2 ^ 64"
  shows "counted (snd (run_steps Z opts 0 (steps opts) (z180_reset Z) (power_on opts rx content))) = steps opts"
  using run_counted [OF assms(1), of "power_on opts rx content"] assms(2) by (simp add: counted_def power_on_def)

theorem coverage_counts_steps_witness:
  "counted (snd (run_steps echo_core default_options 0 10000000 () (power_on default_options [7, 9] []))) = 10000000"
proof -
  have "fst (with_board echo_core (z180_step echo_core cpu) m)" for cpu m by (simp add: echo_core_def)
  then show ?thesis using coverage_counts_steps [of echo_core default_options] by (simp add: default_options_def echo_core_def)
qed

section \<open>The hot list\<close>

lemma hottest_fold:
  "fold (\<lambda>a (best, at). if cov a > best then (cov a, a) else (best, at)) as (b0, a0) = (best, at)
     \<Longrightarrow> b0 \<le> best \<and> (\<forall>a \<in> set as. cov a \<le> best) \<and>
       (best = b0 \<and> at = a0 \<or> at \<in> set as \<and> cov at = best \<and> b0 < best)" for cov :: "nat \<Rightarrow> u64"
proof (induction as arbitrary: b0 a0)
  case (Cons a as)
  show ?case
  proof (cases "cov a > b0")
    case True
    then show ?thesis using Cons.IH [of "cov a" a] Cons.prems by auto
  next
    case False
    then show ?thesis using Cons.IH [of b0 a0] Cons.prems by auto
  qed
qed simp

lemma hottest_spec:
  assumes "hottest cov as = (best, at)"
  shows "\<forall>a \<in> set as. cov a \<le> best" "best \<noteq> 0 \<Longrightarrow> at \<in> set as \<and> cov at = best"
  using hottest_fold [OF assms [unfolded hottest_def]] by auto

definition top_of :: "nat \<Rightarrow> (nat \<Rightarrow> u64) \<Rightarrow> (nat \<times> u64) list \<Rightarrow> bool" where
  "top_of k cov l \<longleftrightarrow> distinct (map fst l) \<and> sorted_wrt (\<ge>) (map snd l) \<and> length l \<le> k \<and>
     (\<forall>(a, n) \<in> set l. a < 65536 \<and> cov a = n \<and> n \<noteq> 0) \<and>
     (\<forall>a < 65536. a \<notin> fst ` set l \<longrightarrow> (\<forall>n \<in> snd ` set l. cov a \<le> n) \<and> (length l < k \<longrightarrow> cov a = 0))"

text \<open>
  The hot list is the top of the coverage.  The addresses it prints are distinct, with their counts in
  falling order; no address left out has been executed more often than one that is printed, and if
  fewer than the asked number are printed, all the others were never executed.
\<close>

theorem hot_list_top: "top_of k cov (hot_list k cov)"
proof (induction k arbitrary: cov)
  case (Suc k)
  obtain best at where h: "hottest cov [0..<65536] = (best, at)" by fastforce
  show ?case
  proof (cases "best = 0")
    case True
    then show ?thesis using hottest_spec(1) [OF h] by (simp add: h top_of_def)
  next
    case False
    define l where "l = hot_list k (cov(at := 0))"
    have e: "hot_list (Suc k) cov = (at, best) # l" using h False by (simp add: l_def)
    have at: "at < 65536" "cov at = best" using hottest_spec(2) [OF h False] by simp_all
    have IH: "top_of k (cov(at := 0)) l" unfolding l_def by (rule Suc.IH)
    note parts = IH [unfolded top_of_def]
    have all: "\<forall>(a, n) \<in> set l. a < 65536 \<and> (cov(at := 0)) a = n \<and> n \<noteq> 0" using parts by (elim conjE)
    have l: "distinct (map fst l)" "sorted_wrt (\<ge>) (map snd l)" "length l \<le> k" using parts by simp_all
    have rest: "\<forall>a < 65536. a \<notin> fst ` set l \<longrightarrow> (\<forall>n \<in> snd ` set l. (cov(at := 0)) a \<le> n) \<and> (length l < k \<longrightarrow> (cov(at := 0)) a = 0)"
      using parts by (elim conjE)
    have new: "at \<notin> fst ` set l" using all by auto
    have same: "a < 65536 \<and> cov a = n \<and> n \<noteq> 0" if "(a, n) \<in> set l" for a n
      using bspec [OF all that] imageI [OF that, of fst] new by (cases "a = at") simp_all
    have most: "cov a \<le> best" if "a < 65536" for a using hottest_spec(1) [OF h] that by simp
    have le: "n \<le> best" if "n \<in> snd ` set l" for n using that same most by fastforce
    show ?thesis unfolding e top_of_def
    proof (intro conjI allI impI)
      show "distinct (map fst ((at, best) # l))" using l(1) new by simp
      show "sorted_wrt (\<ge>) (map snd ((at, best) # l))" using l(2) le by simp
      show "length ((at, best) # l) \<le> Suc k" using l(3) by simp
      show "\<forall>(a, n) \<in> set ((at, best) # l). a < 65536 \<and> cov a = n \<and> n \<noteq> 0" using at False by (auto dest: same)
      fix a assume a: "a < 65536" "a \<notin> fst ` set ((at, best) # l)"
      then have "(\<forall>n \<in> snd ` set l. cov a \<le> n) \<and> (length l < k \<longrightarrow> cov a = 0)" using rest [rule_format, of a] by simp
      then show "\<forall>n \<in> snd ` set ((at, best) # l). cov a \<le> n" "length ((at, best) # l) < Suc k \<Longrightarrow> cov a = 0"
        using most [OF a(1)] by simp_all
    qed
  qed
qed (simp add: top_of_def)

end
