(* ===== verification/Reference.thy ===== *)
theory Reference
  imports CText
begin

text \<open>
  The V.34 B1 reference generator \<^verbatim>\<open>tools/v34_b1_reference.c\<close>: ten seconds of \<open>\<mu>\<close>-law audio with the data
  started after a second, or the mapping frames of B1.  The transmitter (spandsp) is a record of
  functions on an abstract state; the callbacks (constant ones, zero symbols) are registered with it.
\<close>

record 'm v34_tx =
  v34_init :: "int \<Rightarrow> 'm option"
  v34_tx_start_external_symbols :: "'m \<Rightarrow> int \<times> 'm"
  v34_v90_begin_tx_data :: "int \<Rightarrow> 'm \<Rightarrow> int \<times> 'm"
  v34_tx :: "nat \<Rightarrow> 'm \<Rightarrow> int list \<times> 'm"
  v34_seed_tx_data :: "int \<Rightarrow> 'm \<Rightarrow> int \<times> 'm"
  v34_get_mapping_frame_state :: "'m \<Rightarrow> (int \<times> u16 list) \<times> 'm"
  set_tx :: "int \<Rightarrow> int \<Rightarrow> u16 \<Rightarrow> 'm \<Rightarrow> 'm"
  parms_j :: "'m \<Rightarrow> int"
  parms_p :: "'m \<Rightarrow> int"
  linear_to_ulaw :: "int \<Rightarrow> u8"

text \<open>
  The blocks still to come: \<open>None\<close> is the return with status 1.  \<open>written k\<close> says whether the write of
  byte (or frame) \<open>k\<close> succeeds.
\<close>

fun audio_blocks :: "'m v34_tx \<Rightarrow> int \<Rightarrow> (nat \<Rightarrow> bool) \<Rightarrow> nat list \<Rightarrow> 'm \<Rightarrow> u8 list option" where
  "audio_blocks T bit_rate_n written [] m = Some []"
| "audio_blocks T bit_rate_n written (block # blocks) m =
     (let (r, m) = (if block = 50 then v34_v90_begin_tx_data T bit_rate_n m else (0, m)) in
      if r \<noteq> 0 then None
      else
        (let (amp, m) = v34_tx T 160 m in
         if length amp \<noteq> 160 \<or> \<not> (\<forall>i < 160. written (block * 160 + i)) then None
         else map_option ((@) (map (linear_to_ulaw T) amp)) (audio_blocks T bit_rate_n written blocks m)))"

definition host_bytes :: "u16 \<Rightarrow> u8 list" where
  "host_bytes x = [ucast x, ucast (drop_bit 8 x)]"

fun mapping_frames :: "'m v34_tx \<Rightarrow> (nat \<Rightarrow> bool) \<Rightarrow> nat list \<Rightarrow> 'm \<Rightarrow> u8 list option" where
  "mapping_frames T written [] m = Some []"
| "mapping_frames T written (k # ks) m =
     (let ((n, frame), m) = v34_get_mapping_frame_state T m in
      if n \<noteq> 16 \<or> \<not> written k then None
      else map_option ((@) (concat (map host_bytes (take 16 frame)))) (mapping_frames T written ks m))"

definition c_div :: "int \<Rightarrow> int \<Rightarrow> int" where
  "c_div a b = (if a < 0 then - ((- a) div b) else a div b)"

definition b1_main :: "'m v34_tx \<Rightarrow> (nat \<Rightarrow> bool) \<Rightarrow> string list \<Rightarrow> u8 list option" where
  "b1_main T written args =
     (let bit_rate = (if length args > 1 then atoi (args ! 1) else 31200);
          bit_rate_n = c_div bit_rate 2400
      in case v34_init T bit_rate of
           None \<Rightarrow> None
         | Some m \<Rightarrow>
             if args \<noteq> []
             then let (r, m) = v34_tx_start_external_symbols T m
                  in if r \<noteq> 0 then None else audio_blocks T bit_rate_n written [0..<500] m
             else let (r, m) = v34_seed_tx_data T bit_rate_n m
                  in if r \<noteq> 0 then None
                     else
                       (let j = parms_j T m; m = set_tx T 4 (j - 1) (of_int (2 * (j - 1))) m
                        in mapping_frames T written [0..<nat (parms_p T m)] m))"

lemma audio_length: "audio_blocks T n written blocks m = Some bytes \<Longrightarrow> length bytes = 160 * length blocks"
proof (induction blocks arbitrary: m bytes)
  case (Cons block blocks)
  then show ?case by (auto simp: Let_def case_prod_unfold split: if_splits dest!: Cons.IH)
qed simp

text \<open>A run that ends with status 0 has written ten seconds of audio at 8000 samples a second.\<close>

lemma b1_audio_length: "\<lbrakk>b1_main T written args = Some bytes; args \<noteq> []\<rbrakk> \<Longrightarrow> length bytes = 80000"
  by (auto simp: b1_main_def Let_def case_prod_unfold dest!: audio_length split: option.splits if_splits)

end
