(* ===== verification/Selftest.thy ===== *)
theory Selftest
  imports Frames "HOL-Library.Monad_Syntax"
begin

text \<open>
  The self test of the core, \<^verbatim>\<open>adsp2181emu/adsp2181_core_test.c\<close>, as a program over the host interface:
  one definition per paragraph of its \<^verbatim>\<open>main\<close>, \<open>None\<close> being a failed assertion (or undefined
  behaviour); and the rules that evaluate such a program on the model, by which \<open>Verdict\<close> shows that
  each paragraph passes from every state with quiet instrumentation, and so does the whole test.  The
  allocation of the core succeeds; to free it at the end has no effect on the model.
\<close>

section \<open>Steps of a test\<close>

definition assertion :: "bool \<Rightarrow> adsp2181 \<Rightarrow> adsp2181 option" where
  "assertion p cpu = (if p then Some cpu else None)"

text \<open>Stores through the pointers \<^verbatim>\<open>adsp2181_pm\<close> and \<^verbatim>\<open>adsp2181_dm\<close>.\<close>

definition set_pm :: "u32 \<Rightarrow> u32 \<Rightarrow> adsp2181 \<Rightarrow> adsp2181" where
  "set_pm a w cpu = cpu\<lparr>program := (program cpu)(a := w)\<rparr>"

definition set_dm :: "u32 \<Rightarrow> u16 \<Rightarrow> adsp2181 \<Rightarrow> adsp2181" where
  "set_dm a w cpu = cpu\<lparr>data := (data cpu)(a := w)\<rparr>"

fun load_words :: "u32 \<Rightarrow> u32 list \<Rightarrow> adsp2181 \<Rightarrow> adsp2181" where
  "load_words a [] cpu = cpu"
| "load_words a (w # ws) cpu = load_words (a + 1) ws (set_pm a w cpu)"

definition run_test :: "int \<Rightarrow> adsp2181 \<Rightarrow> adsp2181 option" where
  "run_test n cpu = map_option snd (adsp2181_run cpu n)"

text \<open>\<^verbatim>\<open>adsp2181_pm_overlay\<close> and \<^verbatim>\<open>adsp2181_dm_overlay\<close>: the overlay a number names, or a null pointer.\<close>

definition adsp2181_pm_overlay :: "adsp2181 \<Rightarrow> int \<Rightarrow> (u32 \<Rightarrow> u32) option" where
  "adsp2181_pm_overlay cpu k = (if 1 \<le> k \<and> k \<le> 2 then Some (program_overlay cpu (nat (k - 1))) else None)"

definition adsp2181_dm_overlay :: "adsp2181 \<Rightarrow> int \<Rightarrow> (u32 \<Rightarrow> u16) option" where
  "adsp2181_dm_overlay cpu k = (if 1 \<le> k \<and> k \<le> 2 then Some (data_overlay cpu (nat (k - 1))) else None)"

section \<open>The paragraphs of the test\<close>

definition test_idma :: "adsp2181 \<Rightarrow> adsp2181 option" where
  "test_idma cpu = do {
     let cpu = adsp2181_idma_data_write (adsp2181_idma_data_write (adsp2181_idma_addr_write cpu 0x0123) 0xabcd) 0x00ef;
     cpu \<leftarrow> assertion (program cpu 0x0123 = 0xabcdef) cpu;
     cpu \<leftarrow> assertion (idma_addr cpu = 0x0124) cpu;
     let cpu = adsp2181_idma_data_write (adsp2181_idma_addr_write cpu 0x4005) 0x1234;
     cpu \<leftarrow> assertion (data cpu 5 = 0x1234) cpu;
     cpu \<leftarrow> assertion (idma_addr cpu = 0x4006) cpu;
     let (v, cpu) = adsp2181_idma_data_read (adsp2181_idma_addr_write cpu 0x4005);
     cpu \<leftarrow> assertion (v = 0x1234) cpu;
     let cpu = fold (\<lambda>v cpu. adsp2181_idma_data_write cpu v) [0x1111, 0x2222, 0x3333] (adsp2181_idma_addr_write cpu 0x4100);
     cpu \<leftarrow> assertion (data cpu 0x100 = 0x1111) cpu;
     cpu \<leftarrow> assertion (data cpu 0x101 = 0x2222) cpu;
     cpu \<leftarrow> assertion (data cpu 0x102 = 0x3333) cpu;
     let cpu = adsp2181_idma_addr_write (snd (adsp2181_idma_data_read (adsp2181_idma_addr_write cpu 0x0123))) 0x4000;
     assertion (program cpu 0x0123 = 0xabcdef) cpu }"

definition test_host_port :: "adsp2181 \<Rightarrow> adsp2181 option" where
  "test_host_port cpu = do {
     let cpu = adsp2181_host_write cpu 0x3331 0x9a0d;
     cpu \<leftarrow> assertion (program cpu 0x3331 = 0x9a0d00) cpu;
     let cpu = adsp2181_host_write cpu 0x7310 0x0042;
     cpu \<leftarrow> assertion (data cpu 0x3310 = 0x0042) cpu;
     let (v, cpu) = adsp2181_host_read cpu 0x3331;
     cpu \<leftarrow> assertion (v = 0x9a0d) cpu;
     let (v, cpu) = adsp2181_host_read cpu 0x7310;
     cpu \<leftarrow> assertion (v = 0x0042) cpu;
     assertion (adsp2181_pm_overlay cpu 1 \<noteq> None \<and> adsp2181_pm_overlay cpu 2 \<noteq> None \<and>
       adsp2181_dm_overlay cpu 1 \<noteq> None \<and> adsp2181_dm_overlay cpu 2 \<noteq> None \<and> adsp2181_pm_overlay cpu 0 = None) cpu }"

definition test_rx_move :: "adsp2181 \<Rightarrow> adsp2181 option" where
  "test_rx_move cpu = do {
     cpu \<leftarrow> run_test 16 (load_words 0 [0x41234f, 0x0d0caf, 0x40000f, 0x0d03fa, 0x028000] (adsp2181_reset cpu));
     assertion (sr1 (core cpu) = 0x1234) cpu }"

definition test_tx_move :: "adsp2181 \<Rightarrow> adsp2181 option" where
  "test_tx_move cpu = do {
     cpu \<leftarrow> run_test 16 (load_words 0 [0x45678f, 0x0d0cbf, 0x40000f, 0x0d03fb, 0x028000] (adsp2181_reset cpu));
     assertion (sr1 (core cpu) = 0x5678) cpu }"

definition test_parallel_move :: "adsp2181 \<Rightarrow> adsp2181 option" where
  "test_parallel_move cpu = do {
     cpu \<leftarrow> run_test 16 (load_words 0 [0x41234f, 0x1013af, 0x90100a, 0x028000] (adsp2181_reset cpu));
     assertion (data cpu 0x0100 = 0x1234) cpu }"

definition test_equality :: "adsp2181 \<Rightarrow> adsp2181 option" where
  "test_equality cpu = do {
     let cpu = set_dm 0x06e6 3 (adsp2181_reset cpu);
     let cpu = load_words 0 [0x1c010f, 0x180043, 0x22180f, 0x18005f, 0x22380f, 0x90100a, 0x028000] cpu;
     cpu \<leftarrow> run_test 32 (load_words 0x10 [0x400034, 0x806e60, 0x23200f, 0x23e20f, 0x0a000f] cpu);
     assertion (data cpu 0x0100 = 1) cpu }"

definition test_inequality :: "u16 \<Rightarrow> adsp2181 \<Rightarrow> adsp2181 option" where
  "test_inequality k cpu =
     (if k = 3 then Some cpu
      else do {
        cpu \<leftarrow> run_test 32 (adsp2181_set_pc (set_dm 0x0100 0xffff (set_dm 0x06e6 k cpu)) 0);
        assertion (data cpu 0x0100 = 0) cpu })"

definition test_round_even :: "adsp2181 \<Rightarrow> adsp2181 option" where
  "test_round_even cpu = do {
     cpu \<leftarrow> run_test 32 (load_words 0 [0x40000c, 0x44000b, 0x420002, 0x400016, 0x20400f, 0x90101c, 0x90100b, 0x028000]
       (adsp2181_reset cpu));
     cpu \<leftarrow> assertion (data cpu 0x0101 = 0) cpu;
     assertion (data cpu 0x0100 = 0) cpu }"

definition test_round_biased :: "adsp2181 \<Rightarrow> adsp2181 option" where
  "test_round_biased cpu = do {
     cpu \<leftarrow> run_test 32 (load_words 0 [0x44000b, 0x420002, 0x400016, 0x440000, 0x93ff30, 0x20400f, 0x90101c, 0x028000]
       (adsp2181_reset cpu));
     assertion (data cpu 0x0101 = 1) cpu }"

definition quality_kernel :: "u32 list" where
  "quality_kernel = [0x80efb0, 0x23e00f, 0x80efc0, 0x27e00f, 0x22720f, 0x0f12ff, 0x81feda, 0x404004,
     0x23820f, 0x1b3711, 0x80fce3, 0x20e90f, 0x2be6bc, 0x40000c, 0x80fcf3, 0x21690f,
     0x21620f, 0x90fceb, 0x43fff4, 0x2ee4ac, 0x220005, 0x90fcfa]"

definition test_quality :: "adsp2181 \<Rightarrow> adsp2181 option" where
  "test_quality cpu = do {
     let cpu = fold (\<lambda>(a, w). set_dm a w) [(0x2048, 0x7ffa), (0x2049, 6), (0x0efb, - 30), (0x0efc, - 575),
       (0x0fce, 0x3456), (0x0fcf, 0x012d), (0x1fed, 0)] (adsp2181_reset cpu);
     let cpu = load_words 0 [0x820496, 0x820487, 0x1f348f] cpu;
     cpu \<leftarrow> run_test 128 (set_pm 0x335e 0x028000 (load_words 0x3348 quality_kernel cpu));
     cpu \<leftarrow> assertion (data cpu 0x0fce = 0x345f) cpu;
     assertion (data cpu 0x0fcf = 0x012d) cpu }"

definition equalizer_output_kernel :: "u32 list" where
  "equalizer_output_kernel = [0x80100c, 0x80101b, 0x801022, 0x0f2402, 0x0f1b02, 0x0d00cf, 0x0d00be, 0x20580f, 0x90ef9c, 0x028000]"

definition test_equalizer :: "adsp2181 \<Rightarrow> adsp2181 option" where
  "test_equalizer cpu = do {
     let cpu = fold (\<lambda>(a, w). set_dm a w) [(0x0100, 0x0504), (0x0101, 0xc188), (0x0102, 0)] (adsp2181_reset cpu);
     cpu \<leftarrow> run_test 64 (load_words 0 equalizer_output_kernel cpu);
     assertion (data cpu 0x0ef9 = 0x1413) cpu }"

definition test_mf_overflow :: "adsp2181 \<Rightarrow> adsp2181 option" where
  "test_mf_overflow cpu = do {
     cpu \<leftarrow> run_test 32 (load_words 0 [0x480002, 0x480006, 0x24800f, 0x0d03a0, 0x90100a, 0x028000] (adsp2181_reset cpu));
     assertion (data cpu 0x0100 AND 0x0040 \<noteq> 0) cpu }"

definition test_modify_linear :: "adsp2181 \<Rightarrow> adsp2181 option" where
  "test_modify_linear cpu = do {
     cpu \<leftarrow> run_test 32 (load_words 0 [0x340000, 0x37fff4, 0x340008, 0x090000, 0x0d01a0, 0x90100a, 0x028000] (adsp2181_reset cpu));
     assertion (data cpu 0x0100 = 0x3fff) cpu }"

definition test_modify_circular :: "adsp2181 \<Rightarrow> adsp2181 option" where
  "test_modify_circular cpu = do {
     cpu \<leftarrow> run_test 32 (load_words 0 [0x340000, 0x37fff4, 0x340038, 0x090000, 0x0d01a0, 0x90100a, 0x028000] (adsp2181_reset cpu));
     assertion (data cpu 0x0100 = 2) cpu }"

definition test_norm_hi :: "adsp2181 \<Rightarrow> adsp2181 option" where
  "test_norm_hi cpu = do {
     cpu \<leftarrow> run_test 32 (load_words 0 [0x40001a, 0x0e620f, 0x0e420f, 0x90100f, 0x028000] (adsp2181_reset cpu));
     assertion (data cpu 0x0100 = 0x4000) cpu }"

definition test_norm_hix :: "adsp2181 \<Rightarrow> adsp2181 option" where
  "test_norm_hix cpu = do {
     cpu \<leftarrow> run_test 32 (load_words 0 [0x48000a, 0x3c00c0, 0x0e6a0f, 0x0e420f, 0x90100f, 0x028000] (adsp2181_reset cpu));
     assertion (data cpu 0x0100 = 0xc000) cpu }"

definition test_counters :: "adsp2181 \<Rightarrow> adsp2181 option" where
  "test_counters cpu = do {
     cpu \<leftarrow> run_test 32 (load_words 0 [0x3c0015, 0x3c0025, 0x3c0035, 0x3c0045, 0x3c0055, 0x0d03a2, 0x90100a, 0x028000] (adsp2181_reset cpu));
     cpu \<leftarrow> assertion (\<not> data cpu 0x0100 AND 0x0008 \<noteq> 0) cpu;
     assertion (\<not> data cpu 0x0100 AND 0x0004 \<noteq> 0) cpu }"

definition test_mr_wrap :: "adsp2181 \<Rightarrow> adsp2181 option" where
  "test_mr_wrap cpu = do {
     cpu \<leftarrow> run_test 32 (load_words 0 [0x4ffffc, 0x4007fd, 0x4ffffb, 0x400012, 0x400016, 0x21000f, 0x90100d, 0x028000] (adsp2181_reset cpu));
     assertion (data cpu 0x0100 = 0xff80) cpu }"

definition test_interrupt_gate :: "adsp2181 \<Rightarrow> adsp2181 option" where
  "test_interrupt_gate cpu = do {
     cpu \<leftarrow> run_test 1 (adsp2181_set_imask (load_words 0 [0x040040, 0x040060] (adsp2181_reset cpu)) 0x0200);
     cpu \<leftarrow> assertion (adsp2181_pc cpu = 1) cpu;
     let cpu = adsp2181_set_irq cpu (int ADSP2181_IRQ2) True;
     cpu \<leftarrow> assertion (adsp2181_pc cpu = 1) cpu;
     cpu \<leftarrow> assertion (imask cpu = 0x0200) cpu;
     cpu \<leftarrow> run_test 1 cpu;
     cpu \<leftarrow> assertion (adsp2181_pc cpu = 4) cpu;
     Some (adsp2181_set_irq cpu (int ADSP2181_IRQ2) False) }"

definition test_return_to_idle :: "adsp2181 \<Rightarrow> adsp2181 option" where
  "test_return_to_idle cpu = do {
     let cpu = set_pm 0x14 0x0a001f (load_words 0 [0x028000, 0x028000] (adsp2181_reset cpu));
     let cpu = adsp2181_set_irq (adsp2181_set_imask cpu 0x3ff) (int ADSP2181_SPORT0_RX) True;
     cpu \<leftarrow> assertion (adsp2181_pc cpu = 0x14) cpu;
     cpu \<leftarrow> run_test 4 cpu;
     cpu \<leftarrow> assertion (adsp2181_pc cpu = 1) cpu;
     cpu \<leftarrow> assertion (idle cpu) cpu;
     Some (adsp2181_set_irq cpu (int ADSP2181_SPORT0_RX) False) }"

definition test_loop :: "adsp2181 \<Rightarrow> adsp2181 option" where
  "test_loop cpu = do {
     cpu \<leftarrow> run_test 32 (load_words 0 [0x400014, 0x40000a, 0x3c0035, 0x14004e, 0x22620f, 0x90100a, 0x028000] (adsp2181_reset cpu));
     assertion (data cpu 0x0100 = 3) cpu }"

text \<open>A frame of the serial port, without \<^verbatim>\<open>EICON_SPORT_FULL_TDM\<close> in the environment.\<close>

definition test_frame :: "adsp2181 \<Rightarrow> adsp2181 option" where
  "test_frame cpu = map_option snd (adsp2181_sport0_tdm_frame False cpu 0 0 0x3456 0 8)"

definition snapshot_cycles :: "u32 list \<Rightarrow> u64" where
  "snapshot_cycles l = push_bit 32 (ucast (l ! 4)) OR ucast (l ! 3)"

definition test_snapshots :: "adsp2181 \<Rightarrow> adsp2181 option" where
  "test_snapshots cpu = do {
     cpu \<leftarrow> test_frame (set_pm 0 0x028000 (adsp2181_reset cpu));
     cpu \<leftarrow> assertion (adsp2181_sport_snapshot cpu False 20 = None) cpu;
     entry \<leftarrow> adsp2181_sport_snapshot cpu False 21;
     after \<leftarrow> adsp2181_sport_snapshot cpu True 21;
     cpu \<leftarrow> assertion (entry ! 18 = 0x3456 \<and> after ! 18 = 0x3456) cpu;
     cpu \<leftarrow> assertion (entry ! 20 = 0) cpu;
     cpu \<leftarrow> assertion (sport_tx_written cpu 0 = 0) cpu;
     assertion (snapshot_cycles after \<ge> snapshot_cycles entry) cpu }"

definition test_tx_count :: "adsp2181 \<Rightarrow> adsp2181 option" where
  "test_tx_count cpu = do {
     let cpu = load_words 0x14 [0x0d0c90, 0x0d0c90, 0x0a001f] (set_pm 0 0x028000 (adsp2181_reset cpu));
     cpu \<leftarrow> test_frame (adsp2181_set_imask cpu 0x3ff);
     cpu \<leftarrow> assertion (sport_tx_written cpu 0 \<noteq> 0) cpu;
     assertion (sport_tx_written cpu 0 = 2) cpu }"

text \<open>The loop over the counts of \<open>test_inequality\<close>, and the whole program: its output, if no assertion fails.\<close>

fun inequalities :: "u16 list \<Rightarrow> adsp2181 \<Rightarrow> adsp2181 option" where
  "inequalities [] cpu = Some cpu"
| "inequalities (k # ks) cpu = do { cpu \<leftarrow> test_inequality k cpu; inequalities ks cpu }"

definition core_test_main :: "string option" where
  "core_test_main = do {
     cpu \<leftarrow> test_idma adsp2181_create;
     cpu \<leftarrow> test_host_port cpu;
     cpu \<leftarrow> test_rx_move cpu;
     cpu \<leftarrow> test_tx_move cpu;
     cpu \<leftarrow> test_parallel_move cpu;
     cpu \<leftarrow> test_equality cpu;
     cpu \<leftarrow> inequalities [0, 1, 2, 3, 4, 5, 6, 7, 8] cpu;
     cpu \<leftarrow> test_round_even cpu;
     cpu \<leftarrow> test_round_biased cpu;
     cpu \<leftarrow> test_quality cpu;
     cpu \<leftarrow> test_equalizer cpu;
     cpu \<leftarrow> test_mf_overflow cpu;
     cpu \<leftarrow> test_modify_linear cpu;
     cpu \<leftarrow> test_modify_circular cpu;
     cpu \<leftarrow> test_norm_hi cpu;
     cpu \<leftarrow> test_norm_hix cpu;
     cpu \<leftarrow> test_counters cpu;
     cpu \<leftarrow> test_mr_wrap cpu;
     cpu \<leftarrow> test_interrupt_gate cpu;
     cpu \<leftarrow> test_return_to_idle cpu;
     cpu \<leftarrow> test_loop cpu;
     cpu \<leftarrow> test_snapshots cpu;
     cpu \<leftarrow> test_tx_count cpu;
     Some (''adsp2181_core_test: PASS'' @ [CHR 0x0A]) }"

section \<open>Symbolic evaluation\<close>

text \<open>
  The rules that run the model on a machine given as an explicit record: the collection \<open>evaluation\<close> holds
  the definitions an instruction unfolds, and the rules for whole steps, which apply only where their
  conditions are decided.  The congruence rules \<open>strict\<close> keep the simplifier out of what follows a step
  until the state before it is known.
\<close>

named_theorems evaluation

lemma bind_first: "m = m' \<Longrightarrow> Option.bind m f = Option.bind m' f"
  by simp

lemma map_option_first: "m = m' \<Longrightarrow> map_option f m = map_option f m'"
  by simp

lemmas strict = bind_first map_option_first let_weak_cong

text \<open>What the counters of an instruction do to the instrumentation, and the switches that stay off.\<close>

definition visit :: "u32 \<Rightarrow> instr_state \<Rightarrow> instr_state" where
  "visit a n = n\<lparr>coverage := (coverage n)(a := coverage n a + 1)\<rparr>"

definition tick :: "instr_state \<Rightarrow> instr_state" where
  "tick n = n\<lparr>cycles := cycles n + 1\<rparr>"

definition hushed :: "instr_state \<Rightarrow> bool" where
  "hushed n \<longleftrightarrow> (\<forall>a. \<not> pin_dm n a \<and> \<not> watch_dm n a \<and> \<not> pin_pm n a \<and> \<not> watch_pm n a \<and> \<not> force_pm_fetch n a \<and> \<not> watch_exec n a) \<and>
     \<not> exec_history_enabled n \<and> trace_budget n = 0 \<and> \<not> dm_census_on n \<and> \<not> latch_dm_armed n \<and> \<not> stop_dm_armed n \<and> \<not> watch_irqs n \<and> coverage_on n"

lemma hushed_counters [simp]:
  "hushed (visit a n) = hushed n" "hushed (tick n) = hushed n" "hushed (n\<lparr>pcsp_window_max := u\<rparr>) = hushed n"
  "hushed (n\<lparr>pcsp_window_min := u\<rparr>) = hushed n" "hushed (n\<lparr>sport_entry_snapshot := l\<rparr>) = hushed n"
  "hushed (n\<lparr>sport_return_snapshot := l\<rparr>) = hushed n"
  by (simp_all add: hushed_def visit_def tick_def)

lemma hushed_step:
  assumes "hushed (ins s)" "\<not> pm_overlaid s (pc s AND 0x3fff)"
  shows "exec_step s =
    map_option (\<lambda>s. s\<lparr>icount := icount s - 1, ins := tick (ins s)\<rparr>)
      (exec_op (advance_pc (s\<lparr>ppc := pc s, ins := visit (pc s AND 0x3fff) (ins s)\<rparr>)) (program s (pc s AND 0x3fff) AND 0xffffff))"
proof -
  have "RWORD_PGM (s\<lparr>ppc := pc s\<rparr>) (pc s) = program s (pc s AND 0x3fff) AND 0xffffff"
    using assms by (auto simp: RWORD_PGM_def pm_cell_def pm_overlaid_def hushed_def Let_def)
  then show ?thesis using assms(1)
    by (simp add: exec_step_def fetch_def Let_def note_trace_def note_watch_exec_def note_coverage_def note_history_def
      machine_upd_defs visit_def tick_def hushed_def map_option.compositionality o_def)
qed

lemma hushed_data:
  assumes "hushed (ins s)" "dmovlay s = 0"
  shows "RWORD_DATA s x = (data s (x AND 0x3fff), s)" "WWORD_DATA s x v = s\<lparr>data := (data s)(x AND 0x3fff := v)\<rparr>"
  using assms by (simp_all add: dm_defs dm_cell_def hushed_def)

lemma hushed_program:
  assumes "hushed (ins s)" "pmovlay s = 0"
  shows "RWORD_PGM s x = program s (x AND 0x3fff) AND 0xffffff"
    "WWORD_PGM s x v = s\<lparr>program := (program s)(x AND 0x3fff := v AND 0xffffff)\<rparr>"
  using assms by (simp_all add: pm_defs RWORD_PGM_def pm_cell_def hushed_def)

lemma loop_step:
  "exec_step s = Some s' \<Longrightarrow> exec_loop s = (if icount s' > 0 then exec_loop s' else Some s')"
  by (subst exec_loop.simps) simp

text \<open>The state in which a paragraph may start, with \<open>v\<close> in the rounding control word, and after its reset.\<close>

definition startable :: "u16 \<Rightarrow> adsp2181 \<Rightarrow> bool" where
  "startable v s \<longleftrightarrow> hushed (ins s) \<and> chip_type s = 5 \<and> \<not> idma_boot_hold s \<and> \<not> idma_boot_mode s \<and> mstat_prev s = 0 \<and>
     \<not> sport_tx_callback s \<and> sport_rx_callback s = None \<and> drop_bit 8 (astat s) = 0 \<and>
     data s 0x3ff3 = v"

definition reset_done :: "u16 \<Rightarrow> adsp2181 \<Rightarrow> bool" where
  "reset_done v s \<longleftrightarrow> startable v s \<and> pc s = 0 \<and> ppc s = 0xffffffff \<and> \<not> cntr_valid s \<and> loop_end s = 0xffff \<and> loop_condition s = 0 \<and>
     astat_clear s = NOT 0xf \<and> mstat s = 0 \<and> sstat s = 0x55 \<and> \<not> idle s \<and> pmovlay s = 0 \<and> dmovlay s = 0 \<and> sport_rx s = (\<lambda>_. 0) \<and>
     sport_tx s = (\<lambda>_. 0) \<and> sport_tx_written s = (\<lambda>_. 0) \<and> pc_sp s = 0 \<and> cntr_sp s = 0 \<and> stat_sp s = 0 \<and> loop_sp s = 0 \<and>
     imask s = 0 \<and> icntl s = 0 \<and> interrupts_enabled s \<and> irq_state s = (\<lambda>_. False) \<and> irq_latch s = (\<lambda>_. False) \<and> czero (core s) = 0"

lemma hushed_covered: "hushed n \<Longrightarrow> hushed (n\<lparr>coverage_on := True\<rparr>)"
  by (simp add: hushed_def)

lemma hushed_reset:
  "hushed (n\<lparr>coverage_on := True\<rparr>) \<Longrightarrow> hushed (reset_ins n\<lparr>pcsp_window_min := a, pcsp_window_max := b, watch_gate := g, coverage_on := True\<rparr>)"
  by (simp add: hushed_def reset_ins_def)

lemma reset_uncovered:
  assumes "startable v (s\<lparr>ins := (ins s)\<lparr>coverage_on := True\<rparr>\<rparr>)"
  shows "reset_done v (adsp2181_reset s)"
proof -
  let ?t = "s\<lparr>core := (core s)\<lparr>czero := 0\<rparr>, alt := (alt s)\<lparr>czero := 0\<rparr>\<rparr>"
  obtain i l m b where r: "reset_dag ?t = ?t\<lparr>dag_l := l, dag_lmask := m, dag_i := i, dag_base := b\<rparr>"
    using dag_fold_update [of "[0..<8]" ?t] unfolding reset_dag_def by blast
  show ?thesis using assms unfolding adsp2181_reset_def r Let_def
    by (cases s) (simp add: reset_done_def startable_def update_mstat_def upd_ins_def hushed_reset Let_def)
qed

lemma reset_startable: "startable v s \<Longrightarrow> reset_done v (adsp2181_reset s)"
  by (rule reset_uncovered) (simp add: startable_def hushed_covered)

definition passes :: "u16 \<Rightarrow> adsp2181 option \<Rightarrow> bool" where
  "passes v r \<longleftrightarrow> (case r of None \<Rightarrow> False | Some s \<Rightarrow> startable v s)"

lemmas instruction_defs [evaluation] = advance_pc_def exec_op_def exec_00_0f_def exec_10_1f_def exec_20_4f_def exec_80_bf_def exec_flags_def exec_move_def
  exec_stack_control_def exec_return_def exec_compute_move_def when_condition_def CONDITION_def condition_table_def compute_op_218x_def
  compute_op_def WRITE_REG_def READ_REG_def wr_group0_def wr_group1_def wr_group3_def rd_group0_def rd_group3_def rd_dag_def wr_rx_def wr_tx_def
  wr_mr0_def wr_mr1_def wr_mr2_def wr_astat_def wr_cntr_def wr_i_def wr_m_def wr_l_def modify_address_def modified_address_def
  alu_op_ar_def alu_op_ar_const_def alu_switch_def alu_saturate_def set_astat_def CALC_NZ_def CALC_NZVC_def CALC_NZVC_SUB_def
  mac_op_mr_def mac_op_mf_def mac_result_def mac_arms_def mac_ext_def mac_flag_def mac_shift_def mac_round_mode_def
  shift_op_def shift_op_imm_def shift_arms_def put_sr_def hi_word_def
  pc_stack_push_def pc_stack_pop_def note_pcsp_def
  set_sr1_def set_sr0_def sr1_def sr0_def mr0_def mr1_def mr2_def set_mr0_def set_mr1_def set_mr2_def normalize_mr_def machine_upd_defs Let_def
  alu_xreg_def alu_yreg_def mac_xreg_def mac_yreg_def shift_xreg_def

text \<open>Views of a register whose parts have been written.\<close>

lemma put16_views [simp]:
  "ucast (drop_bit 16 (put16 16 v (w :: u32))) = v" "ucast (put16 0 v (w :: u32)) = v"
  "ucast (drop_bit 16 (put16 0 v (w :: u32))) = (ucast (drop_bit 16 w) :: u16)"
  by (rule bit_word_eqI, auto simp: put16_mask bit_simps dest: bit_imp_le_length)+

lemma mr_parts_written [simp]:
  "put16 0 a (sign_extend_mr40 (put16 32 b (put16 16 c w))) = put16 0 a (sign_extend_mr40 (put16 32 b (put16 16 c 0)))"
  "sign_extend_mr40 (put16 32 d (sign_extend_mr40 (put16 32 b w))) = sign_extend_mr40 (put16 32 d w)"
  by (rule bit_word_eqI, auto simp: bit_sign_extend_mr40 put16_mask bit_simps dest: bit_imp_le_length)+

lemmas put16_literal [simp] = put16_def [where w = 0] put16_def [where w = 1] put16_def [where w = "- 1"]
  put16_def [where w = "numeral n"] put16_def [where w = "- numeral n"] for n

lemmas sign_extend_literal [simp] = sign_extend_mr40_def [of 0] sign_extend_mr40_def [of 1] sign_extend_mr40_def [of "- 1"]
  sign_extend_mr40_def [of "numeral n"] sign_extend_mr40_def [of "- numeral n"] for n

lemmas operand_defs [evaluation] = update_i_def update_l_def mask_table_def sign_extend_14_def exp_hi_def exp_hix_def exp_hi_count_def
  put_se_def set_ss_def norm_hi_def lshift_def ashift_def shl_c_def cntr_stack_push_def cntr_stack_pop_def loop_stack_push_def loop_stack_pop_def
  pc_stack_top_def pc_stack_pop_val_def alu_op_af_def set_flag_if_def clr_flag_def CALC_Z_def CALC_N_def CALC_V_def CALC_C_def
  CALC_C_SUB_def GET_C_def

lemmas word_rules [evaluation] = drop_bit_or drop_bit_and bit.conj_disj_distrib2 and.assoc or.assoc unsigned_and_eq unsigned_or_eq
  signed_and_eq signed_or_eq word_sless_alt word_sle_eq

lemmas run_defs [evaluation] = run_test_def adsp2181_run_def execute_def set_pm_def set_dm_def assertion_def passes_def startable_def reset_done_def
  loop_step hushed_step hushed_data hushed_program pm_overlaid_def

lemma ones [evaluation]: "ucast (- 1 :: u32) = (- 1 :: u16)" "ucast (- 1 :: u16) = (0xffff :: u32)"
  by (rule bit_word_eqI, simp add: bit_simps) (simp add: unsigned_minus_1_eq_mask mask_eq_exp_minus_1)

lemma exp_loop_next [evaluation]:
  "b x \<Longrightarrow> exp_loop b x r = exp_loop b (push_bit 1 x) (r + 1)" "\<not> b x \<Longrightarrow> exp_loop b x r = Some r"
  by (simp_all add: exp_loop.simps)

text \<open>The interrupts of the test: none that is enabled, IRQ2, or the receiver of the first serial port.\<close>

lemma hushed_irqs [evaluation]: "hushed n \<Longrightarrow> \<not> watch_irqs n"
  by (simp add: hushed_def)

lemma check_irqs_cases [evaluation]:
  "\<not> interrupts_enabled s \<Longrightarrow> check_irqs s = s"
  "\<lbrakk>\<not> irq_state s ADSP2181_IRQ2; \<not> irq_state s ADSP2181_IRQL1; \<not> irq_state s ADSP2181_IRQL2; \<not> irq_state s ADSP2181_IRQ1;
    \<not> irq_state s ADSP2181_IRQ0; irq_latch s = (\<lambda>_. False)\<rbrakk> \<Longrightarrow> check_irqs s = s"
  "\<lbrakk>interrupts_enabled s; icntl s = 0; irq_state s ADSP2181_IRQ2; imask s AND 0x200 \<noteq> 0\<rbrakk> \<Longrightarrow>
    check_irqs s = snd (generate_irq s ADSP2181_IRQ2 0)"
  "\<lbrakk>interrupts_enabled s; icntl s = 0; \<not> irq_state s ADSP2181_IRQ2; \<not> irq_state s ADSP2181_IRQL1; \<not> irq_state s ADSP2181_IRQL2;
    \<not> irq_latch s ADSP2181_SPORT0_TX; irq_latch s ADSP2181_SPORT0_RX; imask s AND 0x20 \<noteq> 0\<rbrakk> \<Longrightarrow>
    check_irqs s = snd (generate_irq s ADSP2181_SPORT0_RX 4)"
  by (simp_all add: check_irqs_def irq_lines_def generate_irq_def Let_def)

lemma constant_again [simp]: "(\<lambda>_. c)(k := c) = (\<lambda>_. c)"
  by auto

lemma narrowed [evaluation]:
  assumes "drop_bit 8 (w :: u32) = 0"
  shows "drop_bit 8 (ucast (ucast w :: u16) :: u32) = 0"
proof (rule bit_word_eqI)
  fix n show "bit (drop_bit 8 (ucast (ucast w :: u16) :: u32)) n \<longleftrightarrow> bit (0 :: u32) n"
    using assms bit_drop_bit_eq [of 8 w] by (simp add: bit_simps fun_eq_iff)
qed

lemmas host_defs [evaluation] = check_irqs_masked generate_irq_def stat_stack_push_def stat_stack_pop_def stat_restore_def update_mstat_def
  adsp2181_set_irq_def adsp2181_set_imask_def adsp2181_pc_def adsp2181_set_pc_def sport_receive_def

text \<open>A frame of the serial port, its snapshots and what they tell of the cycle counter.\<close>

definition tdm_filled :: "u16 \<Rightarrow> (u32 \<Rightarrow> u16) \<Rightarrow> u32 \<Rightarrow> u16" where
  "tdm_filled w d = fold (\<lambda>a d. d(of_nat a AND 0x3fff := w)) [0x2e00..<0x2e40] d"

lemma hushed_fill [evaluation]: "\<lbrakk>hushed (ins s); dmovlay s = 0\<rbrakk> \<Longrightarrow> fill_tdm w s = s\<lparr>data := tdm_filled w (data s)\<rparr>"
proof -
  have "\<lbrakk>hushed (ins s); dmovlay s = 0\<rbrakk> \<Longrightarrow> fold (\<lambda>a s. WWORD_DATA s (of_nat a) w) xs s =
    s\<lparr>data := fold (\<lambda>a d. d(of_nat a AND 0x3fff := w)) xs (data s)\<rparr>" for xs
    by (induction xs arbitrary: s) (simp_all add: hushed_data)
  then show "\<lbrakk>hushed (ins s); dmovlay s = 0\<rbrakk> \<Longrightarrow> fill_tdm w s = s\<lparr>data := tdm_filled w (data s)\<rparr>"
    unfolding fill_tdm_def tdm_filled_def .
qed

lemma tdm_filled_other [evaluation]: "tdm_filled w d 0x3ff3 = d 0x3ff3"
  by (simp add: tdm_filled_def)

lemma snapshot_fields [evaluation]:
  "take_sport_snapshot s ! 18 = ucast (sport_rx s 0)" "take_sport_snapshot s ! 20 = of_bool (sport_tx_written s 0 \<noteq> 0)"
  "snapshot_cycles (take_sport_snapshot s) = cycles (ins s)"
proof -
  show "snapshot_cycles (take_sport_snapshot s) = cycles (ins s)"
    by (rule bit_word_eqI) (auto simp: snapshot_cycles_def take_sport_snapshot_def bit_simps dest: bit_imp_le_length)
qed (simp_all add: take_sport_snapshot_def)

lemma counted_fields [simp]: "sport_entry_snapshot (visit a n) = sport_entry_snapshot n" "sport_entry_snapshot (tick n) = sport_entry_snapshot n"
  "cycles (visit a n) = cycles n" "cycles (tick n) = cycles n + 1"
  by (simp_all add: visit_def tick_def)

lemmas frame_defs [evaluation] = test_frame_def adsp2181_sport0_tdm_frame_def sport0_service_def snapshot_entry_def snapshot_return_def
  adsp2181_sport_snapshot_def

end
