(* ===== verification/Verdict.thy ===== *)
theory Verdict
  imports Selftest
begin

text \<open>
  The verdict of the self test: every paragraph passes, from every state a paragraph may start in, and
  so does the program.
\<close>

section \<open>The host port\<close>

lemmas port_defs = adsp2181_idma_data_write_def adsp2181_idma_addr_write_def adsp2181_idma_data_read_def idma_release_def adsp2181_host_write_def
  adsp2181_host_read_def adsp2181_pm_overlay_def adsp2181_dm_overlay_def assertion_def startable_def hushed_data hushed_program
  machine_upd_defs Let_def

lemma idma_passes:
  "\<lbrakk>startable v s; pmovlay s = 0; dmovlay s = 0; cycles (ins s) = 0\<rbrakk> \<Longrightarrow>
    case test_idma s of None \<Rightarrow> False | Some t \<Rightarrow> startable v t \<and> pmovlay t = 0 \<and> dmovlay t = 0 \<and> cycles (ins t) = 0"
  unfolding test_idma_def by (cases s) (clarsimp simp: port_defs cong: strict)

lemma host_port_passes:
  "\<lbrakk>startable v s; pmovlay s = 0; dmovlay s = 0; cycles (ins s) = 0\<rbrakk> \<Longrightarrow>
    case test_host_port s of None \<Rightarrow> False | Some t \<Rightarrow> startable v t \<and> cycles (ins t) = 0"
  unfolding test_host_port_def by (cases s) (clarsimp simp: port_defs cong: strict)

section \<open>Paragraphs that start with a reset\<close>

lemma rx_move_passes: "startable v s \<Longrightarrow> passes v (test_rx_move s)"
  using reset_startable [of v s] unfolding test_rx_move_def
  by (cases "adsp2181_reset s") (clarsimp simp: evaluation cong: strict)

lemma tx_move_passes: "startable v s \<Longrightarrow> passes v (test_tx_move s)"
  using reset_startable [of v s] unfolding test_tx_move_def
  by (cases "adsp2181_reset s") (clarsimp simp: evaluation cong: strict)

lemma parallel_move_passes: "startable v s \<Longrightarrow> passes v (test_parallel_move s)"
  using reset_startable [of v s] unfolding test_parallel_move_def
  by (cases "adsp2181_reset s") (clarsimp simp: evaluation cong: strict)

text \<open>The comparison of two counts stays loaded while its input changes.\<close>

definition counting :: "u16 \<Rightarrow> adsp2181 \<Rightarrow> bool" where
  "counting v s \<longleftrightarrow> startable v s \<and> loop_end s = 0xffff \<and> astat_clear s = NOT 0xf \<and> mstat s = 0 \<and> pmovlay s = 0 \<and> dmovlay s = 0 \<and>
     pc_sp s = 0 \<and> irq_state s = (\<lambda>_. False) \<and> irq_latch s = (\<lambda>_. False) \<and> czero (core s) = 0 \<and>
     map (program s) [0, 1, 2, 3, 4, 5, 6, 0x10, 0x11, 0x12, 0x13, 0x14] =
       [0x1c010f, 0x180043, 0x22180f, 0x18005f, 0x22380f, 0x90100a, 0x028000, 0x400034, 0x806e60, 0x23200f, 0x23e20f, 0x0a000f]"

definition counting_after :: "u16 \<Rightarrow> adsp2181 option \<Rightarrow> bool" where
  "counting_after v r \<longleftrightarrow> (case r of None \<Rightarrow> False | Some s \<Rightarrow> counting v s)"

lemma equality_passes: "startable v s \<Longrightarrow> counting_after v (test_equality s)"
  using reset_startable [of v s] unfolding test_equality_def
  by (cases "adsp2181_reset s") (clarsimp simp: evaluation counting_def counting_after_def cong: strict)

lemma inequality_passes:
  "counting v s \<Longrightarrow> counting_after v (test_inequality 0 s)"
  "counting v s \<Longrightarrow> counting_after v (test_inequality 1 s)"
  "counting v s \<Longrightarrow> counting_after v (test_inequality 2 s)"
  "counting v s \<Longrightarrow> counting_after v (test_inequality 3 s)"
  "counting v s \<Longrightarrow> counting_after v (test_inequality 4 s)"
  "counting v s \<Longrightarrow> counting_after v (test_inequality 5 s)"
  "counting v s \<Longrightarrow> counting_after v (test_inequality 6 s)"
  "counting v s \<Longrightarrow> counting_after v (test_inequality 7 s)"
  "counting v s \<Longrightarrow> counting_after v (test_inequality 8 s)"
  unfolding test_inequality_def
  by (cases s, clarsimp simp: evaluation counting_def counting_after_def cong: strict)+

text \<open>The two roundings: the first leaves an accumulator of zero, the second sets the control word.\<close>

lemma round_even_passes:
  "startable 0 s \<Longrightarrow> case test_round_even s of None \<Rightarrow> False | Some t \<Rightarrow> startable 0 t \<and> mr (core t) = 0"
  using reset_startable [of 0 s] unfolding test_round_even_def
  by (cases "adsp2181_reset s") (clarsimp simp: evaluation cong: strict)

lemma reset_mr: "mstat_prev s = 0 \<Longrightarrow> mr (core (adsp2181_reset s)) = mr (core s)"
  by (simp add: adsp2181_reset_def update_mstat_def Let_def)

lemma round_biased_passes: "\<lbrakk>startable v s; mr (core s) = 0\<rbrakk> \<Longrightarrow> passes 0x4000 (test_round_biased s)"
  using reset_startable [of v s] reset_mr [of s] unfolding test_round_biased_def
  by (cases "adsp2181_reset s") (clarsimp simp: evaluation cong: strict)

lemma quality_passes: "startable v s \<Longrightarrow> passes v (test_quality s)"
  using reset_startable [of v s] unfolding test_quality_def
  by (cases "adsp2181_reset s") (clarsimp simp: evaluation quality_kernel_def cong: strict)

lemma equalizer_passes: "startable v s \<Longrightarrow> passes v (test_equalizer s)"
  using reset_startable [of v s] unfolding test_equalizer_def
  by (cases "adsp2181_reset s") (clarsimp simp: evaluation equalizer_output_kernel_def cong: strict)

lemma mf_overflow_passes: "startable v s \<Longrightarrow> passes v (test_mf_overflow s)"
  using reset_startable [of v s] unfolding test_mf_overflow_def
  by (cases "adsp2181_reset s") (clarsimp simp: evaluation cong: strict)

lemma modify_linear_passes: "startable v s \<Longrightarrow> passes v (test_modify_linear s)"
  using reset_startable [of v s] unfolding test_modify_linear_def
  by (cases "adsp2181_reset s") (clarsimp simp: evaluation cong: strict)

lemma modify_circular_passes: "startable v s \<Longrightarrow> passes v (test_modify_circular s)"
  using reset_startable [of v s] unfolding test_modify_circular_def
  by (cases "adsp2181_reset s") (clarsimp simp: evaluation cong: strict)

lemma norm_hi_passes: "startable v s \<Longrightarrow> passes v (test_norm_hi s)"
  using reset_startable [of v s] unfolding test_norm_hi_def
  by (cases "adsp2181_reset s") (clarsimp simp: evaluation cong: strict)

lemma norm_hix_passes: "startable v s \<Longrightarrow> passes v (test_norm_hix s)"
  using reset_startable [of v s] unfolding test_norm_hix_def
  by (cases "adsp2181_reset s") (clarsimp simp: evaluation cong: strict)

lemma counters_passes: "startable v s \<Longrightarrow> passes v (test_counters s)"
  using reset_startable [of v s] unfolding test_counters_def
  by (cases "adsp2181_reset s") (clarsimp simp: evaluation cong: strict)

lemma mr_wrap_passes: "startable v s \<Longrightarrow> passes v (test_mr_wrap s)"
  using reset_startable [of v s] unfolding test_mr_wrap_def
  by (cases "adsp2181_reset s") (clarsimp simp: evaluation cong: strict)

lemma interrupt_gate_passes: "startable v s \<Longrightarrow> passes v (test_interrupt_gate s)"
  using reset_startable [of v s] unfolding test_interrupt_gate_def
  by (cases "adsp2181_reset s") (clarsimp simp: evaluation cong: strict)

lemma return_to_idle_passes: "startable v s \<Longrightarrow> passes v (test_return_to_idle s)"
  using reset_startable [of v s] unfolding test_return_to_idle_def
  by (cases "adsp2181_reset s") (clarsimp simp: evaluation cong: strict)

lemma loop_passes: "startable v s \<Longrightarrow> passes v (test_loop s)"
  using reset_startable [of v s] unfolding test_loop_def
  by (cases "adsp2181_reset s") (clarsimp simp: evaluation cong: strict)

section \<open>The age of the machine\<close>

text \<open>A test of \<open>n\<close> cycles adds at most \<open>n\<close> to the cycle counter.\<close>

definition aged :: "nat \<Rightarrow> (adsp2181 \<Rightarrow> adsp2181 option) \<Rightarrow> bool" where
  "aged n f \<longleftrightarrow> (\<forall>s t. f s = Some t \<longrightarrow> unat (cycles (ins t)) \<le> unat (cycles (ins s)) + n)"

lemma run_aged: "run_test n s = Some t \<Longrightarrow> unat (cycles (ins t)) \<le> unat (cycles (ins s)) + nat n"
proof (cases "0 < n \<and> \<not> idma_boot_hold s")
  case True
  assume run: "run_test n s = Some t"
  have "loop_outcome (check_irqs (s\<lparr>icount := n\<rparr>)) (Some t)"
    using run True exec_loop_outcome [of "check_irqs (s\<lparr>icount := n\<rparr>)"]
    by (auto simp: run_test_def adsp2181_run_def execute_def check_irqs_frame)
  then obtain k where k: "k \<le> nat n" "steps k (check_irqs (s\<lparr>icount := n\<rparr>)) = Some t"
    unfolding loop_outcome_def option.case check_irqs_frame by auto
  have "unat (cycles (ins t)) \<le> unat (cycles (ins s)) + unat (of_nat k :: u64)"
    using steps_cycles [OF k(2)] by (simp add: check_irqs_frame unat_word_ariths mod_less_eq_dividend)
  also have "unat (of_nat k :: u64) \<le> k" by (simp add: unat_of_nat)
  finally show ?thesis using k(1) by simp
next
  case False
  then show "run_test n s = Some t \<Longrightarrow> ?thesis" by (auto simp: run_test_def adsp2181_run_def)
qed

lemma cycles_kept [simp]: "cycles (ins (adsp2181_reset s)) = cycles (ins s)" "cycles (ins (set_pm a w s)) = cycles (ins s)"
  "cycles (ins (set_dm a u s)) = cycles (ins s)" "cycles (ins (load_words a ws s)) = cycles (ins s)"
  "cycles (ins (adsp2181_set_pc s x)) = cycles (ins s)" "cycles (ins (adsp2181_set_imask s x)) = cycles (ins s)"
  "cycles (ins (adsp2181_set_irq s k b)) = cycles (ins s)"
proof -
  show "cycles (ins (load_words a ws s)) = cycles (ins s)"
    by (induction a ws s rule: load_words.induct) (simp_all add: set_pm_def)
qed (simp_all add: adsp2181_reset_def update_mstat_def reset_ins_def set_pm_def set_dm_def adsp2181_set_pc_def
  adsp2181_set_imask_def adsp2181_set_irq_def sport_receive_def check_irqs_frame Let_def split: option.split)

lemma assertion_Some [simp]: "assertion p s = Some t \<longleftrightarrow> p \<and> t = s"
  by (auto simp: assertion_def)


lemma tests_aged:
  "aged 16 test_rx_move" "aged 16 test_tx_move" "aged 16 test_parallel_move" "aged 32 test_equality"
  "aged 32 test_round_even" "aged 32 test_round_biased" "aged 128 test_quality" "aged 64 test_equalizer"
  "aged 32 test_mf_overflow" "aged 32 test_modify_linear" "aged 32 test_modify_circular" "aged 32 test_norm_hi"
  "aged 32 test_norm_hix" "aged 32 test_counters" "aged 32 test_mr_wrap" "aged 2 test_interrupt_gate"
  "aged 4 test_return_to_idle" "aged 32 test_loop"
  "aged 32 (test_inequality k)"
  unfolding aged_def test_rx_move_def test_tx_move_def test_parallel_move_def test_equality_def test_round_even_def test_round_biased_def
    test_quality_def test_equalizer_def test_mf_overflow_def test_modify_linear_def test_modify_circular_def test_norm_hi_def test_norm_hix_def
    test_counters_def test_mr_wrap_def test_interrupt_gate_def test_return_to_idle_def test_loop_def test_inequality_def Let_def
  by (force simp: bind_eq_Some_conv split: if_splits dest!: run_aged)+

section \<open>Frames\<close>

text \<open>The snapshots of a frame are in order as long as the cycle counter has not run through its 64 bits.\<close>

lemma cycles_ordered: "unat c < 0x10000 \<Longrightarrow> c \<le> c + (1 :: u64)"
  by (simp add: word_le_nat_alt unat_word_ariths)

lemma snapshots_passes: "\<lbrakk>startable v s; unat (cycles (ins s)) < 0x10000\<rbrakk> \<Longrightarrow> passes v (test_snapshots s)"
proof -
  have "cycles (ins (adsp2181_reset s)) \<le> cycles (ins (adsp2181_reset s)) + 1" if "unat (cycles (ins s)) < 0x10000"
    using that by (simp add: cycles_ordered)
  then show "\<lbrakk>startable v s; unat (cycles (ins s)) < 0x10000\<rbrakk> \<Longrightarrow> ?thesis"
    using reset_startable [of v s] unfolding test_snapshots_def
    by (cases "adsp2181_reset s") (clarsimp simp: evaluation cong: strict)
qed

lemma tx_count_passes: "startable v s \<Longrightarrow> passes v (test_tx_count s)"
  using reset_startable [of v s] unfolding test_tx_count_def
  by (cases "adsp2181_reset s") (clarsimp simp: evaluation cong: strict)

section \<open>The whole program\<close>

text \<open>A state that satisfies a condition after at most \<open>n\<close> cycles, and a test that leads from one to another.\<close>

definition fit :: "(adsp2181 \<Rightarrow> bool) \<Rightarrow> nat \<Rightarrow> adsp2181 \<Rightarrow> bool" where
  "fit P n s \<longleftrightarrow> P s \<and> unat (cycles (ins s)) \<le> n"

definition leads :: "(adsp2181 \<Rightarrow> bool) \<Rightarrow> (adsp2181 \<Rightarrow> adsp2181 option) \<Rightarrow> (adsp2181 \<Rightarrow> bool) \<Rightarrow> bool" where
  "leads P f Q \<longleftrightarrow> (\<forall>s. P s \<longrightarrow> (case f s of None \<Rightarrow> False | Some t \<Rightarrow> Q t))"

lemma fit_bind:
  assumes "fit P n s" "leads P f Q" "aged k f" "\<And>t. fit Q (n + k) t \<Longrightarrow> g t = r"
  shows "Option.bind (f s) g = r"
proof -
  obtain t where t: "f s = Some t" "Q t" using assms(1,2) by (auto simp: fit_def leads_def split: option.splits)
  then have "fit Q (n + k) t" using assms(1,3) unfolding fit_def aged_def by fastforce
  then show ?thesis using assms(4) t(1) by simp
qed

lemmas passing = rx_move_passes tx_move_passes parallel_move_passes quality_passes equalizer_passes mf_overflow_passes modify_linear_passes
  modify_circular_passes norm_hi_passes norm_hix_passes counters_passes mr_wrap_passes interrupt_gate_passes return_to_idle_passes loop_passes
  round_even_passes round_biased_passes [of 0] equality_passes inequality_passes

lemma tests_lead:
  "leads (startable v) test_rx_move (startable v)"
  "leads (startable v) test_tx_move (startable v)"
  "leads (startable v) test_parallel_move (startable v)"
  "leads (startable v) test_quality (startable v)"
  "leads (startable v) test_equalizer (startable v)"
  "leads (startable v) test_mf_overflow (startable v)"
  "leads (startable v) test_modify_linear (startable v)"
  "leads (startable v) test_modify_circular (startable v)"
  "leads (startable v) test_norm_hi (startable v)"
  "leads (startable v) test_norm_hix (startable v)"
  "leads (startable v) test_counters (startable v)"
  "leads (startable v) test_mr_wrap (startable v)"
  "leads (startable v) test_interrupt_gate (startable v)"
  "leads (startable v) test_return_to_idle (startable v)"
  "leads (startable v) test_loop (startable v)"
  "leads (startable 0) test_round_even (\<lambda>s. startable 0 s \<and> mr (core s) = 0)"
  "leads (\<lambda>s. startable 0 s \<and> mr (core s) = 0) test_round_biased (startable 0x4000)"
  "leads (startable v) test_equality (counting v)"
  "leads (counting v) (test_inequality 0) (counting v)"
  "leads (counting v) (test_inequality 1) (counting v)"
  "leads (counting v) (test_inequality 2) (counting v)"
  "leads (counting v) (test_inequality 3) (counting v)"
  "leads (counting v) (test_inequality 4) (counting v)"
  "leads (counting v) (test_inequality 5) (counting v)"
  "leads (counting v) (test_inequality 6) (counting v)"
  "leads (counting v) (test_inequality 7) (counting v)"
  "leads (counting v) (test_inequality 8) (counting v)"
  by (simp_all add: leads_def passing [unfolded passes_def counting_after_def])

lemma created_startable: "startable 0 adsp2181_create"
proof -
  have "reset_done 0 adsp2181_create" unfolding adsp2181_create_def
    by (rule reset_uncovered) (simp add: startable_def hushed_def zero_defs)
  then show ?thesis by (simp add: reset_done_def)
qed

lemma created_unused: "cycles (ins adsp2181_create) = 0"
  by (simp add: adsp2181_create_def zero_defs)

lemma ports_pass:
  obtains s t where "test_idma adsp2181_create = Some s" "test_host_port s = Some t" "fit (startable 0) 0 t"
proof -
  obtain s where s: "test_idma adsp2181_create = Some s" "startable 0 s" "pmovlay s = 0" "dmovlay s = 0" "cycles (ins s) = 0"
    using idma_passes [OF created_startable _ _ created_unused] by (auto split: option.splits)
  then show thesis using that host_port_passes [of 0 s] by (auto simp: fit_def split: option.splits)
qed

lemma snapshots_bind:
  assumes "fit (startable v) n s" "n < 0x10000" "\<And>t. startable v t \<Longrightarrow> g t = r"
  shows "Option.bind (test_snapshots s) g = r"
  using snapshots_passes [of v s] assms by (auto simp: fit_def passes_def split: option.splits)

lemma tx_count_last: "startable v s \<Longrightarrow> Option.bind (test_tx_count s) (\<lambda>_. r) = r"
  using tx_count_passes [of v s] by (auto simp: passes_def split: option.splits)

lemma counting_startable: "fit (counting v) n s \<Longrightarrow> fit (startable v) n s"
  by (simp add: fit_def counting_def)

text \<open>
  C13. The self test of the core passes on the model: every assertion of \<^verbatim>\<open>adsp2181_core_test.c\<close> holds, over the
  host port, the programs it loads into the core and runs, and the frames of the serial port, none of
  them reaches an instruction without a defined result, and the program prints its one line.
\<close>

theorem core_test_passes: "core_test_main = Some (''adsp2181_core_test: PASS'' @ [CHR 0x0A])"
proof -
  obtain s t where st: "test_idma adsp2181_create = Some s" "test_host_port s = Some t" and "fit (startable 0) 0 t"
    by (rule ports_pass)
  from this(3) show ?thesis unfolding core_test_main_def st inequalities.simps Option.bind_assoc Option.bind.bind_lunit
    by - ((erule fit_bind, rule tests_lead, rule tests_aged)+, drule counting_startable,
      (erule fit_bind, rule tests_lead, rule tests_aged)+, erule snapshots_bind, simp, erule tx_count_last)
qed

end
