(* ===== verification/Spec2Isabelle.thy ===== *)
theory Spec2Isabelle
  imports Addressing Division Multiplier Reach Ports Listing Runner Ym1 Loops Overlays
    Start Transmit Analogue Pm3 Reference Verdict
begin

text \<open>
  \<^bold>\<open>Verification library of modem-dsp-emu.\<close>  The repository runs the DSP firmware of ISDN and modem
  cards in software.  Its C code has five parts that carry logic of their own, all under
  \<^verbatim>\<open>tools/\<close>: the ADSP-2181 emulator core (\<^verbatim>\<open>adsp2181emu/adsp2181_core.c\<close> with the operations in
  \<^verbatim>\<open>2100ops.inc\<close>), its disassembler (\<^verbatim>\<open>adsp2181emu/dasm\<close>), the command line that drives the core
  (\<^verbatim>\<open>adsp2181emu/eicon_adsp_run.c\<close>), the kernel driver that talks to a real card
  (\<^verbatim>\<open>ambient_ham_probe/ambient_ham_probe.c\<close>), and the processes that put a software modem or another
  processor behind the emulator (\<^verbatim>\<open>v90_digital_phase3_event_bridge.c\<close>, \<^verbatim>\<open>v90a_phase3_bridge_probe.c\<close>,
  \<^verbatim>\<open>v90_stream_event_bridge.c\<close>, \<^verbatim>\<open>p3_segment_probe.c\<close>, \<^verbatim>\<open>v34_b1_reference.c\<close>, \<^verbatim>\<open>pm3_z180_harness.c\<close>).
  This library models them and proves what follows.

  \<^bold>\<open>How the parts interact.\<close>  A host creates a core, downloads program and data memory (through the
  IDMA port, the host port or raw pointers), raises interrupts and runs it for a number of
  cycles; a run fetches, decodes and executes instructions, which read and write the memories,
  registers and hardware stacks and report to the host through callbacks, latches and watches.  The
  command line is one such host; the serial-port frame functions of the core are another, inside the
  core's own file.  The disassembler reads the same instruction words.  The card driver shares no
  state with them: it feeds firmware records to a card and follows its packets.  The two V.90 bridges
  are the ends of a line: each reads a frame of 160 codewords, and in the data stream a packet of bits,
  from standard input and answers with a frame and a packet of its own.

  \<^bold>\<open>Conventions.\<close>  C integers are words of their width (\<open>u8\<close> to \<open>u64\<close>); signed ones are the same
  words read by \<^const>\<open>sint\<close>, or \<open>int\<close> where no overflow can occur (exit codes, and cycle
  budgets as long as they are below \<open>2 ^ 31 - 1\<close>).
  Structures are records, functions take and return the state.  Arrays are functions from
  addresses, with the masks the code applies before it indexes.  \<open>None\<close> as the result of an
  instruction or a run is undefined behaviour of the C code (a shift count out of range).  Environment,
  files, callbacks, the card and the kernel are parameters.  What a function prints or logs is kept as
  a list of events where later behaviour or a property depends on it.

  \<^bold>\<open>Theories of the core.\<close>
  \<^item> \<open>Prelude\<close>: integer types, theorem collections, facts on masks, bits and casts.
  \<^item> \<open>Machine\<close>: \<^verbatim>\<open>ADSPCORE\<close>, \<^verbatim>\<open>struct adsp2181\<close> and its instrumentation half.
  \<^item> \<open>Memory\<close>: data, program and I/O memory with overlays, pins, latches, stops and watches; the
    locale \<open>held_store\<close> states what reading after writing gives when words can be pinned, and both
    memories are instances.
  \<^item> \<open>Sequencer\<close>: the four hardware stacks, conditions, interrupt arbitration.  The locale
    \<open>saturating_stack\<close> is interpreted on each stack; shown are priority and saturation at full depth.
  \<^item> \<open>Registers\<close>, \<open>Addressing\<close>: the register groups and data address generators; circular buffers walk
    modulo their length, bases are aligned, bit reversal is an involution.
  \<^item> \<open>Alu\<close>, \<open>Arithmetic\<close>, \<open>Division\<close>: the sixteen ALU functions in their five forms against integer
    arithmetic, with exact flags (all four subtractions in all forms); sixteen DIVQ steps divide.
  \<^item> \<open>Mac\<close>, \<open>Multiplier\<close>: the multiplier/accumulator against integer arithmetic: products,
    accumulation in 40 bits, overflow flag, rounding, saturation.
  \<^item> \<open>Shifter\<close>: shifts, normalisation, exponents; EXP then NORM normalises.
  \<^item> \<open>Execute\<close>: fetch, loop handling and all 256 major opcodes of \<^verbatim>\<open>execute\<close>.
  \<^item> \<open>Invariants\<close>, \<open>Wellformed\<close>: the locales \<open>exec_invariant\<close> and \<open>step_invariant\<close> reduce an invariant
    of the whole instruction set to its primitive updates; \<open>machine_ok\<close> (stack pointers,
    status, address, loop and accumulator registers in their ranges) and \<open>linked\<close> (status bits and cached loop registers agree with the stacks)
    are instances.
  \<^item> \<open>Loops\<close>: a counted loop runs its body as often as its counter says; the stacks refine bounded
    lists; RTI after an interrupt restores what the entry saved, or enters the next pending interrupt.
  \<^item> \<open>Host\<close>: reset, bounded runs, IDMA and boot hold, host port, instrumentation switches, injected
    calls, interrupt lines, serial-port frames, the modem sample and the G.711 block.
  \<^item> \<open>Runs\<close>, \<open>Frames\<close>, \<open>Reach\<close>, \<open>Ports\<close>: exactly which instructions are undefined; what a run executes
    and returns; a TDM frame puts back the program words it patches; \<open>frame_invariant\<close>,
    \<open>host_invariant\<close> and \<open>injected_invariant\<close> carry an invariant over every host call, so that
    \<open>machine_ok\<close> holds in every reachable state and \<open>linked\<close> in every state reached without
    injected calls (a counterexample shows why); downloads read back, the boot
    sequence starts the core, no firmware changes a pinned word to anything but its pinned value.
  \<^item> \<open>Selftest\<close>, \<open>Verdict\<close>: the core's own test \<^verbatim>\<open>adsp2181_core_test.c\<close> as a program over the host interface,
    and rules (\<open>evaluation\<close>) that run the model symbolically; every assertion of the test holds.  Each
    paragraph is shown to pass from every state with quiet instrumentation and no callbacks, whatever
    the registers and memories hold, so the order of most of them does not matter.
  \<^item> \<open>Ym1\<close>: the \<^verbatim>\<open>EICON_YM1\<close> switches read from the environment.

  \<^bold>\<open>Theories of the tools.\<close>
  \<^item> \<open>CText\<close>: positional notation (locale \<open>positional\<close>), \<^verbatim>\<open>printf\<close>, \<^verbatim>\<open>strtol\<close> and \<^verbatim>\<open>scanf\<close> as far
    as the tools use them.
  \<^item> \<open>Dasm\<close>, \<open>Listing\<close>: the decoder with its tables and text, its shims and command line; every
    format call has fitting arguments and space, listings within five instruction classes
    are unambiguous, mode control is compared with the core.
  \<^item> \<open>Loaders\<close>, \<open>Runner\<close>: image loaders (locale \<open>image_loader\<close>), word maps, host scripts, serial files
    and every stage of \<^verbatim>\<open>main\<close>; the runner's core is always reachable by host calls, and a run
    without settings does what its arguments say, every error exit included.
  \<^item> \<open>Ham\<close>, \<open>Playground\<close>, \<open>Overlays\<close>: the card driver over a history of register accesses.  The locales
    \<open>card_invariant\<close> and \<open>rest_invariant\<close> carry a property of the history over every routine: the
    driver never leaves the line seized.  An overlay request is answered with exactly the firmware's words,
    and an observation ends.

  \<^bold>\<open>Theories of the bridges.\<close>  The modem libraries and the Z180 core are not in the repository: each is a
  parameter, a record of functions on an abstract state.  A library call that calls back into the program
  is a tree of its callbacks (\<open>call\<close>, \<open>idle_call\<close>, \<open>bus\<close>), run against the program's handlers by
  \<open>interact\<close>, \<open>with_idle_bits\<close> and \<open>with_board\<close>; floating-point numbers are only passed on.
  \<^item> \<open>Companding\<close>: the \<open>\<mu>\<close>-law decoder and encoder; codes survive the round trip.
  \<^item> \<open>Bitqueue\<close>: the rings of bits and the packets.  The locale \<open>bit_queue\<close> states what a queue of bits
    promises, the ring is its instance; bits cross from one bridge to the other in order.
  \<^item> \<open>P3\<close>: the demodulator's data, the stream event bridge and the capture classifier; every symbol is
    handed over once while the caller's room is enough.
  \<^item> \<open>Bridge\<close>: \<^verbatim>\<open>bridge_t\<close> (record \<open>bridge\<close>, with the part under the mutex in \<open>mailbox\<close>) and every
    function of the digital bridge: callbacks, upstream receiver, CP worker, initialisation and reset,
    events, transmission, the frame loop and \<^verbatim>\<open>main\<close>.  The worker is a thread: its locked sections are
    steps, and a frame is given a schedule of steps and spurious wake-ups before each locked section of the
    main thread.
  \<^item> \<open>Callbacks\<close>, \<open>Cpworker\<close>, \<open>Media\<close>: the locale \<open>callback_invariant\<close> carries an invariant over every call of
    the library, whatever callbacks it makes; \<open>bridge_reach\<close> are the states of the program for all inputs,
    libraries and schedules.  In all of them the arrays are kept in bounds, wake-ups are not lost and
    the worker can be joined, and a recovered frame comes from the received samples; every frame is
    answered.
  \<^item> \<open>Handover\<close>, \<open>Start\<close>, \<open>Transmit\<close>: reception starts after the E sequence, and only then unless the
    upstream samples are delayed; queued bits reach
    the transmitter in order; an event is not reported twice in a phase; when the delayed feed runs dry.
  \<^item> \<open>Analogue\<close>: the analogue probe with its stream and capture modes; the bits of the first packet are
    lost, and a stream that ends well was answered byte for byte.
  \<^item> \<open>Pm3\<close>: the board around the Z180 core, its arguments, run loop and report; the FIFOs keep their order,
    coverage counts every step and the hot list is its top.
  \<^item> \<open>Reference\<close>: the B1 reference generator.

  \<^bold>\<open>Loops and bounds.\<close>  Structural and measured recursion gives total functions; the instruction loop of
  a run is bounded by its cycle budget, which every instruction lowers.  Four loops are partial
  functions with \<open>None\<close> for a loop that does not end: the exponent loop of the shifter and the
  environment list, which are proved to return always; the observation of the card, which is proved
  to return under the stated behaviour of the clock; and the wait for a card's reply, which has no
  bound in the code (\<open>chatter_endless\<close>).  No definition takes fuel.

  \<^bold>\<open>Not modelled.\<close>  The text of log lines beyond the values they carry, \<^verbatim>\<open>stderr\<close> messages, the
  one-field getters and raw pointers of the core's interface (a host's stores through the pointers are
  the call \<open>Poke\<close>), \<^verbatim>\<open>adsp2181_destroy\<close>, the optional CNI trace line, the driver's module tables.  In the
  driver the reads that are arguments of one log call are taken left to right and \<^verbatim>\<open>jiffies\<close> does not
  wrap.  In the bridges the freeing of memory and the fields kept only for messages are left out, a
  library call made inside a callback makes no further callback (but for the CP receiver, whose frames
  are callbacks), and the sample counters do not wrap.  Every C file under
  \<^verbatim>\<open>tools/\<close> has a model.  The Python tools are not C.  Everything under \<^verbatim>\<open>docs/\<close> is third-party
  source kept for reference.
\<close>

end
